(* ===== verification/Prelude.thy ===== *)
theory Prelude
  imports Main "HOL-Library.Word" "HOL-Library.Monad_Syntax"
begin

text \<open>
  What every component shares: the machine integers of the Rust sources, the three outcomes of a
  Rust call (a value, an error, a panic), slices cut into chunks, big-endian integer codecs, and
  the run of a state machine over a list of inputs. Four interfaces are stated as locales and
  interpreted where their providers are defined: \<open>be_codec\<close> (a fixed-width encoding and its
  inverse), \<open>refinement\<close> and \<open>simulation\<close> (a step function that implements an abstract one) and
  \<open>run_ghost\<close> (a step function whose outputs are counted against its state).
\<close>

section \<open>Machine integers and byte buffers\<close>

type_synonym u8 = "8 word"
type_synonym u16 = "16 word"
type_synonym u32 = "32 word"
type_synonym u64 = "64 word"
type_synonym bytes = "8 word list"

text \<open>
  The random bytes one call draws from the thread-local generator: the \<open>i\<close>-th byte it asks for.
\<close>

type_synonym rnd = "nat \<Rightarrow> 8 word"

definition random_bytes :: "rnd \<Rightarrow> nat \<Rightarrow> bytes" where
  "random_bytes r n = map r [0..<n]"

definition advance :: "rnd \<Rightarrow> nat \<Rightarrow> rnd" where
  "advance r k = (\<lambda>i. r (k + i))"

lemma length_random_bytes [simp]: "length (random_bytes r n) = n"
  by (simp add: random_bytes_def)

text \<open>Rust's \<open>saturating_sub\<close> on unsigned words.\<close>

definition saturating_sub :: "'a::len word \<Rightarrow> 'a word \<Rightarrow> 'a word" where
  "saturating_sub a b = (if b \<le> a then a - b else 0)"

lemma unat_saturating_sub: "unat (saturating_sub a b) = unat a - unat b"
  by (auto simp: saturating_sub_def unat_sub word_le_nat_alt)

lemma saturating_sub_le_iff: "saturating_sub a b \<le> c \<longleftrightarrow> unat a \<le> unat c + unat b"
  by (simp add: word_le_nat_alt unat_saturating_sub le_diff_conv)

lemma unat_Suc_word:
  fixes w :: "'a::len word"
  assumes "unat w + 1 < 2 ^ LENGTH('a)"
  shows "unat (w + 1) = unat w + 1"
proof -
  have "unat (w + 1) = (unat w + unat (1 :: 'a word)) mod 2 ^ LENGTH('a)"
    by (rule unat_word_ariths)
  with assms show ?thesis by simp
qed

text \<open>Subtraction of \<open>usize\<close> values kept as natural numbers: it wraps around below zero.\<close>

definition usize_sub :: "nat \<Rightarrow> nat \<Rightarrow> nat" where
  "usize_sub a b = (if b \<le> a then a - b else 2 ^ 64 + a - b)"

lemma usize_sub_le [simp]: "b \<le> a \<Longrightarrow> usize_sub a b = a - b"
  by (simp add: usize_sub_def)

text \<open>\<open>num_integer::Integer::div_ceil\<close> on sizes.\<close>

definition div_ceil :: "nat \<Rightarrow> nat \<Rightarrow> nat" where
  "div_ceil a b = (if a mod b = 0 then a div b else a div b + 1)"

lemma div_ceil_0 [simp]: "div_ceil 0 b = 0"
  by (simp add: div_ceil_def)

lemma div_ceil_mult [simp]: "0 < b \<Longrightarrow> div_ceil (k * b) b = k"
  by (simp add: div_ceil_def)

lemma div_ceil_le: "0 < b \<Longrightarrow> a \<le> k * b \<Longrightarrow> div_ceil a b \<le> k"
proof -
  assume b: "0 < b" and a: "a \<le> k * b"
  show ?thesis
  proof (cases "a mod b = 0")
    case True
    with a b show ?thesis
      by (simp add: div_ceil_def) (metis div_le_mono nonzero_mult_div_cancel_right less_irrefl)
  next
    case False
    have eq: "a = a div b * b + a mod b" by simp
    with False have "a div b * b < a" by linarith
    with a have "a div b * b < k * b" by linarith
    then have "a div b < k" using b by simp
    with False show ?thesis by (simp add: div_ceil_def)
  qed
qed

lemma div_ceil_pos: "0 < b \<Longrightarrow> 0 < a \<Longrightarrow> 0 < div_ceil a b"
  by (auto simp: div_ceil_def div_greater_zero_iff)

section \<open>Outcomes of a call\<close>

text \<open>
  A Rust function returns a value, returns an error, or panics (a slice index out of range, an
  \<open>unwrap\<close> of nothing). All three are values of the model.
\<close>

datatype ('a, 'e) result = Ok 'a | Err 'e | Panic

fun rbind :: "('a, 'e) result \<Rightarrow> ('a \<Rightarrow> ('b, 'e) result) \<Rightarrow> ('b, 'e) result" where
  "rbind (Ok x) f = f x"
| "rbind (Err e) f = Err e"
| "rbind Panic f = Panic"

fun map_err :: "('e \<Rightarrow> 'f) \<Rightarrow> ('a, 'e) result \<Rightarrow> ('a, 'f) result" where
  "map_err g (Ok x) = Ok x"
| "map_err g (Err e) = Err (g e)"
| "map_err g Panic = Panic"

fun ok_or :: "'e \<Rightarrow> 'a option \<Rightarrow> ('a, 'e) result" where
  "ok_or e (Some x) = Ok x"
| "ok_or e None = Err e"

fun unwrap :: "'a option \<Rightarrow> ('a, 'e) result" where
  "unwrap (Some x) = Ok x"
| "unwrap None = Panic"

fun ok :: "('a, 'e) result \<Rightarrow> 'a option" where
  "ok (Ok x) = Some x"
| "ok (Err e) = None"
| "ok Panic = None"

lemma rbind_Ok_iff [simp]: "rbind m f = Ok y \<longleftrightarrow> (\<exists>x. m = Ok x \<and> f x = Ok y)"
  by (cases m) auto

lemma map_err_Ok_iff [simp]: "map_err g m = Ok y \<longleftrightarrow> m = Ok y"
  by (cases m) auto

lemma ok_or_Ok_iff [simp]: "ok_or e m = Ok y \<longleftrightarrow> m = Some y"
  by (cases m) auto

lemma unwrap_Ok_iff: "unwrap m = Ok y \<longleftrightarrow> m = Some y"
  by (cases m) auto

lemma ok_Some_iff [simp]: "ok m = Some y \<longleftrightarrow> m = Ok y"
  by (cases m) auto

text \<open>\<open>iter().map(f).collect::<Result<Vec<_>, _>>()\<close>: the first failure ends the walk.\<close>

fun rmap :: "('a \<Rightarrow> ('b, 'e) result) \<Rightarrow> 'a list \<Rightarrow> ('b list, 'e) result" where
  "rmap f [] = Ok []"
| "rmap f (x # xs) = rbind (f x) (\<lambda>y. rbind (rmap f xs) (\<lambda>ys. Ok (y # ys)))"

lemma rmap_Ok_iff: "rmap f xs = Ok ys \<longleftrightarrow> list_all2 (\<lambda>x y. f x = Ok y) xs ys"
  by (induction xs arbitrary: ys) (auto simp: list_all2_Cons1)

text \<open>
  A function that returns an \<open>Option\<close> and may panic has \<open>Err ()\<close> for \<open>None\<close>; \<open>ok()?\<close> on a result inside it
  forgets the error. In a \<open>filter_map\<close> the elements whose closure gives \<open>None\<close> are skipped.
\<close>

definition discard_err :: "('a, 'e) result \<Rightarrow> ('a, unit) result" where
  "discard_err = map_err (\<lambda>_. ())"

lemma discard_err_simps [simp]:
  "discard_err (Ok x) = Ok x" "discard_err (Err e) = Err ()" "discard_err Panic = Panic"
  by (simp_all add: discard_err_def)

lemma discard_err_Ok_iff [simp]: "discard_err m = Ok y \<longleftrightarrow> m = Ok y"
  by (cases m) simp_all

fun filter_map_ok :: "('a \<Rightarrow> ('b, 'e) result) \<Rightarrow> 'a list \<Rightarrow> ('b list, 'f) result" where
  "filter_map_ok f [] = Ok []"
| "filter_map_ok f (x # xs) =
     (case f x of
        Ok y \<Rightarrow> rbind (filter_map_ok f xs) (\<lambda>ys. Ok (y # ys))
      | Err e \<Rightarrow> filter_map_ok f xs
      | Panic \<Rightarrow> Panic)"

lemma filter_map_ok_length: "filter_map_ok f xs = Ok ys \<Longrightarrow> length ys \<le> length xs"
  by (induction xs arbitrary: ys) (fastforce split: result.splits)+

lemma filter_map_ok_all:
  "filter_map_ok f xs = Ok ys \<and> length ys = length xs \<longleftrightarrow> list_all2 (\<lambda>x y. f x = Ok y) xs ys"
proof (induction xs arbitrary: ys)
  case (Cons x xs)
  show ?case
  proof (cases "f x")
    case (Ok y)
    then show ?thesis using Cons.IH [of "tl ys"] by (cases ys) (auto simp: list_all2_Cons)
  next
    case (Err e)
    then show ?thesis by (auto simp: list_all2_Cons1 dest: filter_map_ok_length)
  qed (auto simp: list_all2_Cons1)
qed auto

lemma filter_map_ok_enumerate:
  "filter_map_ok f (enumerate 0 xs) = Ok ys \<and> length ys = length xs \<longleftrightarrow>
   length ys = length xs \<and> (\<forall>i < length xs. f (i, xs ! i) = Ok (ys ! i))"
  using filter_map_ok_all [of f "enumerate 0 xs" ys] by (auto simp: list_all2_conv_all_nth nth_enumerate_eq)

lemma filter_map_ok_enumerate_total:
  assumes "\<And>i. i < length xs \<Longrightarrow> \<exists>y. f (i, xs ! i) = Ok y \<and> P y"
  shows "\<exists>ys. filter_map_ok f (enumerate 0 xs) = Ok ys \<and> length ys = length xs \<and> list_all P ys"
proof -
  from assms obtain y where y: "\<And>i. i < length xs \<Longrightarrow> f (i, xs ! i) = Ok (y i) \<and> P (y i)" by metis
  let ?ys = "map y [0..<length xs]"
  have "length ?ys = length xs \<and> (\<forall>i < length xs. f (i, xs ! i) = Ok (?ys ! i))" using y by simp
  then have "filter_map_ok f (enumerate 0 xs) = Ok ?ys \<and> length ?ys = length xs"
    by (rule filter_map_ok_enumerate [THEN iffD2])
  moreover have "list_all P ?ys" using y by (simp add: list_all_iff)
  ultimately show ?thesis by blast
qed

lemma rmap_nth: "rmap f xs = Ok ys \<longleftrightarrow> length ys = length xs \<and> (\<forall>i < length xs. f (xs ! i) = Ok (ys ! i))"
  by (auto simp: rmap_Ok_iff list_all2_conv_all_nth)

lemma rmap_map: "rmap f (map g xs) = rmap (\<lambda>x. f (g x)) xs"
  by (induction xs) simp_all

lemma rmap_Ok_map: "(\<And>x. x \<in> set xs \<Longrightarrow> f x = Ok (g x)) \<Longrightarrow> rmap f xs = Ok (map g xs)"
  by (induction xs) simp_all

lemma rmap_total: "(\<And>x. x \<in> set xs \<Longrightarrow> \<exists>y. f x = Ok y) \<Longrightarrow> \<exists>ys. rmap f xs = Ok ys"
  by (induction xs) fastforce+

section \<open>Slices\<close>

text \<open>\<open>buf[a..b]\<close>: a range that is not inside the buffer panics.\<close>

definition slice :: "'a list \<Rightarrow> nat \<Rightarrow> nat \<Rightarrow> ('a list, 'e) result" where
  "slice xs a b = (if a \<le> b \<and> b \<le> length xs then Ok (take (b - a) (drop a xs)) else Panic)"

text \<open>Overwriting \<open>buf[a..a + src.len()]\<close> with \<open>src\<close>.\<close>

definition splice :: "'a list \<Rightarrow> nat \<Rightarrow> 'a list \<Rightarrow> 'a list" where
  "splice xs a src = take a xs @ src @ drop (a + length src) xs"

lemma length_splice [simp]: "a + length src \<le> length xs \<Longrightarrow> length (splice xs a src) = length xs"
  by (simp add: splice_def)

lemma nth_splice:
  assumes "a + length src \<le> length xs" and "i < length xs"
  shows "splice xs a src ! i = (if a \<le> i \<and> i < a + length src then src ! (i - a) else xs ! i)"
  using assms by (auto simp: splice_def nth_append)

text \<open>\<open>chunks(n)\<close>: consecutive pieces of \<open>n\<close> elements, the last one possibly shorter.\<close>

function chunks :: "nat \<Rightarrow> 'a list \<Rightarrow> 'a list list" where
  "chunks n xs = (if n = 0 \<or> xs = [] then [] else take n xs # chunks n (drop n xs))"
  by pat_completeness auto
termination
  by (relation "measure (\<lambda>(n, xs). length xs)") auto

declare chunks.simps [simp del]

lemma chunks_Nil [simp]: "chunks n [] = []"
  by (simp add: chunks.simps)

lemma chunks_step: "0 < n \<Longrightarrow> xs \<noteq> [] \<Longrightarrow> chunks n xs = take n xs # chunks n (drop n xs)"
  by (subst chunks.simps) simp

lemma concat_chunks [simp]: "0 < n \<Longrightarrow> concat (chunks n xs) = xs"
proof (induction n xs rule: chunks.induct)
  case (1 n xs)
  then show ?case by (cases "xs = []") (simp_all add: chunks_step)
qed

lemma length_chunks: "0 < n \<Longrightarrow> length (chunks n xs) = div_ceil (length xs) n"
proof (induction n xs rule: chunks.induct)
  case (1 n xs)
  show ?case
  proof (cases "xs = []")
    case False
    with 1 have IH: "length (chunks n (drop n xs)) = div_ceil (length xs - n) n" by simp
    have "div_ceil (length xs) n = Suc (div_ceil (length xs - n) n)"
    proof (cases "n \<le> length xs")
      case True
      with \<open>0 < n\<close> show ?thesis
        by (simp add: div_ceil_def le_div_geq le_mod_geq)
    next
      case less: False
      with False \<open>0 < n\<close> show ?thesis by (simp add: div_ceil_def)
    qed
    with IH False \<open>0 < n\<close> show ?thesis by (simp add: chunks_step)
  qed simp
qed

lemma nth_chunks: "0 < n \<Longrightarrow> i < length (chunks n xs) \<Longrightarrow> chunks n xs ! i = take n (drop (i * n) xs)"
proof (induction n xs arbitrary: i rule: chunks.induct)
  case (1 n xs)
  then show ?case
    by (cases "xs = []"; cases i) (simp_all add: chunks_step add.commute)
qed

lemma chunks_index_bound:
  assumes "0 < n" and "i < length (chunks n xs)"
  shows "i * n < length xs"
proof (rule ccontr)
  assume "\<not> i * n < length xs"
  then have "length xs \<le> i * n" by simp
  then have "div_ceil (length xs) n \<le> i" using assms(1) by (rule div_ceil_le[rotated])
  with assms show False by (simp add: length_chunks)
qed

lemma length_nth_chunks:
  assumes "0 < n" and "i < length (chunks n xs)"
  shows "length (chunks n xs ! i) = min n (length xs - i * n)"
  using assms by (simp add: nth_chunks)

lemma div_eq_bounds: "0 < m \<Longrightarrow> j div m = k \<longleftrightarrow> k * m \<le> j \<and> j < k * m + m" for m :: nat
proof
  assume "0 < m" and "j div m = k"
  then have "k * m + j mod m = j" "j mod m < m"
    using div_mult_mod_eq [of j m] by simp_all
  then show "k * m \<le> j \<and> j < k * m + m" by linarith
qed (simp add: div_nat_eqI mult.commute)

lemma div_less_chunks:
  assumes "0 < n" and "j < length xs"
  shows "j div n < length (chunks n xs)"
proof (cases "length xs mod n = 0")
  case True
  then have "length xs = length xs div n * n" by (metis add.right_neutral div_mult_mod_eq)
  with assms(2) have "j < length xs div n * n" by simp
  then have "j div n < length xs div n" by (rule less_mult_imp_div_less)
  with True assms(1) show ?thesis by (simp add: length_chunks div_ceil_def)
next
  case False
  have "j div n \<le> length xs div n" using assms(2) by (simp add: div_le_mono)
  with False assms(1) show ?thesis by (simp add: length_chunks div_ceil_def)
qed

lemma splice_chunk:
  assumes m: "0 < m" and k: "k * m < length c" and buf: "length buf = length c"
    and j: "j < length c" and here: "j div m = k \<or> buf ! j = c ! j"
  shows "splice buf (k * m) (take m (drop (k * m) c)) ! j = c ! j"
proof -
  define s where "s = k * m"
  let ?b = "take m (drop s c)"
  have s: "s < length c" using k by (simp add: s_def)
  have "length ?b \<le> length c - s" by simp
  with s buf have fit: "s + length ?b \<le> length buf" by linarith
  have eq: "splice buf s ?b ! j = (if s \<le> j \<and> j < s + length ?b then ?b ! (j - s) else buf ! j)"
    using fit j buf by (simp add: nth_splice)
  have "s \<le> j \<and> j < s + length ?b" if "j div m = k"
  proof -
    have "s \<le> j" "j < s + m" using that div_eq_bounds [OF m, of j k] by (simp_all add: s_def)
    moreover have "length ?b = min (length c - s) m" by simp
    ultimately show ?thesis using j s by linarith
  qed
  with here j eq show ?thesis by (auto simp: s_def [symmetric])
qed

section \<open>Big-endian integers\<close>

fun be_of_nat :: "nat \<Rightarrow> nat \<Rightarrow> bytes" where
  "be_of_nat 0 n = []"
| "be_of_nat (Suc k) n = be_of_nat k (n div 256) @ [word_of_nat n]"

definition nat_of_be :: "bytes \<Rightarrow> nat" where
  "nat_of_be = foldl (\<lambda>acc b. acc * 256 + unat b) 0"

lemma length_be_of_nat [simp]: "length (be_of_nat k n) = k"
  by (induction k arbitrary: n) auto

lemma nat_of_be_snoc [simp]: "nat_of_be (xs @ [b]) = nat_of_be xs * 256 + unat b"
  by (simp add: nat_of_be_def)

lemma nat_of_be_of_nat: "nat_of_be (be_of_nat k n) = n mod 256 ^ k"
proof (induction k arbitrary: n)
  case 0
  show ?case by (simp add: nat_of_be_def)
next
  case (Suc k)
  have "n mod 256 ^ Suc k = 256 * (n div 256 mod 256 ^ k) + n mod 256"
    by (simp add: mod_mult2_eq)
  with Suc show ?case by (simp add: unat_of_nat)
qed

lemma nat_of_be_bound: "nat_of_be bs < 256 ^ length bs"
proof (induction bs rule: rev_induct)
  case Nil
  show ?case by (simp add: nat_of_be_def)
next
  case (snoc b bs)
  have "unat b < 256" using unsigned_less [of b] by simp
  with snoc show ?case by simp
qed

lemma be_of_nat_of_be: "be_of_nat (length bs) (nat_of_be bs) = bs"
proof (induction bs rule: rev_induct)
  case (snoc b bs)
  have "unat b < 256" using unsigned_less [of b] by simp
  moreover have "(256 :: u8) = 0" by simp
  then have "(word_of_nat (nat_of_be bs * 256) :: u8) = 0"
    by (simp only: of_nat_mult of_nat_numeral mult_zero_right)
  ultimately show ?case using snoc by (simp del: of_nat_mult)
qed simp

definition u32_to_be :: "u32 \<Rightarrow> bytes" where
  "u32_to_be w = be_of_nat 4 (unat w)"

definition u32_of_be :: "bytes \<Rightarrow> u32" where
  "u32_of_be bs = word_of_nat (nat_of_be bs)"

definition u64_to_be :: "u64 \<Rightarrow> bytes" where
  "u64_to_be w = be_of_nat 8 (unat w)"

definition u64_of_be :: "bytes \<Rightarrow> u64" where
  "u64_of_be bs = word_of_nat (nat_of_be bs)"

text \<open>
  The interface of a fixed-width codec. A buffer whose last (or first) \<open>width\<close> bytes are an
  encoding splits back into the rest and the value.
\<close>

locale be_codec =
  fixes enc :: "'a \<Rightarrow> bytes" and dec :: "bytes \<Rightarrow> 'a" and width :: nat
  assumes length_enc: "length (enc v) = width"
    and dec_enc: "dec (enc v) = v"
    and enc_dec: "length b = width \<Longrightarrow> enc (dec b) = b"
begin

lemma enc_inject: "enc v = enc w \<longleftrightarrow> v = w"
  by (metis dec_enc)

lemma trailer_rest: "take (length (xs @ enc v) - width) (xs @ enc v) = xs"
  by (simp add: length_enc)

lemma trailer_value: "dec (drop (length (xs @ enc v) - width) (xs @ enc v)) = v"
  by (simp add: length_enc dec_enc)

lemma prefix_value: "dec (take width (enc v @ xs)) = v"
  by (simp add: length_enc dec_enc)

lemma prefix_rest: "drop width (enc v @ xs) = xs"
  by (simp add: length_enc)

end

interpretation be32: be_codec u32_to_be u32_of_be 4
proof unfold_locales
  fix v :: u32
  show "length (u32_to_be v) = 4" by (simp add: u32_to_be_def)
  have "unat v < 2 ^ 32" using unsigned_less [of v] by simp
  then show "u32_of_be (u32_to_be v) = v"
    by (simp add: u32_of_be_def u32_to_be_def nat_of_be_of_nat)
next
  fix b :: bytes
  assume "length b = 4"
  with nat_of_be_bound [of b] be_of_nat_of_be [of b] show "u32_to_be (u32_of_be b) = b"
    by (simp add: u32_of_be_def u32_to_be_def unat_of_nat)
qed

interpretation be64: be_codec u64_to_be u64_of_be 8
proof unfold_locales
  fix v :: u64
  show "length (u64_to_be v) = 8" by (simp add: u64_to_be_def)
  have "unat v < 2 ^ 64" using unsigned_less [of v] by simp
  then show "u64_of_be (u64_to_be v) = v"
    by (simp add: u64_of_be_def u64_to_be_def nat_of_be_of_nat)
next
  fix b :: bytes
  assume "length b = 8"
  with nat_of_be_bound [of b] be_of_nat_of_be [of b] show "u64_to_be (u64_of_be b) = b"
    by (simp add: u64_of_be_def u64_to_be_def unat_of_nat)
qed

lemmas be_codec_simps [simp] =
  be32.length_enc be32.dec_enc be64.length_enc be64.dec_enc

section \<open>Runs of a state machine\<close>

fun run :: "('s \<Rightarrow> 'e \<Rightarrow> 'o \<times> 's) \<Rightarrow> 's \<Rightarrow> 'e list \<Rightarrow> 'o list \<times> 's" where
  "run step s [] = ([], s)"
| "run step s (e # es) =
     (let (out, s') = step s e; (outs, s'') = run step s' es in (out # outs, s''))"

lemma run_Cons_fst: "fst (run step s (e # es)) = fst (step s e) # fst (run step (snd (step s e)) es)"
  by (simp add: case_prod_beta Let_def)

lemma run_Cons_snd: "snd (run step s (e # es)) = snd (run step (snd (step s e)) es)"
  by (simp add: case_prod_beta Let_def)

lemma length_run [simp]: "length (fst (run step s es)) = length es"
  by (induction es arbitrary: s) (simp_all add: run_Cons_fst del: run.simps(2))

lemma run_append:
  "run step s (es @ fs) =
     (fst (run step s es) @ fst (run step (snd (run step s es)) fs),
      snd (run step (snd (run step s es)) fs))"
  by (induction es arbitrary: s) (auto simp: case_prod_beta Let_def)

lemma nth_run:
  "k < length es \<Longrightarrow> fst (run step s es) ! k = fst (step (snd (run step s (take k es))) (es ! k))"
proof (induction es arbitrary: s k)
  case (Cons e es)
  then show ?case by (cases k) (simp_all add: run_Cons_fst run_Cons_snd del: run.simps(2))
qed simp

lemma run_map: "run step s (map f es) = run (\<lambda>s e. step s (f e)) s es"
  by (induction es arbitrary: s) simp_all

text \<open>
  A step function that implements another one: on every state with the invariant and every
  admissible input, the abstract step predicts the output and the next abstract state.
\<close>

locale refinement =
  fixes step :: "'s \<Rightarrow> 'e \<Rightarrow> 'o \<times> 's" and astep :: "'t \<Rightarrow> 'f \<Rightarrow> 'p \<times> 't"
    and abs :: "'s \<Rightarrow> 't" and inp :: "'e \<Rightarrow> 'f" and out :: "'e \<Rightarrow> 'p \<Rightarrow> 'o"
    and inv :: "'s \<Rightarrow> bool" and adm :: "'e \<Rightarrow> bool"
  assumes step_out: "inv s \<Longrightarrow> adm e \<Longrightarrow> fst (step s e) = out e (fst (astep (abs s) (inp e)))"
    and step_abs: "inv s \<Longrightarrow> adm e \<Longrightarrow> abs (snd (step s e)) = snd (astep (abs s) (inp e))"
    and step_keeps: "inv s \<Longrightarrow> adm e \<Longrightarrow> inv (snd (step s e))"
begin

lemma run_refines:
  "inv s \<Longrightarrow> list_all adm es \<Longrightarrow>
   fst (run step s es) = map2 out es (fst (run astep (abs s) (map inp es))) \<and>
   abs (snd (run step s es)) = snd (run astep (abs s) (map inp es)) \<and> inv (snd (run step s es))"
  by (induction es arbitrary: s)
    (simp_all add: step_out step_abs step_keeps run_Cons_fst run_Cons_snd del: run.simps(2))

end

text \<open>
  The same with a function in the other direction: every abstract state with the invariant describes
  one concrete state, and the steps keep to it.
\<close>

locale simulation =
  fixes step :: "'s \<Rightarrow> 'e \<Rightarrow> 'o \<times> 's" and astep :: "'t \<Rightarrow> 'f \<Rightarrow> 'p \<times> 't"
    and conc :: "'t \<Rightarrow> 's" and inp :: "'e \<Rightarrow> 'f" and out :: "'e \<Rightarrow> 'p \<Rightarrow> 'o"
    and inv :: "'t \<Rightarrow> bool" and adm :: "'e \<Rightarrow> bool"
  assumes step_sim: "inv t \<Longrightarrow> adm e \<Longrightarrow>
      step (conc t) e = (out e (fst (astep t (inp e))), conc (snd (astep t (inp e))))"
    and step_inv: "inv t \<Longrightarrow> adm e \<Longrightarrow> inv (snd (astep t (inp e)))"
begin

lemma run_simulates:
  "inv t \<Longrightarrow> list_all adm es \<Longrightarrow>
   run step (conc t) es =
     (map2 out es (fst (run astep t (map inp es))), conc (snd (run astep t (map inp es))))"
  by (induction es arbitrary: t) (simp_all add: step_sim step_inv case_prod_beta Let_def)

end

text \<open>
  A step function whose inputs and outputs are recorded: \<open>J\<close> relates the state to the whole
  history of input/output pairs so far.
\<close>

locale run_ghost =
  fixes step :: "'s \<Rightarrow> 'e \<Rightarrow> 'o \<times> 's" and J :: "('e \<times> 'o) list \<Rightarrow> 's \<Rightarrow> bool" and bound :: nat
  assumes step_ghost:
    "J h s \<Longrightarrow> length h < bound \<Longrightarrow> J (h @ [(e, fst (step s e))]) (snd (step s e))"
begin

lemma run_ghost:
  "J h s \<Longrightarrow> length h + length es \<le> bound \<Longrightarrow>
   J (h @ zip es (fst (run step s es))) (snd (run step s es))"
proof (induction es arbitrary: h s)
  case (Cons e es)
  let ?h = "h @ [(e, fst (step s e))]"
  from Cons.prems have "J ?h (snd (step s e))"
    by (auto intro: step_ghost)
  then have "J (?h @ zip es (fst (run step (snd (step s e)) es)))
      (snd (run step (snd (step s e)) es))"
    by (rule Cons.IH) (use Cons.prems in simp)
  then show ?case by (simp add: run_Cons_fst run_Cons_snd del: run.simps(2))
qed simp

end

end
