(* ===== verification/Algorithms.thy ===== *)
theory Algorithms
  imports Prelude
begin

text \<open>
  The algorithm dictionary of \<open>citadel_pqcrypto/src/lib.rs\<close> (the negotiated algorithms, their
  one-byte wire form and the size rules), the constructor options of \<open>constructor_opts.rs\<close>, the
  security levels of \<open>citadel_crypt/src/entropy_bank.rs\<close>, and the error types of both crates. The
  text of an error message is kept up to the values interpolated into it.
\<close>

unbundle bit_operations_syntax

section \<open>Errors\<close>

datatype pq_error =
    SharedSecretNotLoaded
  | EncryptionFailure
  | DecryptionFailure
  | Generic string
  | Other string
  | InvalidLength

text \<open>\<open>Display\<close> forwards to the derived \<open>Debug\<close>, which quotes and escapes the message.\<close>

definition debug_str :: "string \<Rightarrow> string" where
  "debug_str s =
     CHR 0x22 # concat (map (\<lambda>c. if c = CHR 0x22 \<or> c = CHR 0x5C then [CHR 0x5C, c] else [c]) s) @
     [CHR 0x22]"

fun pq_error_to_string :: "pq_error \<Rightarrow> string" where
  "pq_error_to_string SharedSecretNotLoaded = ''SharedSecretNotLoaded''"
| "pq_error_to_string EncryptionFailure = ''EncryptionFailure''"
| "pq_error_to_string DecryptionFailure = ''DecryptionFailure''"
| "pq_error_to_string (Generic s) = ''Generic('' @ debug_str s @ '')''"
| "pq_error_to_string (Other s) = ''Other('' @ debug_str s @ '')''"
| "pq_error_to_string InvalidLength = ''InvalidLength''"

datatype crypt_error =
    Encrypt string
  | Decrypt string
  | DrillUpdateError string
  | OutOfBoundsError
  | BadSecuritySetting

section \<open>Algorithms and crypto parameters\<close>

datatype encryption_algorithm = AES_GCM_256_SIV | Xchacha20Poly_1305 | Kyber

datatype kem_algorithm = KemKyber

datatype sig_algorithm = SigNone | Falcon1024

record crypto_parameters =
  encryption_algorithm :: encryption_algorithm
  kem_algorithm :: kem_algorithm
  sig_algorithm :: sig_algorithm

definition default_crypto_parameters :: crypto_parameters where
  "default_crypto_parameters =
     \<lparr>encryption_algorithm = AES_GCM_256_SIV, kem_algorithm = KemKyber, sig_algorithm = SigNone\<rparr>"

fun enc_to_primitive :: "encryption_algorithm \<Rightarrow> u8" where
  "enc_to_primitive AES_GCM_256_SIV = 0"
| "enc_to_primitive Xchacha20Poly_1305 = 1"
| "enc_to_primitive Kyber = 2"

definition enc_from_primitive :: "u8 \<Rightarrow> encryption_algorithm option" where
  "enc_from_primitive v =
     (if v = 0 then Some AES_GCM_256_SIV else if v = 1 then Some Xchacha20Poly_1305
      else if v = 2 then Some Kyber else None)"

fun kem_to_primitive :: "kem_algorithm \<Rightarrow> u8" where
  "kem_to_primitive KemKyber = 0"

definition kem_from_primitive :: "u8 \<Rightarrow> kem_algorithm option" where
  "kem_from_primitive v = (if v = 0 then Some KemKyber else None)"

fun sig_to_primitive :: "sig_algorithm \<Rightarrow> u8" where
  "sig_to_primitive SigNone = 0"
| "sig_to_primitive Falcon1024 = 1"

definition sig_from_primitive :: "u8 \<Rightarrow> sig_algorithm option" where
  "sig_from_primitive v = (if v = 0 then Some SigNone else if v = 1 then Some Falcon1024 else None)"

definition validate_crypto_params :: "crypto_parameters \<Rightarrow> (unit, pq_error) result" where
  "validate_crypto_params params =
     (if encryption_algorithm params = Kyber \<and> kem_algorithm params \<noteq> KemKyber
      then Err (Generic ''Invalid crypto parameter combination. Kyber encryption must be paired with Kyber KEM'')
      else if encryption_algorithm params = Kyber \<and> kem_algorithm params = KemKyber
              \<and> sig_algorithm params = SigNone
      then Err (Generic ''A post-quantum signature scheme must be selected when using Kyber encryption + KEM'')
      else Ok ())"

text \<open>
  The packed byte, most significant bit first: bits 0 to 2 the encryption algorithm, bits 3 to 5 the
  KEM, bits 6 and 7 the signature scheme.
\<close>

definition crypto_params_to_u8 :: "crypto_parameters \<Rightarrow> u8" where
  "crypto_params_to_u8 p =
     push_bit 5 (enc_to_primitive (encryption_algorithm p)) OR
     push_bit 2 (kem_to_primitive (kem_algorithm p)) OR
     sig_to_primitive (sig_algorithm p)"

definition unpack_crypto_params :: "u8 \<Rightarrow> crypto_parameters option" where
  "unpack_crypto_params v = do {
     e \<leftarrow> enc_from_primitive (drop_bit 5 v);
     k \<leftarrow> kem_from_primitive (drop_bit 2 v AND 7);
     s \<leftarrow> sig_from_primitive (v AND 3);
     Some \<lparr>encryption_algorithm = e, kem_algorithm = k, sig_algorithm = s\<rparr>
   }"

definition crypto_params_try_from_u8 :: "u8 \<Rightarrow> (crypto_parameters, pq_error) result" where
  "crypto_params_try_from_u8 v =
     rbind (ok_or (Other ''unpack'') (unpack_crypto_params v))
       (\<lambda>this. rbind (validate_crypto_params this) (\<lambda>_. Ok this))"

text \<open>\<open>AlgorithmsExt::set_crypto_param\<close> and the \<open>+\<close> that combines algorithms into parameters.\<close>

datatype algorithm = EncAlg encryption_algorithm | KemAlg kem_algorithm | SigAlg sig_algorithm

fun set_crypto_param :: "algorithm \<Rightarrow> crypto_parameters \<Rightarrow> crypto_parameters" where
  "set_crypto_param (KemAlg k) params = params\<lparr>kem_algorithm := k\<rparr>"
| "set_crypto_param (EncAlg e) params = params\<lparr>encryption_algorithm := e\<rparr>"
| "set_crypto_param (SigAlg s) params = params\<lparr>sig_algorithm := s\<rparr>"

definition add_inner :: "algorithm \<Rightarrow> algorithm \<Rightarrow> crypto_parameters" where
  "add_inner lhs rhs = set_crypto_param rhs (set_crypto_param lhs default_crypto_parameters)"

definition add_algorithm :: "crypto_parameters \<Rightarrow> algorithm \<Rightarrow> crypto_parameters" where
  "add_algorithm params rhs = set_crypto_param rhs params"

definition crypto_params_from :: "algorithm \<Rightarrow> crypto_parameters" where
  "crypto_params_from this = set_crypto_param this default_crypto_parameters"

section \<open>Size rules\<close>

definition CHA_CHA_NONCE_LENGTH_BYTES :: nat where "CHA_CHA_NONCE_LENGTH_BYTES = 24"

definition AES_GCM_NONCE_LENGTH_BYTES :: nat where "AES_GCM_NONCE_LENGTH_BYTES = 12"

definition KYBER_NONCE_LENGTH_BYTES :: nat where "KYBER_NONCE_LENGTH_BYTES = 32"

definition LARGEST_NONCE_LEN :: nat where "LARGEST_NONCE_LEN = KYBER_NONCE_LENGTH_BYTES"

fun nonce_len :: "encryption_algorithm \<Rightarrow> nat" where
  "nonce_len AES_GCM_256_SIV = AES_GCM_NONCE_LENGTH_BYTES"
| "nonce_len Xchacha20Poly_1305 = CHA_CHA_NONCE_LENGTH_BYTES"
| "nonce_len Kyber = KYBER_NONCE_LENGTH_BYTES"

lemmas nonce_len_defs =
  AES_GCM_NONCE_LENGTH_BYTES_def CHA_CHA_NONCE_LENGTH_BYTES_def KYBER_NONCE_LENGTH_BYTES_def
  LARGEST_NONCE_LEN_def

text \<open>
  The length of a Falcon signature and of a Kyber ciphertext come from third-party crates: they are
  the arguments \<open>signature_bytes\<close> and \<open>kyber_ct_len\<close>.
\<close>

fun max_ciphertext_len :: "nat \<Rightarrow> (nat \<Rightarrow> nat) \<Rightarrow> encryption_algorithm \<Rightarrow> nat \<Rightarrow> nat" where
  "max_ciphertext_len signature_bytes kyber_ct_len AES_GCM_256_SIV plaintext_length =
     plaintext_length + 16"
| "max_ciphertext_len signature_bytes kyber_ct_len Xchacha20Poly_1305 plaintext_length =
     plaintext_length + 16"
| "max_ciphertext_len signature_bytes kyber_ct_len Kyber plaintext_length =
     (let aes_input_len = signature_bytes + 8;
          aes_output_len = aes_input_len + 16;
          kyber_input_len = 32 + 8;
          kyber_output_len = kyber_ct_len kyber_input_len
      in aes_output_len + kyber_output_len + 8)"

fun plaintext_length :: "(bytes \<Rightarrow> u64 option) \<Rightarrow> encryption_algorithm \<Rightarrow> bytes \<Rightarrow> u64 option" where
  "plaintext_length kyber_plaintext_len AES_GCM_256_SIV ciphertext =
     Some (word_of_nat (length ciphertext) - 16)"
| "plaintext_length kyber_plaintext_len Xchacha20Poly_1305 ciphertext =
     Some (word_of_nat (length ciphertext) - 16)"
| "plaintext_length kyber_plaintext_len Kyber ciphertext = kyber_plaintext_len ciphertext"

section \<open>Constructor options\<close>

record recursive_chain =
  rc_chain :: bytes
  rc_alice :: bytes
  rc_bob :: bytes
  rc_first :: bool

definition recursive_chain_new ::
    "bytes \<Rightarrow> bytes \<Rightarrow> bytes \<Rightarrow> bool \<Rightarrow> recursive_chain option" where
  "recursive_chain_new chain alice bob first =
     (if length chain \<noteq> 32 \<or> length alice \<noteq> 32 \<or> length bob \<noteq> 32 then None
      else Some \<lparr>rc_chain = chain, rc_alice = alice, rc_bob = bob, rc_first = first\<rparr>)"

record constructor_opts =
  co_cryptography :: "crypto_parameters option"
  co_chain :: "recursive_chain option"

definition opts_new_init :: "crypto_parameters option \<Rightarrow> constructor_opts" where
  "opts_new_init cryptography = \<lparr>co_cryptography = cryptography, co_chain = None\<rparr>"

definition opts_new_vec_init :: "crypto_parameters option \<Rightarrow> nat \<Rightarrow> constructor_opts list" where
  "opts_new_vec_init cryptography count =
     (let settings = (case cryptography of Some c \<Rightarrow> c | None \<Rightarrow> default_crypto_parameters)
      in map (\<lambda>_. opts_new_init (Some settings)) [0..<count])"

definition opts_new_from_previous ::
    "crypto_parameters option \<Rightarrow> recursive_chain \<Rightarrow> constructor_opts" where
  "opts_new_from_previous cryptography previous_shared_secret =
     \<lparr>co_cryptography = cryptography, co_chain = Some previous_shared_secret\<rparr>"

definition opts_params :: "constructor_opts \<Rightarrow> crypto_parameters" where
  "opts_params opts =
     (case co_cryptography opts of Some c \<Rightarrow> c | None \<Rightarrow> default_crypto_parameters)"

lemma opts_params_init [simp]: "opts_params (opts_new_init (Some p)) = p"
  by (simp add: opts_params_def opts_new_init_def)

lemma co_chain_init [simp]: "co_chain (opts_new_init c) = None"
  by (simp add: opts_new_init_def)

section \<open>Security levels\<close>

datatype security_level = Standard | Reinforced | High | Ultra | Extreme | Custom u8

fun level_value :: "security_level \<Rightarrow> u8" where
  "level_value Standard = 0"
| "level_value Reinforced = 1"
| "level_value High = 2"
| "level_value Ultra = 3"
| "level_value Extreme = 4"
| "level_value (Custom val) = val"

definition level_from_u8 :: "u8 \<Rightarrow> security_level" where
  "level_from_u8 val =
     (if val = 0 then Standard else if val = 1 then Reinforced else if val = 2 then High
      else if val = 3 then Ultra else if val = 4 then Extreme else Custom val)"

definition level_for_value :: "nat \<Rightarrow> security_level option" where
  "level_for_value val = (if val < 256 then Some (level_from_u8 (word_of_nat val)) else None)"

lemma level_value_from_u8 [simp]: "level_value (level_from_u8 v) = v"
  by (simp add: level_from_u8_def)

lemma level_for_value_Some_iff:
  "level_for_value n = Some l \<longleftrightarrow> n < 256 \<and> l = level_from_u8 (word_of_nat n)"
  by (auto simp: level_for_value_def)

lemma unat_level_for_value: "level_for_value n = Some l \<Longrightarrow> unat (level_value l) = n"
  by (auto simp: level_for_value_Some_iff unat_of_nat)

section \<open>Properties\<close>

lemma crypto_params_cases:
  fixes p :: crypto_parameters
  obtains e s where "p = \<lparr>encryption_algorithm = e, kem_algorithm = KemKyber, sig_algorithm = s\<rparr>"
  by (cases p) (metis (full_types) kem_algorithm.exhaust)

lemma unpack_pack: "unpack_crypto_params (crypto_params_to_u8 p) = Some p"
proof (cases p rule: crypto_params_cases)
  case (1 e s)
  then show ?thesis
    by (cases e; cases s)
      (simp_all add: unpack_crypto_params_def crypto_params_to_u8_def enc_from_primitive_def
        kem_from_primitive_def sig_from_primitive_def)
qed

lemma word8_split: "push_bit 5 (drop_bit 5 v) OR push_bit 2 (drop_bit 2 v AND 7) OR (v AND 3) = (v :: u8)"
proof (rule bit_word_eqI)
  fix n assume "n < LENGTH(8)"
  have masks: "(7 :: u8) = mask 3" "(3 :: u8) = mask 2"
    by (simp_all add: mask_eq_exp_minus_1)
  have idx: "5 + (n - 5) = n" if "5 \<le> n"
    using that by simp
  have idx': "2 + (n - 2) = n" if "2 \<le> n"
    using that by simp
  show "bit (push_bit 5 (drop_bit 5 v) OR push_bit 2 (drop_bit 2 v AND 7) OR (v AND 3)) n = bit v n"
    unfolding masks bit_or_iff bit_and_iff bit_push_bit_iff bit_drop_bit_eq bit_mask_iff comp_def
    using \<open>n < LENGTH(8)\<close> idx idx' by (cases "5 \<le> n") auto
qed

lemma from_primitive_Some:
  "enc_from_primitive v = Some e \<Longrightarrow> enc_to_primitive e = v"
  "kem_from_primitive v = Some k \<Longrightarrow> kem_to_primitive k = v"
  "sig_from_primitive v = Some s \<Longrightarrow> sig_to_primitive s = v"
  by (auto simp: enc_from_primitive_def kem_from_primitive_def sig_from_primitive_def
      split: if_splits)

lemma pack_unpack: "unpack_crypto_params v = Some p \<Longrightarrow> crypto_params_to_u8 p = v"
  using word8_split [of v]
  by (auto simp: unpack_crypto_params_def crypto_params_to_u8_def bind_eq_Some_conv
      dest!: from_primitive_Some)

text \<open>
  C24: The one-byte wire form of the crypto parameters is exact: a byte decodes to \<open>p\<close> if and only if
  \<open>p\<close> is a valid combination and the byte is the encoding of \<open>p\<close>.
\<close>

theorem crypto_params_wire_exact:
  "crypto_params_try_from_u8 v = Ok p \<longleftrightarrow>
     validate_crypto_params p = Ok () \<and> v = crypto_params_to_u8 p"
  using unpack_pack [of p] pack_unpack [of v p]
  by (auto simp: crypto_params_try_from_u8_def)

end
