(* ===== verification/Scram_Crypt.thy ===== *)
theory Scram_Crypt
  imports Algorithms
begin

text \<open>
  The scramble dictionary of \<open>citadel_pqcrypto/src/wire.rs\<close>: a block of random shifts added to
  (subtracted from) every block of a buffer, after padding the buffer to whole blocks. The block
  size is the length of the mapping; a buffer cut into chunks of that size has only whole chunks
  wherever \<open>chunks_exact_mut\<close> is called, because the padding or the length check came first.
\<close>

definition scram_new :: "nat \<Rightarrow> rnd \<Rightarrow> (bytes, pq_error) result" where
  "scram_new block_size r =
     (if block_size > 256 \<or> block_size mod 2 \<noteq> 0 then Panic else Ok (random_bytes r block_size))"

definition swap_in_place :: "bytes \<Rightarrow> bytes \<Rightarrow> bool \<Rightarrow> (bytes, pq_error) result" where
  "swap_in_place mapping buf reverse =
     (if length buf \<noteq> length mapping then Err (Generic ''Bad input buffer length'')
      else Ok (map2 (\<lambda>shift b. if reverse then b - shift else b + shift) mapping buf))"

definition scram_pad :: "nat \<Rightarrow> rnd \<Rightarrow> bytes \<Rightarrow> bytes" where
  "scram_pad block_size r buf =
     (if length buf mod block_size \<noteq> 0 \<or> buf = []
      then buf @ random_bytes r (block_size - length buf mod block_size) else buf)"

definition scramble_in_place :: "bytes \<Rightarrow> rnd \<Rightarrow> bytes \<Rightarrow> (bytes, pq_error) result" where
  "scramble_in_place mapping r buf =
     (let block_size = length mapping in
      if block_size = 0 then Panic
      else rbind (rmap (\<lambda>chunk. swap_in_place mapping chunk False)
                    (chunks block_size (scram_pad block_size r buf)))
             (\<lambda>blocks. Ok (concat blocks)))"

definition descramble_in_place :: "bytes \<Rightarrow> bytes \<Rightarrow> (bytes, pq_error) result" where
  "descramble_in_place mapping buf =
     (let chunk_len = length mapping in
      if chunk_len = 0 then Panic
      else if length buf mod chunk_len \<noteq> 0 then Err (Other ''Invalid input len for scrambler'')
      else rbind (rmap (\<lambda>chunk. swap_in_place mapping chunk True) (chunks chunk_len buf))
             (\<lambda>blocks. Ok (concat blocks)))"

section \<open>Whole blocks\<close>

lemma scram_pad_length:
  assumes "0 < n"
  shows "length (scram_pad n r buf) mod n = 0" and "scram_pad n r buf \<noteq> []"
    and "take (length buf) (scram_pad n r buf) = buf"
proof -
  have "(length buf + (n - length buf mod n)) mod n = 0"
    using assms by (metis le_add_diff_inverse mod_add_left_eq mod_le_divisor mod_self)
  then show "length (scram_pad n r buf) mod n = 0"
    by (auto simp: scram_pad_def)
  show "scram_pad n r buf \<noteq> []"
    using assms by (auto simp: scram_pad_def random_bytes_def)
  show "take (length buf) (scram_pad n r buf) = buf"
    by (simp add: scram_pad_def)
qed

lemma whole_chunks:
  assumes "0 < n" and "length xs mod n = 0" and "c \<in> set (chunks n xs)"
  shows "length c = n"
proof -
  from assms(3) obtain i where i: "i < length (chunks n xs)" "c = chunks n xs ! i"
    by (auto simp: in_set_conv_nth)
  from assms(2) obtain k where k: "length xs = k * n"
    by (metis dvd_def mod_0_imp_dvd mult.commute)
  with i assms(1) have "i < k" by (simp add: length_chunks)
  then have "n \<le> (k - i) * n" by (cases "k - i") auto
  also have "\<dots> = length xs - i * n" by (simp add: k diff_mult_distrib)
  finally show ?thesis
    using i assms(1) by (simp add: length_nth_chunks min_absorb1)
qed

lemma chunks_concat:
  assumes "0 < n" and "\<forall>c\<in>set cs. length c = n"
  shows "chunks n (concat cs) = cs"
  using assms(2)
proof (induction cs)
  case (Cons c cs)
  then have "c @ concat cs \<noteq> []" using assms(1) by auto
  with Cons show ?case using assms(1) by (simp add: chunks_step)
qed simp

lemma length_concat_blocks: "\<forall>c\<in>set cs. length c = n \<Longrightarrow> length (concat cs) = length cs * n"
  by (induction cs) auto

lemma swap_in_place_inverse:
  "swap_in_place mapping buf False = Ok s \<Longrightarrow>
   length s = length mapping \<and> swap_in_place mapping s True = Ok buf"
  by (auto simp: swap_in_place_def intro!: nth_equalityI split: if_splits)

lemma swap_in_place_ok: "length buf = length mapping \<Longrightarrow> \<exists>s. swap_in_place mapping buf reverse = Ok s"
  by (simp add: swap_in_place_def)

lemma scramble_total:
  assumes "mapping \<noteq> []"
  shows "\<exists>s. scramble_in_place mapping r buf = Ok s"
proof -
  let ?n = "length mapping" and ?p = "scram_pad (length mapping) r buf"
  have n: "0 < ?n" using assms by simp
  have "\<exists>bs. rmap (\<lambda>c. swap_in_place mapping c False) (chunks ?n ?p) = Ok bs"
    by (intro rmap_total swap_in_place_ok whole_chunks [OF n scram_pad_length(1) [OF n]])
  then show ?thesis using assms by (auto simp: scramble_in_place_def Let_def)
qed

lemma list_all2_swap_inverse:
  assumes "list_all2 (\<lambda>x y. swap_in_place mapping x False = Ok y) cs bs"
  shows "list_all2 (\<lambda>x y. swap_in_place mapping x True = Ok y) bs cs"
    and "\<forall>b\<in>set bs. length b = length mapping"
  using assms by (induction rule: list_all2_induct) (simp_all add: swap_in_place_inverse)

lemma scramble_round_trip_aux:
  assumes "mapping \<noteq> []"
  shows "\<exists>s. scramble_in_place mapping r buf = Ok s \<and> s \<noteq> [] \<and> length s mod length mapping = 0 \<and>
           (\<exists>d. descramble_in_place mapping s = Ok d \<and> take (length buf) d = buf)"
proof -
  let ?n = "length mapping" and ?p = "scram_pad (length mapping) r buf"
  have n: "0 < ?n" using assms by simp
  obtain s where s: "scramble_in_place mapping r buf = Ok s"
    using scramble_total [OF assms] by blast
  then obtain bs where bs: "rmap (\<lambda>c. swap_in_place mapping c False) (chunks ?n ?p) = Ok bs"
    and s_eq: "s = concat bs"
    using assms by (auto simp: scramble_in_place_def Let_def)
  note fwd = bs [unfolded rmap_Ok_iff]
  have blocks: "chunks ?n s = bs"
    using chunks_concat [OF n list_all2_swap_inverse(2) [OF fwd]] s_eq by simp
  have undo: "rmap (\<lambda>c. swap_in_place mapping c True) (chunks ?n s) = Ok (chunks ?n ?p)"
    unfolding blocks rmap_Ok_iff by (rule list_all2_swap_inverse(1) [OF fwd])
  have "length s = length bs * ?n"
    using length_concat_blocks [OF list_all2_swap_inverse(2) [OF fwd]] s_eq by simp
  then have whole: "length s mod ?n = 0" by simp
  have "bs \<noteq> []"
    using fwd n scram_pad_length(2) [OF n, of r buf]
    by (auto simp: chunks_step)
  then have "s \<noteq> []"
    using list_all2_swap_inverse(2) [OF fwd] n s_eq by (cases bs) auto
  moreover have "descramble_in_place mapping s = Ok ?p"
    using undo whole n by (simp add: descramble_in_place_def Let_def)
  ultimately show ?thesis
    using s whole scram_pad_length(3) [OF n, of buf r] by (intro exI [of _ s] conjI exI [of _ ?p]) simp_all
qed

lemma descramble_total:
  assumes "mapping \<noteq> []" and "length buf mod length mapping = 0"
  shows "\<exists>d. descramble_in_place mapping buf = Ok d"
proof -
  have n: "0 < length mapping" using assms(1) by simp
  have "\<exists>bs. rmap (\<lambda>c. swap_in_place mapping c True) (chunks (length mapping) buf) = Ok bs"
    by (intro rmap_total swap_in_place_ok whole_chunks [OF n assms(2)])
  then show ?thesis using assms n by (auto simp: descramble_in_place_def Let_def)
qed

lemma swapped_blocks_length:
  assumes n: "0 < length mapping" and whole: "length buf mod length mapping = 0"
    and bs: "rmap (\<lambda>c. swap_in_place mapping c reverse) (chunks (length mapping) buf) = Ok bs"
  shows "length (concat bs) = length buf"
proof -
  let ?n = "length mapping"
  note walk = bs [unfolded rmap_Ok_iff]
  have "\<forall>b\<in>set bs. length b = ?n"
    using walk by (induction rule: list_all2_induct) (auto simp: swap_in_place_def split: if_splits)
  then have "length (concat bs) = length bs * ?n" by (rule length_concat_blocks)
  also have "length bs = length (chunks ?n buf)" using walk by (simp add: list_all2_lengthD)
  also have "length (chunks ?n buf) * ?n = length (concat (chunks ?n buf))"
    using whole_chunks [OF n whole] by (intro length_concat_blocks [symmetric]) blast
  finally show ?thesis using n by simp
qed

lemma descramble_length: "descramble_in_place mapping buf = Ok d \<Longrightarrow> length d = length buf"
  by (auto simp: descramble_in_place_def Let_def swapped_blocks_length split: if_splits)

lemma scramble_length:
  assumes "scramble_in_place mapping r buf = Ok s"
  shows "length s = length (scram_pad (length mapping) r buf)"
proof -
  have "0 < length mapping"
    using assms by (auto simp: scramble_in_place_def Let_def split: if_splits)
  with assms show ?thesis
    by (auto simp: scramble_in_place_def Let_def swapped_blocks_length scram_pad_length(1)
        split: if_splits)
qed

text \<open>
  C21: Scrambling a buffer always succeeds on a non-empty dictionary and yields whole blocks;
  descrambling them and truncating to the original length gives the buffer back, whatever the
  dictionary and the padding bytes.
\<close>

theorem scramble_round_trip:
  assumes "mapping \<noteq> []"
  shows "\<exists>s. scramble_in_place mapping r buf = Ok s \<and> s \<noteq> [] \<and> length s mod length mapping = 0 \<and>
           (\<exists>d. descramble_in_place mapping s = Ok d \<and> take (length buf) d = buf)"
  using assms by (rule scramble_round_trip_aux)

theorem scramble_round_trip_witness:
  "[1, 2 :: u8] \<noteq> [] \<and>
   (\<exists>s. scramble_in_place [1, 2] (\<lambda>_. 9) [250, 255, 3] = Ok s \<and> s \<noteq> [] \<and> length s mod length [1, 2 :: u8] = 0 \<and>
      (\<exists>d. descramble_in_place [1, 2] s = Ok d \<and> take (length [250, 255, 3 :: u8]) d = [250, 255, 3]))"
proof -
  have h: "[1, 2 :: u8] \<noteq> []" by simp
  show ?thesis using h scramble_round_trip [OF h, of "\<lambda>_. 9" "[250, 255, 3]"] by (rule conjI)
qed

end
