(* ===== verification/Aead.thy ===== *)
theory Aead
  imports Scram_Crypt
begin

text \<open>
  The authenticated encryption layer of \<open>citadel_pqcrypto/src/encryption.rs\<close>: the trait
  \<open>AeadModule\<close> as a record of its two operations, the AES and ChaCha implementations (wrappers over
  third-party ciphers), and the Kyber module, which signs, encrypts, scrambles and checksums.
  The third-party primitives are the fields of \<open>crypto_lib\<close>, an argument of every definition that
  calls them. What the proofs rely on is stated by the predicates of the section on assumptions.
\<close>

section \<open>Third-party primitives\<close>

record crypto_lib =
  lib_aes_encrypt :: "bytes \<Rightarrow> bytes \<Rightarrow> bytes \<Rightarrow> bytes \<Rightarrow> bytes option"
  lib_aes_decrypt :: "bytes \<Rightarrow> bytes \<Rightarrow> bytes \<Rightarrow> bytes \<Rightarrow> bytes option"
  lib_chacha_encrypt :: "bytes \<Rightarrow> bytes \<Rightarrow> bytes \<Rightarrow> bytes \<Rightarrow> bytes option"
  lib_chacha_decrypt :: "bytes \<Rightarrow> bytes \<Rightarrow> bytes \<Rightarrow> bytes \<Rightarrow> bytes option"
  lib_sig_new :: bool
  lib_sig_secret_key_from_bytes :: "bytes \<Rightarrow> bytes option"
  lib_sig_public_key_from_bytes :: "bytes \<Rightarrow> bytes option"
  lib_sig_signature_from_bytes :: "bytes \<Rightarrow> bytes option"
  lib_sign :: "rnd \<Rightarrow> bytes \<Rightarrow> bytes \<Rightarrow> bytes option"
  lib_verify :: "bytes \<Rightarrow> bytes \<Rightarrow> bytes \<Rightarrow> bool"
  lib_sig_keypair :: "rnd \<Rightarrow> (bytes \<times> bytes) option"
  lib_kem_keypair :: "rnd \<Rightarrow> bytes \<times> bytes"
  lib_encapsulate :: "rnd \<Rightarrow> bytes \<Rightarrow> (bytes \<times> bytes) option"
  lib_decapsulate :: "bytes \<Rightarrow> bytes \<Rightarrow> bytes option"
  lib_pke_encrypt :: "bytes \<Rightarrow> bytes \<Rightarrow> bytes \<Rightarrow> bytes option"
  lib_pke_decrypt :: "bytes \<Rightarrow> bytes \<Rightarrow> bytes option"
  lib_sha3_256 :: "bytes \<Rightarrow> bytes"
  lib_sha3_512 :: "bytes \<Rightarrow> bytes"
  lib_serialize_dict :: "bytes \<Rightarrow> bytes"
  lib_deserialize_dict :: "bytes \<Rightarrow> bytes option"

section \<open>The trait and its symmetric implementations\<close>

text \<open>
  A decryption works on a vector or on a window of a packet (\<open>InPlaceBuffer\<close>). Truncating a vector
  past its end does nothing; the window of an \<open>InPlaceBuffer\<close> then ends past the data, and the next
  access of the buffer panics. The next access is the AES decryption, which looks at the length
  first and gives an error, without access, for less than the 16 bytes of its tag.
\<close>

datatype buffer_kind = VecBuffer | InPlaceBuffer

definition buf_truncate :: "buffer_kind \<Rightarrow> nat \<Rightarrow> bytes \<Rightarrow> (bytes, pq_error) result" where
  "buf_truncate kind n buf =
     (if kind = InPlaceBuffer \<and> length buf < n \<and> 16 \<le> length buf then Panic
      else Ok (take n buf))"

record aead_module =
  encrypt_in_place :: "rnd \<Rightarrow> bytes \<Rightarrow> bytes \<Rightarrow> bytes \<Rightarrow> (bytes, pq_error) result"
  decrypt_in_place :: "buffer_kind \<Rightarrow> bytes \<Rightarrow> bytes \<Rightarrow> bytes \<Rightarrow> (bytes, pq_error) result"

definition aead_encrypt :: "aead_module \<Rightarrow> rnd \<Rightarrow> bytes \<Rightarrow> bytes \<Rightarrow> (bytes, pq_error) result" where
  "aead_encrypt m r nonce input = encrypt_in_place m r nonce [] input"

definition aead_decrypt :: "aead_module \<Rightarrow> bytes \<Rightarrow> bytes \<Rightarrow> (bytes, pq_error) result" where
  "aead_decrypt m nonce input = decrypt_in_place m VecBuffer nonce [] input"

definition aes_module :: "crypto_lib \<Rightarrow> bytes \<Rightarrow> aead_module" where
  "aes_module lib key =
     \<lparr>encrypt_in_place = (\<lambda>r nonce ad input.
        if length nonce \<noteq> AES_GCM_NONCE_LENGTH_BYTES then Panic
        else ok_or EncryptionFailure (lib_aes_encrypt lib key nonce ad input)),
      decrypt_in_place = (\<lambda>kind nonce ad input.
        if length nonce \<noteq> AES_GCM_NONCE_LENGTH_BYTES then Panic
        else ok_or EncryptionFailure (lib_aes_decrypt lib key nonce ad input))\<rparr>"

definition chacha_module :: "crypto_lib \<Rightarrow> bytes \<Rightarrow> aead_module" where
  "chacha_module lib key =
     \<lparr>encrypt_in_place = (\<lambda>r nonce ad input.
        if length nonce \<noteq> CHA_CHA_NONCE_LENGTH_BYTES then Panic
        else ok_or EncryptionFailure (lib_chacha_encrypt lib key nonce ad input)),
      decrypt_in_place = (\<lambda>kind nonce ad input.
        if length nonce \<noteq> CHA_CHA_NONCE_LENGTH_BYTES then Panic
        else ok_or EncryptionFailure (lib_chacha_decrypt lib key nonce ad input))\<rparr>"

section \<open>Signatures, hashes and length fields\<close>

definition get_sig :: "crypto_lib \<Rightarrow> (unit, pq_error) result" where
  "get_sig lib = (if lib_sig_new lib then Ok () else Err (Other ''oqs''))"

definition signature_sign :: "crypto_lib \<Rightarrow> rnd \<Rightarrow> bytes \<Rightarrow> bytes \<Rightarrow> (bytes, pq_error) result" where
  "signature_sign lib r message secret_key =
     rbind (get_sig lib) (\<lambda>_.
     rbind (ok_or (Generic ''Bad secret key length'') (lib_sig_secret_key_from_bytes lib secret_key))
       (\<lambda>sk. ok_or (Other ''oqs'') (lib_sign lib r message sk)))"

definition signature_verify ::
    "crypto_lib \<Rightarrow> bytes \<Rightarrow> bytes \<Rightarrow> bytes \<Rightarrow> (unit, pq_error) result" where
  "signature_verify lib message signature public_key =
     rbind (get_sig lib) (\<lambda>_.
     rbind (ok_or (Generic ''Bad signature length'') (lib_sig_signature_from_bytes lib signature))
       (\<lambda>sig.
     rbind (ok_or (Generic ''Bad public key length'') (lib_sig_public_key_from_bytes lib public_key))
       (\<lambda>pk. if lib_verify lib message sig pk then Ok () else Err (Other ''oqs''))))"

definition signature_keypair :: "crypto_lib \<Rightarrow> rnd \<Rightarrow> (bytes \<times> bytes, pq_error) result" where
  "signature_keypair lib r =
     rbind (get_sig lib) (\<lambda>_. ok_or (Other ''oqs'') (lib_sig_keypair lib r))"

definition sha3_256_with_ad :: "crypto_lib \<Rightarrow> bytes \<Rightarrow> bytes \<Rightarrow> bytes" where
  "sha3_256_with_ad lib ad input = lib_sha3_256 lib (if ad = [] then input else ad @ input)"

definition sha3_256 :: "crypto_lib \<Rightarrow> bytes \<Rightarrow> bytes" where
  "sha3_256 lib input = sha3_256_with_ad lib [] input"

definition encode_length_be_bytes :: "nat \<Rightarrow> bytes \<Rightarrow> bytes" where
  "encode_length_be_bytes len buf = buf @ u64_to_be (word_of_nat len)"

definition decode_length :: "bytes \<Rightarrow> (nat \<times> bytes, pq_error) result" where
  "decode_length input =
     (let total_len = length input;
          starting_pos = total_len - 8;
          len_be_bytes = drop starting_pos input
      in if length len_be_bytes \<noteq> 8 then Err (Generic ''Bad sig_size_bytes length'')
         else
           let object_len = unat (u64_of_be len_be_bytes)
           in if object_len > total_len then Err (Other ''Decoded length'')
              else Ok (object_len, take starting_pos input))"

lemma decode_encode_length:
  assumes "len \<le> length buf + 8" and "len < 2 ^ 64"
  shows "decode_length (encode_length_be_bytes len buf) = Ok (len, buf)"
proof -
  have "unat (word_of_nat len :: u64) = len"
    using assms(2) by (simp add: unat_of_nat)
  with assms(1) show ?thesis
    by (simp add: decode_length_def encode_length_be_bytes_def Let_def)
qed

section \<open>The Kyber module\<close>

record kex =
  kx_remote_public_key :: "bytes option"
  kx_public_key :: bytes
  kx_secret_key :: "bytes option"
  kx_ciphertext :: "bytes option"
  kx_shared_secret :: "bytes option"
  kx_kem_alg :: kem_algorithm

record sigs =
  sig_public_key :: bytes
  sig_private_key :: bytes
  remote_sig_public_key :: "bytes option"
  sig_alg :: sig_algorithm

record kyber =
  ky_kem_alg :: kem_algorithm
  ky_sig_alg :: sig_algorithm
  ky_kex :: kex
  ky_sig :: sigs
  symmetric_key_local :: aead_module
  symmetric_key_remote :: aead_module

definition encrypt_pke ::
    "crypto_lib \<Rightarrow> kem_algorithm \<Rightarrow> bytes \<Rightarrow> bytes \<Rightarrow> bytes \<Rightarrow> (bytes, pq_error) result" where
  "encrypt_pke lib kem local_pk plaintext nonce =
     ok_or EncryptionFailure (lib_pke_encrypt lib local_pk plaintext nonce)"

definition decrypt_pke ::
    "crypto_lib \<Rightarrow> kem_algorithm \<Rightarrow> bytes \<Rightarrow> bytes \<Rightarrow> (bytes, pq_error) result" where
  "decrypt_pke lib kem local_sk ciphertext =
     ok_or (Other ''pke'') (lib_pke_decrypt lib local_sk ciphertext)"

definition kyber_encrypt_in_place ::
    "crypto_lib \<Rightarrow> kyber \<Rightarrow> rnd \<Rightarrow> bytes \<Rightarrow> bytes \<Rightarrow> bytes \<Rightarrow> (bytes, pq_error) result" where
  "kyber_encrypt_in_place lib self r nonce ad input =
     (if length nonce < AES_GCM_NONCE_LENGTH_BYTES then Panic
      else
        let aes_nonce = take AES_GCM_NONCE_LENGTH_BYTES nonce in
        rbind (signature_sign lib r (sha3_256_with_ad lib ad input) (sig_private_key (ky_sig self)))
          (\<lambda>signature.
        let input1 = encode_length_be_bytes (length signature) (input @ signature) in
        rbind (encrypt_in_place (symmetric_key_local self) (advance r 64) aes_nonce ad input1)
          (\<lambda>input2.
        let pre_scramble_len = length input2 in
        rbind (scram_new 32 (advance r 128)) (\<lambda>scram_crypt_dict.
        rbind (scramble_in_place scram_crypt_dict (advance r 160) input2) (\<lambda>input3.
        let input4 = encode_length_be_bytes pre_scramble_len input3 in
        rbind (unwrap (kx_remote_public_key (ky_kex self))) (\<lambda>remote_pk.
        rbind (encrypt_pke lib (ky_kem_alg self) remote_pk (lib_serialize_dict lib scram_crypt_dict) nonce)
          (\<lambda>encrypted_scramble_dict.
        let input5 = encode_length_be_bytes (length encrypted_scramble_dict)
                       (input4 @ encrypted_scramble_dict);
            sha = sha3_256 lib input5
        in Ok (input5 @ sha))))))))"

definition kyber_decrypt_in_place ::
    "crypto_lib \<Rightarrow> kyber \<Rightarrow> buffer_kind \<Rightarrow> bytes \<Rightarrow> bytes \<Rightarrow> bytes \<Rightarrow> (bytes, pq_error) result" where
  "kyber_decrypt_in_place lib self kind nonce ad input0 =
     rbind (unwrap (kx_secret_key (ky_kex self))) (\<lambda>local_sk.
     rbind (unwrap (remote_sig_public_key (ky_sig self))) (\<lambda>sig_remote_pk.
     let n = length input0 - 32; ct = take n input0; sha_required = drop n input0 in
     if sha3_256 lib ct \<noteq> sha_required then Err (Other ''Invalid ciphertext checksum'')
     else
       rbind (decode_length ct) (\<lambda>(encrypted_scramble_dict_len, input1).
       let split_pt = length input1 - encrypted_scramble_dict_len;
           encrypted_scramble_dict = drop split_pt input1 in
       rbind (decrypt_pke lib (ky_kem_alg self) local_sk encrypted_scramble_dict) (\<lambda>decrypted_scramble_dict.
       rbind (ok_or (Other ''bincode'') (lib_deserialize_dict lib decrypted_scramble_dict))
         (\<lambda>scram_crypt_dict.
       rbind (decode_length (take split_pt input1)) (\<lambda>(pre_scramble_length, input2).
       rbind (descramble_in_place scram_crypt_dict input2) (\<lambda>input3.
       rbind (buf_truncate kind pre_scramble_length input3) (\<lambda>input4.
       if length nonce < AES_GCM_NONCE_LENGTH_BYTES then Panic
       else
         rbind (decrypt_in_place (symmetric_key_remote self) kind
                  (take AES_GCM_NONCE_LENGTH_BYTES nonce) ad input4) (\<lambda>input5.
         rbind (decode_length input5) (\<lambda>(signature_len, input6).
         let split_pt' = length input6 - signature_len;
             signature_bytes = drop split_pt' input6;
             sig_verify_input = sha3_256_with_ad lib ad (take split_pt' input6) in
         rbind (signature_verify lib sig_verify_input signature_bytes sig_remote_pk) (\<lambda>_.
         Ok (take split_pt' input6))))))))))))"

definition kyber_module :: "crypto_lib \<Rightarrow> kyber \<Rightarrow> aead_module" where
  "kyber_module lib self =
     \<lparr>encrypt_in_place = kyber_encrypt_in_place lib self,
      decrypt_in_place = kyber_decrypt_in_place lib self\<rparr>"

section \<open>What the primitives are assumed to do\<close>

text \<open>
  \<open>b\<close> opens what \<open>a\<close> sealed, with the same nonce and associated data. The bound on the ciphertext is
  the range of the 64-bit length fields.
\<close>

definition aead_pair :: "aead_module \<Rightarrow> aead_module \<Rightarrow> bool" where
  "aead_pair a b \<longleftrightarrow>
     (\<forall>r kind nonce ad input c. encrypt_in_place a r nonce ad input = Ok c \<longrightarrow> length c < 2 ^ 64 \<longrightarrow>
        decrypt_in_place b kind nonce ad c = Ok input)"

definition sound_ciphers :: "crypto_lib \<Rightarrow> bool" where
  "sound_ciphers lib \<longleftrightarrow>
     (\<forall>key nonce ad input c. lib_aes_encrypt lib key nonce ad input = Some c \<longrightarrow>
        lib_aes_decrypt lib key nonce ad c = Some input \<and> length input \<le> length c) \<and>
     (\<forall>key nonce ad input c. lib_chacha_encrypt lib key nonce ad input = Some c \<longrightarrow>
        lib_chacha_decrypt lib key nonce ad c = Some input \<and> length input \<le> length c)"

definition sound_hash :: "crypto_lib \<Rightarrow> bool" where
  "sound_hash lib \<longleftrightarrow> (\<forall>x. length (lib_sha3_256 lib x) = 32) \<and> (\<forall>x. length (lib_sha3_512 lib x) = 64)"

definition sound_dict_codec :: "crypto_lib \<Rightarrow> bool" where
  "sound_dict_codec lib \<longleftrightarrow> (\<forall>d. lib_deserialize_dict lib (lib_serialize_dict lib d) = Some d)"

definition signing_pair :: "crypto_lib \<Rightarrow> bytes \<Rightarrow> bytes \<Rightarrow> bool" where
  "signing_pair lib sk pk \<longleftrightarrow>
     (\<forall>r msg sig. signature_sign lib r msg sk = Ok sig \<longrightarrow> signature_verify lib msg sig pk = Ok ())"

definition pke_pair :: "crypto_lib \<Rightarrow> bytes \<Rightarrow> bytes \<Rightarrow> bool" where
  "pke_pair lib pk sk \<longleftrightarrow>
     (\<forall>x nonce c. lib_pke_encrypt lib pk x nonce = Some c \<longrightarrow> lib_pke_decrypt lib sk c = Some x)"

lemma aead_pair_aes: "sound_ciphers lib \<Longrightarrow> aead_pair (aes_module lib key) (aes_module lib key)"
  by (auto simp: aead_pair_def aes_module_def sound_ciphers_def split: if_splits)

lemma aead_pair_chacha: "sound_ciphers lib \<Longrightarrow> aead_pair (chacha_module lib key) (chacha_module lib key)"
  by (auto simp: aead_pair_def chacha_module_def sound_ciphers_def split: if_splits)

section \<open>The Kyber module opens what its peer sealed\<close>

text \<open>How the keys of the two ends fit together.\<close>

definition kyber_peers :: "crypto_lib \<Rightarrow> kyber \<Rightarrow> kyber \<Rightarrow> bool" where
  "kyber_peers lib a b \<longleftrightarrow>
     aead_pair (symmetric_key_local a) (symmetric_key_remote b) \<and>
     (\<exists>pk sk spk. kx_remote_public_key (ky_kex a) = Some pk \<and> kx_secret_key (ky_kex b) = Some sk \<and>
        remote_sig_public_key (ky_sig b) = Some spk \<and> pke_pair lib pk sk \<and>
        signing_pair lib (sig_private_key (ky_sig a)) spk)"

text \<open>The layers a sealed packet is made of, from the inside out.\<close>

lemma kyber_encrypt_layers:
  assumes "kyber_encrypt_in_place lib a r nonce ad input = Ok c"
  obtains signature sealed dict scrambled pk edict where
    "signature_sign lib r (sha3_256_with_ad lib ad input) (sig_private_key (ky_sig a)) = Ok signature"
    "encrypt_in_place (symmetric_key_local a) (advance r 64) (take AES_GCM_NONCE_LENGTH_BYTES nonce)
       ad (encode_length_be_bytes (length signature) (input @ signature)) = Ok sealed"
    "dict = random_bytes (advance r 128) 32"
    "scramble_in_place dict (advance r 160) sealed = Ok scrambled"
    "kx_remote_public_key (ky_kex a) = Some pk"
    "lib_pke_encrypt lib pk (lib_serialize_dict lib dict) nonce = Some edict"
    "c = encode_length_be_bytes (length edict)
           (encode_length_be_bytes (length sealed) scrambled @ edict) @
         sha3_256 lib (encode_length_be_bytes (length edict)
           (encode_length_be_bytes (length sealed) scrambled @ edict))"
    "\<not> length nonce < AES_GCM_NONCE_LENGTH_BYTES"
proof -
  have unwrap_Ok: "unwrap m = Ok y \<longleftrightarrow> m = Some y" for m :: "bytes option" and y
    by (cases m) auto
  show thesis
    using assms that
    by (auto simp: kyber_encrypt_in_place_def Let_def scram_new_def
        encrypt_pke_def unwrap_Ok split: if_splits)
qed

lemma length_encode [simp]: "length (encode_length_be_bytes n buf) = length buf + 8"
  by (simp add: encode_length_be_bytes_def)

lemma scramble_grows:
  assumes "mapping \<noteq> []" and "scramble_in_place mapping r buf = Ok s"
  shows "length buf \<le> length s"
    and "\<exists>d. descramble_in_place mapping s = Ok d \<and> take (length buf) d = buf \<and> length buf \<le> length d"
proof -
  obtain d where d: "descramble_in_place mapping s = Ok d" "take (length buf) d = buf"
    and whole: "length s mod length mapping = 0"
    using scramble_round_trip_aux [OF assms(1), of r buf] assms(2) by auto
  have len: "length buf \<le> length d" using d(2) by (metis length_take min.cobounded1)
  moreover have "length d = length s"
    using d(1) whole assms(1) descramble_length by blast
  ultimately show "length buf \<le> length s" by simp
  show "\<exists>d. descramble_in_place mapping s = Ok d \<and> take (length buf) d = buf \<and> length buf \<le> length d"
    using d len by blast
qed

lemma kyber_decrypt_sealed:
  assumes peers: "kyber_peers lib a b" and hash: "sound_hash lib" and dict: "sound_dict_codec lib"
    and enc: "kyber_encrypt_in_place lib a r nonce ad input = Ok c" and small: "length c < 2 ^ 64"
    and grows: "\<And>r nonce ad x y. encrypt_in_place (symmetric_key_local a) r nonce ad x = Ok y \<Longrightarrow>
                  length x \<le> length y"
  shows "kyber_decrypt_in_place lib b kind nonce ad c = Ok input"
proof -
  from enc obtain signature sealed dct scrambled pk edict where
    layers: "signature_sign lib r (sha3_256_with_ad lib ad input) (sig_private_key (ky_sig a)) = Ok signature"
    "encrypt_in_place (symmetric_key_local a) (advance r 64) (take AES_GCM_NONCE_LENGTH_BYTES nonce)
       ad (encode_length_be_bytes (length signature) (input @ signature)) = Ok sealed"
    "dct = random_bytes (advance r 128) 32"
    "scramble_in_place dct (advance r 160) sealed = Ok scrambled"
    "kx_remote_public_key (ky_kex a) = Some pk"
    "lib_pke_encrypt lib pk (lib_serialize_dict lib dct) nonce = Some edict"
    "c = encode_length_be_bytes (length edict)
           (encode_length_be_bytes (length sealed) scrambled @ edict) @
         sha3_256 lib (encode_length_be_bytes (length edict)
           (encode_length_be_bytes (length sealed) scrambled @ edict))"
    "\<not> length nonce < AES_GCM_NONCE_LENGTH_BYTES"
    by (rule kyber_encrypt_layers)
  from peers layers(5) obtain sk spk where keys: "kx_secret_key (ky_kex b) = Some sk"
    "remote_sig_public_key (ky_sig b) = Some spk" "pke_pair lib pk sk"
    "signing_pair lib (sig_private_key (ky_sig a)) spk"
    and pair: "aead_pair (symmetric_key_local a) (symmetric_key_remote b)"
    by (auto simp: kyber_peers_def)
  have dne: "dct \<noteq> []" by (simp add: layers(3) random_bytes_def)
  obtain d where d: "descramble_in_place dct scrambled = Ok d" "take (length sealed) d = sealed"
    "length sealed \<le> length d"
    using scramble_grows(2) [OF dne layers(4)] by blast
  have sizes: "length sealed \<le> length scrambled" "length c = length scrambled + length edict + 48"
    "length signature + 8 \<le> length sealed"
    using scramble_grows(1) [OF dne layers(4)] hash grows [OF layers(2)]
    by (simp_all add: layers(7) sound_hash_def sha3_256_def sha3_256_with_ad_def)
  have sha: "length (sha3_256 lib x) = 32" for x
    using hash by (simp add: sound_hash_def sha3_256_def sha3_256_with_ad_def)
  have open_sealed: "decrypt_in_place (symmetric_key_remote b) kind
      (take AES_GCM_NONCE_LENGTH_BYTES nonce) ad sealed =
      Ok (encode_length_be_bytes (length signature) (input @ signature))"
    using pair layers(2) sizes small by (auto simp: aead_pair_def)
  have "signature_verify lib (sha3_256_with_ad lib ad input) signature spk = Ok ()"
    using keys(4) layers(1) by (auto simp: signing_pair_def)
  moreover have "lib_pke_decrypt lib sk edict = Some (lib_serialize_dict lib dct)"
    using keys(3) layers(6) by (auto simp: pke_pair_def)
  ultimately show ?thesis
    using keys(1,2) dict d sizes small layers(8)
    by (simp add: kyber_decrypt_in_place_def Let_def layers(7) sha decode_encode_length
        decrypt_pke_def sound_dict_codec_def buf_truncate_def open_sealed)
qed

lemma aead_pair_kyber:
  assumes "kyber_peers lib a b" and "sound_hash lib" and "sound_dict_codec lib"
    and ciphers: "sound_ciphers lib" and key: "symmetric_key_local a = aes_module lib key"
  shows "aead_pair (kyber_module lib a) (kyber_module lib b)"
proof -
  have grows: "length x \<le> length y"
    if "encrypt_in_place (symmetric_key_local a) r nonce ad x = Ok y" for r nonce ad x y
    using that ciphers by (auto simp: key aes_module_def sound_ciphers_def split: if_splits)
  show ?thesis
    using kyber_decrypt_sealed [OF assms(1-3) _ _ grows]
    by (auto simp: aead_pair_def kyber_module_def)
qed

section \<open>A concrete library\<close>

text \<open>
  A library of primitives that behaves as documented, for the witnesses: the ciphers append a fixed
  tag, the hashes cut or pad their input, the KEM sends the secret in the ciphertext.
\<close>

definition demo_lib :: crypto_lib where
  "demo_lib =
     \<lparr>lib_aes_encrypt = (\<lambda>key nonce ad x. Some (x @ replicate 16 0)),
      lib_aes_decrypt = (\<lambda>key nonce ad c. Some (take (length c - 16) c)),
      lib_chacha_encrypt = (\<lambda>key nonce ad x. Some (x @ replicate 16 0)),
      lib_chacha_decrypt = (\<lambda>key nonce ad c. Some (take (length c - 16) c)),
      lib_sig_new = True,
      lib_sig_secret_key_from_bytes = Some,
      lib_sig_public_key_from_bytes = Some,
      lib_sig_signature_from_bytes = Some,
      lib_sign = (\<lambda>r msg sk. Some [7]),
      lib_verify = (\<lambda>msg sig pk. sig = [7]),
      lib_sig_keypair = (\<lambda>r. Some ([r 0], [r 0])),
      lib_kem_keypair = (\<lambda>r. ([r 0], [r 0])),
      lib_encapsulate = (\<lambda>r pk. Some (replicate 32 (r 0), replicate 32 (r 0))),
      lib_decapsulate = (\<lambda>ct sk. Some ct),
      lib_pke_encrypt = (\<lambda>pk x nonce. Some x),
      lib_pke_decrypt = (\<lambda>sk c. Some c),
      lib_sha3_256 = (\<lambda>x. take 32 (x @ replicate 32 0)),
      lib_sha3_512 = (\<lambda>x. take 64 (x @ replicate 64 0)),
      lib_serialize_dict = (\<lambda>d. d),
      lib_deserialize_dict = (\<lambda>b. Some b)\<rparr>"

definition demo_kyber :: kyber where
  "demo_kyber =
     \<lparr>ky_kem_alg = KemKyber, ky_sig_alg = Falcon1024,
      ky_kex = \<lparr>kx_remote_public_key = Some [1], kx_public_key = [1], kx_secret_key = Some [1],
        kx_ciphertext = None, kx_shared_secret = None, kx_kem_alg = KemKyber\<rparr>,
      ky_sig = \<lparr>sig_public_key = [2], sig_private_key = [2], remote_sig_public_key = Some [2],
        sig_alg = Falcon1024\<rparr>,
      symmetric_key_local = aes_module demo_lib [3], symmetric_key_remote = aes_module demo_lib [3]\<rparr>"

definition demo_sealed :: bytes where
  "demo_sealed =
     (case kyber_encrypt_in_place demo_lib demo_kyber (\<lambda>_. 1) (replicate 12 0) [9] [5] of
        Ok c \<Rightarrow> c | _ \<Rightarrow> [])"

definition demo_forged :: bytes where
  "demo_forged = encode_length_be_bytes 32 (encode_length_be_bytes 40 (replicate 32 0) @ replicate 32 0)"

lemma demo_lib_sound:
  "sound_ciphers demo_lib" "sound_hash demo_lib" "sound_dict_codec demo_lib"
  "signing_pair demo_lib sk pk" "pke_pair demo_lib pk sk"
  by (simp_all add: demo_lib_def sound_ciphers_def sound_hash_def sound_dict_codec_def
      signing_pair_def pke_pair_def min_def signature_sign_def signature_verify_def get_sig_def)

lemma demo_kyber_peers: "kyber_peers demo_lib demo_kyber demo_kyber"
  using demo_lib_sound aead_pair_aes [of demo_lib "[3]"]
  by (simp add: kyber_peers_def demo_kyber_def)

lemma demo_kyber_key: "symmetric_key_local demo_kyber = aes_module demo_lib [3]"
  by (simp add: demo_kyber_def)

lemma demo_sealed_ok:
  "kyber_encrypt_in_place demo_lib demo_kyber (\<lambda>_. 1) (replicate 12 0) [9] [5] = Ok demo_sealed"
  "length demo_sealed < 2 ^ 64"
proof -
  let ?x = "encode_length_be_bytes 1 [5, 7] @ replicate 16 0"
  have "\<exists>s. scramble_in_place (replicate 32 1) (advance (\<lambda>_. 1) 160) ?x = Ok s"
    by (rule scramble_total) simp
  then obtain s where s: "scramble_in_place (replicate 32 1) (advance (\<lambda>_. 1) 160) ?x = Ok s" ..
  have len: "length s = 32"
    by (simp add: scramble_length [OF s] scram_pad_def)
  have dict: "random_bytes (advance (\<lambda>_. 1) 128) 32 = replicate 32 1"
    by (simp add: random_bytes_def advance_def map_replicate_const)
  have run: "\<exists>c. kyber_encrypt_in_place demo_lib demo_kyber (\<lambda>_. 1) (replicate 12 0) [9] [5] = Ok c
      \<and> length c < 2 ^ 64"
    using s len
    by (simp add: kyber_encrypt_in_place_def Let_def signature_sign_def get_sig_def aes_module_def
        encrypt_pke_def scram_new_def demo_kyber_def dict demo_lib_def nonce_len_defs
        sha3_256_def sha3_256_with_ad_def)
  then show "kyber_encrypt_in_place demo_lib demo_kyber (\<lambda>_. 1) (replicate 12 0) [9] [5] = Ok demo_sealed"
    and "length demo_sealed < 2 ^ 64"
    by (auto simp: demo_sealed_def)
qed

section \<open>Properties\<close>

text \<open>
  C15: The Kyber module opens every packet its peer sealed: under the documented behaviour of the
  primitives and with matching keys, decrypting a sealed packet with the same nonce and header gives
  the input back, on vectors and on packet windows alike.
\<close>

theorem kyber_open_sealed:
  assumes "sound_ciphers lib" and "sound_hash lib" and "sound_dict_codec lib"
    and "kyber_peers lib a b" and "symmetric_key_local a = aes_module lib key"
    and "kyber_encrypt_in_place lib a r nonce ad input = Ok c" and "length c < 2 ^ 64"
  shows "kyber_decrypt_in_place lib b kind nonce ad c = Ok input"
  using aead_pair_kyber [OF assms(4,2,3,1,5)] assms(6,7)
  by (auto simp: aead_pair_def kyber_module_def)

theorem kyber_open_sealed_witness:
  "sound_ciphers demo_lib \<and> sound_hash demo_lib \<and> sound_dict_codec demo_lib \<and>
   kyber_peers demo_lib demo_kyber demo_kyber \<and>
   kyber_encrypt_in_place demo_lib demo_kyber (\<lambda>_. 1) (replicate 12 0) [9] [5] = Ok demo_sealed \<and>
   length demo_sealed < 2 ^ 64 \<and>
   kyber_decrypt_in_place demo_lib demo_kyber InPlaceBuffer (replicate 12 0) [9] demo_sealed = Ok [5]"
  by (intro conjI demo_lib_sound demo_kyber_peers demo_sealed_ok
      kyber_open_sealed [OF demo_lib_sound(1-3) demo_kyber_peers demo_kyber_key demo_sealed_ok])

text \<open>
  C16: A packet made with the receiver's public key alone, whose length field claims up to eight bytes
  more than the scrambled data, panics the receiver when it is validated in place: the check of
  \<open>decode_length\<close> compares with the length before the field itself is cut off, and the checksum and
  the public-key encryption in front of it authenticate nobody.
\<close>

theorem kyber_forged_length_panics:
  assumes "sound_hash lib" and "sound_dict_codec lib"
    and "kx_secret_key (ky_kex b) = Some sk" and "remote_sig_public_key (ky_sig b) = Some spk"
    and "pke_pair lib pk sk" and "lib_pke_encrypt lib pk (lib_serialize_dict lib dct) nonce = Some edict"
    and "length dct = 32" and "blocks \<noteq> []" and "length blocks mod 32 = 0" and "0 < k" and "k \<le> 8"
    and "length blocks + length edict + 8 < 2 ^ 64"
    and "c = encode_length_be_bytes (length edict)
               (encode_length_be_bytes (length blocks + k) blocks @ edict)"
  shows "kyber_decrypt_in_place lib b InPlaceBuffer nonce ad (c @ sha3_256 lib c) = Panic"
proof -
  have sha: "length (sha3_256 lib x) = 32" for x
    using assms(1) by (simp add: sound_hash_def sha3_256_def sha3_256_with_ad_def)
  have pke: "lib_pke_decrypt lib sk edict = Some (lib_serialize_dict lib dct)"
    using assms(5,6) by (auto simp: pke_pair_def)
  have "32 dvd length blocks" using assms(9) by auto
  moreover have "0 < length blocks" using assms(8) by simp
  ultimately have long: "32 \<le> length blocks" by (rule dvd_imp_le)
  obtain d where d: "descramble_in_place dct blocks = Ok d"
    using descramble_total assms(7,9) by (metis list.size(3) zero_neq_numeral)
  have dlen: "length d = length blocks" by (rule descramble_length [OF d])
  have l1: "decode_length c = Ok (length edict, encode_length_be_bytes (length blocks + k) blocks @ edict)"
    unfolding assms(13) using assms(12) by (intro decode_encode_length) auto
  have l2: "decode_length (encode_length_be_bytes (length blocks + k) blocks) = Ok (length blocks + k, blocks)"
    using assms(11,12) by (intro decode_encode_length) auto
  have t: "buf_truncate InPlaceBuffer (length blocks + k) d = Panic"
    using dlen long assms(10) by (simp add: buf_truncate_def)
  show ?thesis
    using assms(2,3,4) by (simp add: kyber_decrypt_in_place_def Let_def sha l1 l2 pke d t
        decrypt_pke_def sound_dict_codec_def)
qed

theorem kyber_forged_length_panics_witness:
  "kyber_decrypt_in_place demo_lib demo_kyber InPlaceBuffer (replicate 12 0) [9]
     (demo_forged @ sha3_256 demo_lib demo_forged) = Panic"
  by (rule kyber_forged_length_panics [OF demo_lib_sound(2,3) _ _ demo_lib_sound(5),
        where dct = "replicate 32 0" and blocks = "replicate 32 0" and edict = "replicate 32 0"
          and k = 8 and pk = "[1]" and sk = "[1]" and spk = "[2]"])
    (simp_all add: demo_kyber_def demo_lib_def demo_forged_def)

end
