(* ===== verification/Anti_Replay.thy ===== *)
theory Anti_Replay
  imports Prelude "HOL-Library.FSet"
begin

text \<open>
  The anti-replay container of \<open>citadel_pqcrypto/src/replay_attack_container.rs\<close>: the history of
  received packet identifiers (PIDs), the window that bounds it, and the outbound counter. The
  container sits behind a mutex and an atomic; each call is one atomic step on the record below.
\<close>

section \<open>The container\<close>

record anti_replay =
  queue_low :: u64
  queue_set :: "u64 fset"
  counter_out :: u64

definition HISTORY_LEN :: u64 where
  "HISTORY_LEN = 1024"

definition ara_default :: anti_replay where
  "ara_default = \<lparr>queue_low = 0, queue_set = {||}, counter_out = 0\<rparr>"

definition get_next_pid :: "anti_replay \<Rightarrow> u64 \<times> anti_replay" where
  "get_next_pid a = (counter_out a, a\<lparr>counter_out := counter_out a + 1\<rparr>)"

text \<open>The eviction inside \<open>on_pid_received\<close>: only at capacity, and only if the lowest PID is there.\<close>

definition evict_lowest :: "anti_replay \<Rightarrow> anti_replay" where
  "evict_lowest a =
     (if unat HISTORY_LEN \<le> fcard (queue_set a) \<and> queue_low a |\<in>| queue_set a
      then a\<lparr>queue_set := queue_set a |-| {|queue_low a|}, queue_low := queue_low a + 1\<rparr>
      else a)"

definition on_pid_received :: "anti_replay \<Rightarrow> u64 \<Rightarrow> bool \<times> anti_replay" where
  "on_pid_received a pid_received =
     (if pid_received |\<in>| queue_set a then (False, a)
      else
        let min = saturating_sub (queue_low a) HISTORY_LEN in
        if min \<le> pid_received then
          let a' = evict_lowest a
          in (True, a'\<lparr>queue_set := finsert pid_received (queue_set a')\<rparr>)
        else (False, a))"

definition has_tracked_packets :: "anti_replay \<Rightarrow> bool" where
  "has_tracked_packets a \<longleftrightarrow> counter_out a \<noteq> 0 \<or> queue_low a \<noteq> 0"

definition ara_reset :: "anti_replay \<Rightarrow> anti_replay" where
  "ara_reset a = a\<lparr>counter_out := 0, queue_low := 0, queue_set := {||}\<rparr>"

text \<open>The verdicts on a sequence of arrivals.\<close>

definition arrivals :: "u64 list \<Rightarrow> bool list" where
  "arrivals pids = fst (run on_pid_received ara_default pids)"

definition after_arrivals :: "u64 list \<Rightarrow> anti_replay" where
  "after_arrivals pids = snd (run on_pid_received ara_default pids)"

definition times_accepted :: "u64 \<Rightarrow> u64 list \<Rightarrow> nat" where
  "times_accepted p pids = count_list (zip pids (arrivals pids)) (p, True)"

text \<open>The ideal filter: a PID is accepted exactly once, at its first arrival.\<close>

fun ideal_filter :: "u64 set \<Rightarrow> u64 list \<Rightarrow> bool list" where
  "ideal_filter seen [] = []"
| "ideal_filter seen (p # ps) = (p \<notin> seen) # ideal_filter (insert p seen) ps"

section \<open>One step\<close>

lemma on_pid_received_verdict:
  "fst (on_pid_received a p) \<longleftrightarrow>
     p |\<notin>| queue_set a \<and> unat (queue_low a) \<le> unat p + unat HISTORY_LEN"
  by (simp add: on_pid_received_def Let_def saturating_sub_le_iff)

lemma on_pid_received_reject: "\<not> fst (on_pid_received a p) \<Longrightarrow> snd (on_pid_received a p) = a"
  by (auto simp: on_pid_received_def Let_def)

lemma on_pid_received_accept:
  "fst (on_pid_received a p) \<Longrightarrow>
   snd (on_pid_received a p) =
     (evict_lowest a)\<lparr>queue_set := finsert p (queue_set (evict_lowest a))\<rparr>"
  by (auto simp: on_pid_received_def Let_def split: if_splits)

lemma evict_lowest_cases:
  obtains (evict) "queue_low a |\<in>| queue_set a"
      "queue_low (evict_lowest a) = queue_low a + 1"
      "queue_set (evict_lowest a) = queue_set a |-| {|queue_low a|}"
  | (keep) "evict_lowest a = a"
  by (cases "unat HISTORY_LEN \<le> fcard (queue_set a) \<and> queue_low a |\<in>| queue_set a")
    (auto simp: evict_lowest_def)

text \<open>
  The contract a client of the container relies on: an accepted PID is remembered, and a remembered
  PID is refused without a change of state.
\<close>

locale replay_filter =
  fixes accept :: "'s \<Rightarrow> u64 \<Rightarrow> bool \<times> 's" and remembers :: "'s \<Rightarrow> u64 \<Rightarrow> bool"
  assumes accept_remembers: "accept s p = (True, s') \<Longrightarrow> remembers s' p"
    and remembered_refused: "remembers s p \<Longrightarrow> accept s p = (False, s)"
begin

lemma immediate_replay_refused:
  "accept s p = (True, s') \<Longrightarrow> accept s' p = (False, s')"
  by (blast intro: accept_remembers remembered_refused)

lemma accepted_was_unknown: "fst (accept s p) \<Longrightarrow> \<not> remembers s p"
  by (auto dest: remembered_refused)

end

interpretation ara: replay_filter on_pid_received "\<lambda>a p. p |\<in>| queue_set a"
proof unfold_locales
  fix s p s'
  assume "on_pid_received s p = (True, s')"
  then show "p |\<in>| queue_set s'"
    using on_pid_received_accept [of s p] by auto
qed (simp add: on_pid_received_def)

section \<open>How often a PID is accepted\<close>

text \<open>
  The state against the history: PIDs below \<open>queue_low\<close> have been accepted and evicted once (and,
  if they are in the set again, accepted a second time); all other PIDs have been accepted exactly
  when they are in the set.
\<close>

definition ara_ghost :: "(u64 \<times> bool) list \<Rightarrow> anti_replay \<Rightarrow> bool" where
  "ara_ghost h a \<longleftrightarrow>
     unat (queue_low a) \<le> length h \<and>
     (\<forall>p. count_list h (p, True) =
            (if p < queue_low a then 1 else 0) + (if p |\<in>| queue_set a then 1 else 0))"

lemma ara_ghost_evict:
  assumes J: "ara_ghost h a" and len: "length h < 2 ^ 64 - 1"
  shows "ara_ghost (h @ [x]) (evict_lowest a) \<longleftrightarrow> ara_ghost (h @ [x]) a"
    and "p |\<notin>| queue_set a \<Longrightarrow> p |\<notin>| queue_set (evict_lowest a)"
    and "unat (queue_low (evict_lowest a)) \<le> Suc (length h)"
proof -
  have low: "unat (queue_low a) + 1 < 2 ^ LENGTH(64)" and le: "unat (queue_low a) \<le> length h"
    using J len by (simp_all add: ara_ghost_def)
  have lt: "p < queue_low a + 1 \<longleftrightarrow> p < queue_low a \<or> p = queue_low a" for p :: u64
    by (auto simp: word_less_nat_alt unat_Suc_word [OF low] less_Suc_eq word_unat_eq_iff)
  have irr: "\<not> queue_low a < queue_low a" by simp
  show "ara_ghost (h @ [x]) (evict_lowest a) \<longleftrightarrow> ara_ghost (h @ [x]) a"
  proof (cases rule: evict_lowest_cases [of a])
    case evict
    have "(if p < queue_low a + 1 then 1 else 0) +
            (if p |\<in>| queue_set a |-| {|queue_low a|} then 1 else 0) =
          (if p < queue_low a then 1 else 0) + (if p |\<in>| queue_set a then 1 else (0::nat))" for p
      using evict(1) by (auto simp: lt)
    with evict(2,3) le show ?thesis
      by (simp add: ara_ghost_def unat_Suc_word [OF low])
  qed simp
  show "p |\<notin>| queue_set a \<Longrightarrow> p |\<notin>| queue_set (evict_lowest a)"
    by (cases rule: evict_lowest_cases [of a]) auto
  show "unat (queue_low (evict_lowest a)) \<le> Suc (length h)"
    by (cases rule: evict_lowest_cases [of a]) (use le in \<open>simp_all add: unat_Suc_word [OF low]\<close>)
qed

lemma ara_ghost_step:
  assumes J: "ara_ghost h a" and len: "length h < 2 ^ 64 - 1"
  shows "ara_ghost (h @ [(p, fst (on_pid_received a p))]) (snd (on_pid_received a p))"
proof (cases "fst (on_pid_received a p)")
  case False
  with J show ?thesis by (simp add: ara_ghost_def on_pid_received_reject)
next
  case True
  then have new: "p |\<notin>| queue_set a" by (simp add: on_pid_received_verdict)
  note ev = ara_ghost_evict [OF J len]
  have "ara_ghost (h @ [(p, False)]) a" using J by (simp add: ara_ghost_def)
  then have "ara_ghost (h @ [(p, False)]) (evict_lowest a)" by (simp add: ev(1))
  with ev(2) [OF new] show ?thesis
    by (auto simp: on_pid_received_accept [OF True] True ara_ghost_def)
qed

interpretation ara_run: run_ghost on_pid_received ara_ghost "2 ^ 64 - 1"
  by unfold_locales (simp add: ara_ghost_step)

lemma ara_ghost_arrivals:
  assumes "length pids < 2 ^ 64"
  shows "ara_ghost (zip pids (arrivals pids)) (after_arrivals pids)"
proof -
  have "ara_ghost [] ara_default" by (simp add: ara_ghost_def ara_default_def)
  then show ?thesis
    using ara_run.run_ghost [of "[]" ara_default pids] assms
    by (simp add: arrivals_def after_arrivals_def)
qed

lemma length_arrivals [simp]: "length (arrivals pids) = length pids"
  by (simp add: arrivals_def)

lemma arrivals_snoc:
  "arrivals (pids @ [p]) = arrivals pids @ [fst (on_pid_received (after_arrivals pids) p)]"
  "after_arrivals (pids @ [p]) = snd (on_pid_received (after_arrivals pids) p)"
  by (simp_all add: arrivals_def after_arrivals_def run_append case_prod_beta)

lemma fresh_pid_accepted:
  assumes "length pids < 2 ^ 64" and "p \<notin> set pids"
  shows "fst (on_pid_received (after_arrivals pids) p)"
proof -
  have "(p, True) \<notin> set (zip pids (arrivals pids))"
    using assms(2) by (auto dest: set_zip_leftD)
  then have "count_list (zip pids (arrivals pids)) (p, True) = 0"
    by (simp add: count_list_0_iff)
  with ara_ghost_arrivals [OF assms(1)]
  have "\<not> p < queue_low (after_arrivals pids) \<and> p |\<notin>| queue_set (after_arrivals pids)"
    by (auto simp: ara_ghost_def split: if_splits)
  then show ?thesis
    by (simp add: on_pid_received_verdict word_less_nat_alt)
qed

lemma arrivals_take: "arrivals (take k pids) = take k (arrivals pids)"
proof -
  have "arrivals pids = arrivals (take k pids) @ drop (length (take k pids)) (arrivals pids)"
    by (metis append_take_drop_id append_eq_conv_conj arrivals_def fst_conv length_arrivals run_append)
  then show ?thesis by (cases "k \<le> length pids") (metis append_eq_conv_conj length_arrivals length_take min.absorb2, simp)
qed

lemma nth_arrivals:
  assumes "k < length pids"
  shows "arrivals pids ! k = fst (on_pid_received (after_arrivals (take k pids)) (pids ! k))"
proof -
  have "arrivals (take (Suc k) pids) ! k = arrivals pids ! k"
    by (simp add: arrivals_take)
  then show ?thesis
    using assms by (simp add: take_Suc_conv_app_nth arrivals_snoc nth_append)
qed

section \<open>Within the window the container is the ideal filter\<close>

lemma run_ideal:
  assumes "queue_low a = 0" and "card (fset (queue_set a) \<union> set pids) \<le> unat HISTORY_LEN"
  shows "fst (run on_pid_received a pids) = ideal_filter (fset (queue_set a)) pids \<and>
         queue_low (snd (run on_pid_received a pids)) = 0 \<and>
         fset (queue_set (snd (run on_pid_received a pids))) = fset (queue_set a) \<union> set pids"
  using assms
proof (induction pids arbitrary: a)
  case (Cons p ps)
  show ?case
  proof (cases "p |\<in>| queue_set a")
    case True
    then have "on_pid_received a p = (False, a)" by (simp add: on_pid_received_def)
    with Cons.IH [of a] Cons.prems True show ?thesis
      by (simp add: insert_absorb case_prod_beta Let_def)
  next
    case False
    have "fcard (queue_set a) < card (insert p (fset (queue_set a)))"
      using False by (simp add: fcard.rep_eq)
    also have "\<dots> \<le> card (fset (queue_set a) \<union> set (p # ps))"
      by (intro card_mono) auto
    finally have "evict_lowest a = a"
      using Cons.prems(2) by (simp add: evict_lowest_def)
    then have step: "on_pid_received a p = (True, a\<lparr>queue_set := finsert p (queue_set a)\<rparr>)"
      using False Cons.prems(1) by (simp add: on_pid_received_def saturating_sub_def)
    have "card (fset (queue_set (a\<lparr>queue_set := finsert p (queue_set a)\<rparr>)) \<union> set ps)
        \<le> unat HISTORY_LEN"
      using Cons.prems(2) by simp
    then show ?thesis
      using Cons.IH [of "a\<lparr>queue_set := finsert p (queue_set a)\<rparr>"] Cons.prems(1) False
      by (simp add: step case_prod_beta Let_def)
  qed
qed simp

lemma ideal_filter_distinct:
  "distinct pids \<Longrightarrow> seen \<inter> set pids = {} \<Longrightarrow> ideal_filter seen pids = replicate (length pids) True"
  by (induction pids arbitrary: seen) auto

lemma nth_ideal_filter:
  "k < length pids \<Longrightarrow> ideal_filter seen pids ! k \<longleftrightarrow> pids ! k \<notin> seen \<union> set (take k pids)"
proof (induction pids arbitrary: seen k)
  case (Cons p ps)
  then show ?case by (cases k) auto
qed simp

lemma in_order_pids:
  assumes "0 < n" and "n < 2 ^ 64"
  shows "distinct (map word_of_nat [0..<n] :: u64 list)"
    and "word_of_nat n \<notin> set (map word_of_nat [0..<n] :: u64 list)"
    and "0 \<in> set (map word_of_nat [0..<n] :: u64 list)"
proof -
  have inj: "word_of_nat i = (word_of_nat j :: u64) \<longleftrightarrow> i = j" if "i \<le> n" "j \<le> n" for i j
    using that assms(2) by (simp add: word_of_nat_eq_iff take_bit_nat_eq_self)
  show "distinct (map word_of_nat [0..<n] :: u64 list)"
    by (auto simp: distinct_map inj_on_def inj)
  show "word_of_nat n \<notin> set (map word_of_nat [0..<n] :: u64 list)"
    by (auto simp: inj)
  show "0 \<in> set (map word_of_nat [0..<n] :: u64 list)"
    using assms(1) by (force simp: image_iff)
qed

section \<open>Without the lowest PID nothing is evicted\<close>

lemma run_without_lowest:
  assumes "queue_low a |\<notin>| queue_set a" and "queue_low a = 0" and "0 \<notin> set pids"
  shows "queue_set (snd (run on_pid_received a pids)) = queue_set a |\<union>| fset_of_list pids"
  using assms
proof (induction pids arbitrary: a)
  case (Cons p ps)
  have keep: "evict_lowest a = a" using Cons.prems by (simp add: evict_lowest_def)
  show ?case
  proof (cases "p |\<in>| queue_set a")
    case True
    then have "on_pid_received a p = (False, a)" by (simp add: on_pid_received_def)
    with Cons.IH [of a] Cons.prems True show ?thesis
      by (simp add: case_prod_beta Let_def finsert_absorb)
  next
    case False
    then have "on_pid_received a p = (True, a\<lparr>queue_set := finsert p (queue_set a)\<rparr>)"
      using Cons.prems by (simp add: on_pid_received_def keep saturating_sub_def)
    with Cons.IH [of "a\<lparr>queue_set := finsert p (queue_set a)\<rparr>"] Cons.prems show ?thesis
      by (simp add: case_prod_beta Let_def)
  qed
qed simp

section \<open>Properties\<close>

text \<open>
  C12: Over any sequence of fewer than \<open>2 ^ 64\<close> arrivals since the last reset, no PID is accepted more
  than twice: once before its eviction from the history and at most once after it.
\<close>

theorem pid_accepted_at_most_twice:
  "length pids < 2 ^ 64 \<Longrightarrow> times_accepted p pids \<le> 2"
  using ara_ghost_arrivals [of pids] by (auto simp: ara_ghost_def times_accepted_def)

theorem pid_accepted_at_most_twice_witness:
  "length [7, 3, 7 :: u64] < 2 ^ 64 \<and> times_accepted 7 [7, 3, 7] \<le> 2"
  using pid_accepted_at_most_twice [of "[7, 3, 7]" 7] by simp

text \<open>
  C11: A PID that has not arrived before is accepted, however late it arrives and whatever arrived
  before it: reordering on the wire never makes the container drop a genuine packet.
\<close>

theorem first_arrival_accepted:
  assumes "length pids < 2 ^ 64" and "p \<notin> set pids"
  shows "fst (on_pid_received (after_arrivals pids) p)"
  using assms by (rule fresh_pid_accepted)

theorem first_arrival_accepted_witness:
  "length [5, 9 :: u64] < 2 ^ 64 \<and> (2 :: u64) \<notin> set [5, 9] \<and>
   fst (on_pid_received (after_arrivals [5, 9]) 2)"
  using first_arrival_accepted [of "[5, 9]" 2] by simp

text \<open>
  C10: As long as at most \<open>HISTORY_LEN\<close> different PIDs have arrived, the container is the ideal replay
  filter: a packet is accepted if and only if its PID arrives for the first time.
\<close>

theorem window_refines_ideal_filter:
  assumes "card (set pids) \<le> unat HISTORY_LEN"
  shows "arrivals pids = ideal_filter {} pids"
  using run_ideal [of ara_default pids] assms
  by (simp add: arrivals_def ara_default_def)

theorem window_refines_ideal_filter_witness:
  "card (set [4, 2, 4 :: u64]) \<le> unat HISTORY_LEN \<and>
   arrivals [4, 2, 4] = [True, True, False]"
  using window_refines_ideal_filter [of "[4, 2, 4]"] by (simp add: HISTORY_LEN_def card_insert_if)

text \<open>
  C13: Beyond the window a replay gets through: after the PIDs \<open>0\<close> to \<open>1024\<close> arrived in order, the
  PID \<open>0\<close>, which was accepted first, is accepted a second time. The lower bound the code checks is
  \<open>queue_low - HISTORY_LEN\<close>, not \<open>queue_low\<close>, so it does not cover the PID that was just evicted.
\<close>

theorem evicted_pid_replay_accepted:
  "arrivals (map word_of_nat [0..<1025] @ [0]) = replicate 1026 True"
proof -
  define n where "n = unat HISTORY_LEN"
  have n: "n = 1024" by (simp add: n_def HISTORY_LEN_def)
  let ?ps = "map word_of_nat [0..<n] :: u64 list" and ?p = "word_of_nat n :: u64"
  let ?a = "after_arrivals ?ps"
  have dist: "distinct ?ps" and fresh: "?p \<notin> set ?ps" and first: "0 \<in> set ?ps"
    using in_order_pids [of n] n by simp_all
  have card: "card (set ?ps) = n"
    using distinct_card [OF dist] by simp
  have run: "arrivals ?ps = replicate n True" "queue_low ?a = 0" "fset (queue_set ?a) = set ?ps"
    using run_ideal [of ara_default ?ps] card ideal_filter_distinct [OF dist, of "{}"]
    by (simp_all add: arrivals_def after_arrivals_def ara_default_def n_def)
  have acc: "fst (on_pid_received ?a ?p)"
    using fresh run(2,3) by (simp add: on_pid_received_verdict)
  have "evict_lowest ?a = ?a\<lparr>queue_set := queue_set ?a |-| {|0|}, queue_low := 1\<rparr>"
    using first run(2,3) card by (simp add: evict_lowest_def fcard.rep_eq n_def)
  moreover have "?p \<noteq> 0" using fresh first by metis
  ultimately have again: "fst (on_pid_received (snd (on_pid_received ?a ?p)) 0)"
    by (simp add: on_pid_received_verdict on_pid_received_accept [OF acc] HISTORY_LEN_def)
  have "[0..<1025] = [0..<Suc n]"
    by (rule arg_cong2 [of 0 0]) (simp_all add: n)
  then have all: "map word_of_nat [0..<1025] = ?ps @ [?p]"
    by (simp only:) simp
  have "arrivals ((?ps @ [?p]) @ [0]) = replicate (n + 2) True"
    using acc again run(1) by (simp only: arrivals_snoc) (simp add: replicate_append_same)
  then show ?thesis using n by (simp only: all) simp
qed

text \<open>
  C14: If the PID \<open>0\<close> never arrives, nothing is ever evicted: the history holds every PID received so
  far, so it is not bounded by \<open>HISTORY_LEN\<close>.
\<close>

theorem lost_lowest_pid_history_unbounded:
  assumes "0 \<notin> set pids"
  shows "fcard (queue_set (after_arrivals pids)) = card (set pids)"
  using run_without_lowest [of ara_default pids] assms
  by (simp add: after_arrivals_def ara_default_def fcard.rep_eq fset_of_list.rep_eq)

theorem lost_lowest_pid_history_unbounded_witness:
  "0 \<notin> set [3, 1, 3 :: u64] \<and> fcard (queue_set (after_arrivals [3, 1, 3])) = 2"
  using lost_lowest_pid_history_unbounded [of "[3, 1, 3]"] by (simp add: card_insert_if)

end
