(* ===== verification/PQ_Container.thy ===== *)
theory PQ_Container
  imports Aead Anti_Replay
begin

text \<open>
  The post-quantum container of \<open>citadel_pqcrypto/src/lib.rs\<close> and \<open>export.rs\<close>: the key exchange
  between Alice and Bob, the derivation of the recursive key chain, the key store and its
  serialisation, and the protection and validation of packets with the anti-replay counters.
  The anti-replay counters are behind a shared reference in the source, so the operations that touch
  them return the container with the counters updated.
\<close>

unbundle bit_operations_syntax

section \<open>Key-exchange data\<close>

datatype pq_node = Alice | Bob

datatype pq_meta =
    PureSymmetricEncryption kex
  | MixedAsymmetric kex sigs

datatype alice_to_bob_params =
    A2B_MixedAsymmetric (a2b_alice_pk: bytes) (a2b_alice_pk_sig: bytes)
      (a2b_alice_public_key_signature: bytes) sig_algorithm kem_algorithm
  | A2B_PureSymmetric (a2b_alice_pk: bytes) kem_algorithm

datatype bob_to_alice_params =
    B2A_MixedAsymmetric bytes bytes bytes bytes
  | B2A_PureSymmetric bytes bytes

fun meta_kex :: "pq_meta \<Rightarrow> kex" where
  "meta_kex (PureSymmetricEncryption k) = k"
| "meta_kex (MixedAsymmetric k s) = k"

fun meta_sig :: "pq_meta \<Rightarrow> sigs option" where
  "meta_sig (PureSymmetricEncryption k) = None"
| "meta_sig (MixedAsymmetric k s) = Some s"

fun map_kex :: "(kex \<Rightarrow> kex) \<Rightarrow> pq_meta \<Rightarrow> pq_meta" where
  "map_kex f (PureSymmetricEncryption k) = PureSymmetricEncryption (f k)"
| "map_kex f (MixedAsymmetric k s) = MixedAsymmetric (f k) s"

definition get_secret_key :: "pq_meta \<Rightarrow> (bytes, pq_error) result" where
  "get_secret_key m = ok_or (Generic ''Unable to get secret key'') (kx_secret_key (meta_kex m))"

definition get_ciphertext :: "pq_meta \<Rightarrow> (bytes, pq_error) result" where
  "get_ciphertext m = ok_or (Generic ''Unable to get ciphertext'') (kx_ciphertext (meta_kex m))"

definition get_shared_secret :: "pq_meta \<Rightarrow> (bytes, pq_error) result" where
  "get_shared_secret m = ok_or (Generic ''Unable to get secret key'') (kx_shared_secret (meta_kex m))"

definition meta_new_alice ::
    "crypto_lib \<Rightarrow> rnd \<Rightarrow> kem_algorithm \<Rightarrow> sig_algorithm \<Rightarrow> (pq_meta, pq_error) result" where
  "meta_new_alice lib r kem sig =
     (let (pk, sk) = lib_kem_keypair lib r;
          k = \<lparr>kx_remote_public_key = None, kx_public_key = pk, kx_secret_key = Some sk,
               kx_ciphertext = None, kx_shared_secret = None, kx_kem_alg = kem\<rparr>
      in case sig of
           Falcon1024 \<Rightarrow>
             rbind (signature_keypair lib (advance r 64)) (\<lambda>(sig_pk, sig_sk).
               Ok (MixedAsymmetric k
                  \<lparr>sig_public_key = sig_pk, sig_private_key = sig_sk, remote_sig_public_key = None,
                   sig_alg = sig\<rparr>))
         | SigNone \<Rightarrow> Ok (PureSymmetricEncryption k))"

definition meta_new_bob :: "crypto_lib \<Rightarrow> rnd \<Rightarrow> alice_to_bob_params \<Rightarrow> (pq_meta, pq_error) result" where
  "meta_new_bob lib r params =
     (let (kem_pk_bob, kem_sk_bob) = lib_kem_keypair lib r in
      rbind (ok_or (Generic ''Failed encapsulate step'')
               (lib_encapsulate lib (advance r 64) (a2b_alice_pk params)))
        (\<lambda>(ct, ss).
          case params of
            A2B_MixedAsymmetric alice_pk alice_pk_sig alice_public_key_signature sig_scheme kem_scheme \<Rightarrow>
              rbind (signature_keypair lib (advance r 128)) (\<lambda>(sig_pk_bob, sig_sk_bob).
               rbind (signature_verify lib alice_pk alice_public_key_signature alice_pk_sig) (\<lambda>_.
               Ok (MixedAsymmetric
                     \<lparr>kx_remote_public_key = Some alice_pk, kx_public_key = kem_pk_bob,
                      kx_secret_key = Some kem_sk_bob, kx_ciphertext = Some ct,
                      kx_shared_secret = Some ss, kx_kem_alg = kem_scheme\<rparr>
                     \<lparr>sig_public_key = sig_pk_bob, sig_private_key = sig_sk_bob,
                      remote_sig_public_key = Some alice_pk_sig, sig_alg = sig_scheme\<rparr>)))
          | A2B_PureSymmetric alice_pk kem_scheme \<Rightarrow>
              Ok (PureSymmetricEncryption
                    \<lparr>kx_remote_public_key = Some alice_pk, kx_public_key = kem_pk_bob,
                     kx_secret_key = Some kem_sk_bob, kx_ciphertext = Some ct,
                     kx_shared_secret = Some ss, kx_kem_alg = kem_scheme\<rparr>)))"

fun meta_generate_alice_to_bob ::
    "crypto_lib \<Rightarrow> rnd \<Rightarrow> pq_meta \<Rightarrow> (alice_to_bob_params, pq_error) result" where
  "meta_generate_alice_to_bob lib r (MixedAsymmetric k s) =
     rbind (signature_sign lib r (kx_public_key k) (sig_private_key s)) (\<lambda>sig.
       Ok (A2B_MixedAsymmetric (kx_public_key k) (sig_public_key s) sig (sig_alg s) (kx_kem_alg k)))"
| "meta_generate_alice_to_bob lib r (PureSymmetricEncryption k) =
     Ok (A2B_PureSymmetric (kx_public_key k) (kx_kem_alg k))"

definition meta_generate_bob_to_alice ::
    "crypto_lib \<Rightarrow> rnd \<Rightarrow> pq_meta \<Rightarrow> (bob_to_alice_params, pq_error) result" where
  "meta_generate_bob_to_alice lib r m =
     rbind (get_ciphertext m) (\<lambda>bob_ciphertext.
     let bob_pk = kx_public_key (meta_kex m) in
     case m of
       PureSymmetricEncryption k \<Rightarrow> Ok (B2A_PureSymmetric bob_ciphertext bob_pk)
     | MixedAsymmetric k s \<Rightarrow>
         rbind (signature_sign lib r bob_ciphertext (sig_private_key s)) (\<lambda>bob_signed_ciphertext.
           Ok (B2A_MixedAsymmetric bob_signed_ciphertext bob_ciphertext (sig_public_key s) bob_pk)))"

text \<open>The arguments of \<open>B2A_MixedAsymmetric\<close>: signature, ciphertext, signature key, public key.\<close>

definition meta_alice_on_receive_ciphertext ::
    "crypto_lib \<Rightarrow> bob_to_alice_params \<Rightarrow> pq_meta \<Rightarrow> (pq_meta, pq_error) result" where
  "meta_alice_on_receive_ciphertext lib params m =
     rbind (case params of
              B2A_PureSymmetric ct pk \<Rightarrow> Ok ct
            | B2A_MixedAsymmetric sig ct pk_sig pk \<Rightarrow>
                rbind (signature_verify lib ct sig pk_sig) (\<lambda>_. Ok ct))
       (\<lambda>bob_ciphertext.
     rbind (get_secret_key m) (\<lambda>sk.
     rbind (ok_or (Other ''decapsulate'') (lib_decapsulate lib bob_ciphertext sk)) (\<lambda>ss.
     let m1 = map_kex (\<lambda>k. k\<lparr>kx_shared_secret := Some ss, kx_ciphertext := Some bob_ciphertext\<rparr>) m in
     case params of
       B2A_MixedAsymmetric sig ct pk_sig pk \<Rightarrow>
         (case map_kex (\<lambda>k. k\<lparr>kx_remote_public_key := Some pk\<rparr>) m1 of
            PureSymmetricEncryption k \<Rightarrow> Panic
          | MixedAsymmetric k s \<Rightarrow> Ok (MixedAsymmetric k (s\<lparr>remote_sig_public_key := Some pk_sig\<rparr>)))
     | B2A_PureSymmetric ct pk \<Rightarrow>
         Ok (map_kex (\<lambda>k. k\<lparr>kx_remote_public_key := Some pk\<rparr>) m1))))"

section \<open>Key store\<close>

record key_store =
  alice_module :: "aead_module option"
  bob_module :: "aead_module option"
  alice_key :: bytes
  bob_key :: bytes
  ks_kex :: kex
  ks_sig :: "sigs option"
  ks_pq_node :: pq_node
  ks_params :: crypto_parameters

definition keys_to_aead_store ::
    "crypto_lib \<Rightarrow> bytes \<Rightarrow> bytes \<Rightarrow> kex \<Rightarrow> crypto_parameters \<Rightarrow> sigs option \<Rightarrow> pq_node \<Rightarrow>
     (aead_module option \<times> aead_module option, pq_error) result" where
  "keys_to_aead_store lib alice bob k params sig node =
     (case encryption_algorithm params of
        AES_GCM_256_SIV \<Rightarrow> Ok (Some (aes_module lib alice), Some (aes_module lib bob))
      | Xchacha20Poly_1305 \<Rightarrow> Ok (Some (chacha_module lib alice), Some (chacha_module lib bob))
      | Kyber \<Rightarrow>
          rbind (unwrap sig) (\<lambda>s.
          let keys = kyber_module lib
                \<lparr>ky_kem_alg = kem_algorithm params, ky_sig_alg = sig_algorithm params,
                 ky_kex = k, ky_sig = s,
                 symmetric_key_local = aes_module lib (case node of Alice \<Rightarrow> alice | Bob \<Rightarrow> bob),
                 symmetric_key_remote = aes_module lib (case node of Alice \<Rightarrow> bob | Bob \<Rightarrow> alice)\<rparr>
          in case node of Alice \<Rightarrow> Ok (Some keys, None) | Bob \<Rightarrow> Ok (None, Some keys)))"

definition xor_bytes :: "bytes \<Rightarrow> bytes \<Rightarrow> bytes" where
  "xor_bytes xs ys = map2 (XOR) xs ys"

text \<open>The two 32-byte keys of one generation: the first from the secret alone, then chained.\<close>

definition derive_keys :: "crypto_lib \<Rightarrow> bytes \<Rightarrow> recursive_chain option \<Rightarrow> bytes \<times> bytes" where
  "derive_keys lib ss previous_chain =
     (case previous_chain of
        Some prev \<Rightarrow>
          let temp_key = lib_sha3_512 lib (rc_chain prev @ ss);
              temp_alice_key = take 32 temp_key; temp_bob_key = drop 32 temp_key
          in (lib_sha3_256 lib (xor_bytes (rc_alice prev) temp_alice_key),
              lib_sha3_256 lib (xor_bytes (rc_bob prev) temp_bob_key))
      | None \<Rightarrow>
          let temp_key = lib_sha3_512 lib ss in (take 32 temp_key, drop 32 temp_key))"

definition generate_recursive_keystore ::
    "crypto_lib \<Rightarrow> pq_node \<Rightarrow> crypto_parameters \<Rightarrow> sigs option \<Rightarrow> bytes \<Rightarrow> recursive_chain option \<Rightarrow>
     kex \<Rightarrow> (recursive_chain \<times> key_store, pq_error) result" where
  "generate_recursive_keystore lib node params sig ss previous_chain k =
     (let (alice, bob) = derive_keys lib ss previous_chain;
          chain = lib_sha3_256 lib (xor_bytes alice bob) in
      rbind (ok_or InvalidLength (recursive_chain_new chain alice bob (previous_chain = None)))
        (\<lambda>new_chain.
      rbind (keys_to_aead_store lib alice bob k params sig node) (\<lambda>(am, bm).
      Ok (new_chain,
          \<lparr>alice_module = am, bob_module = bm, alice_key = alice, bob_key = bob, ks_kex = k,
           ks_sig = sig, ks_pq_node = node, ks_params = params\<rparr>))))"

section \<open>The container\<close>

text \<open>The type of the key store is a parameter: a container is exported with the plain keys in it.\<close>

record 'k container =
  pq_params :: crypto_parameters
  pq_data :: pq_meta
  pq_chain :: "recursive_chain option"
  pq_ara :: anti_replay
  pq_key_store :: "'k option"
  pq_node_type :: pq_node

type_synonym pqc = "key_store container"

definition pqc_new_alice :: "crypto_lib \<Rightarrow> rnd \<Rightarrow> constructor_opts \<Rightarrow> (pqc, pq_error) result" where
  "pqc_new_alice lib r opts =
     (let params = opts_params opts in
      rbind (validate_crypto_params params) (\<lambda>_.
      rbind (map_err (\<lambda>err. Other (pq_error_to_string err))
               (meta_new_alice lib r (kem_algorithm params) (sig_algorithm params))) (\<lambda>data.
      Ok \<lparr>pq_params = params, pq_data = data, pq_chain = co_chain opts, pq_ara = ara_default,
          pq_key_store = None, pq_node_type = Alice\<rparr>)))"

definition pqc_new_bob ::
    "crypto_lib \<Rightarrow> rnd \<Rightarrow> constructor_opts \<Rightarrow> alice_to_bob_params \<Rightarrow> (pqc, pq_error) result" where
  "pqc_new_bob lib r opts tx_params =
     (let params = opts_params opts in
      rbind (validate_crypto_params params) (\<lambda>_.
      rbind (map_err (\<lambda>err. Other (pq_error_to_string err)) (meta_new_bob lib r tx_params)) (\<lambda>data.
      rbind (unwrap (ok (get_shared_secret data))) (\<lambda>ss.
      rbind (map_err (\<lambda>_. Other ''Error while calculating recursive keystore'')
               (generate_recursive_keystore lib Bob params (meta_sig data) ss (co_chain opts)
                  (meta_kex data)))
        (\<lambda>(chain, keys).
      Ok \<lparr>pq_params = params, pq_data = data, pq_chain = Some chain, pq_ara = ara_default,
          pq_key_store = Some keys, pq_node_type = Bob\<rparr>)))))"

definition generate_alice_to_bob_transfer ::
    "crypto_lib \<Rightarrow> rnd \<Rightarrow> pqc \<Rightarrow> (alice_to_bob_params, pq_error) result" where
  "generate_alice_to_bob_transfer lib r self = meta_generate_alice_to_bob lib r (pq_data self)"

definition generate_bob_to_alice_transfer ::
    "crypto_lib \<Rightarrow> rnd \<Rightarrow> pqc \<Rightarrow> (bob_to_alice_params, pq_error) result" where
  "generate_bob_to_alice_transfer lib r self = meta_generate_bob_to_alice lib r (pq_data self)"

definition load_symmetric_keys :: "crypto_lib \<Rightarrow> pqc \<Rightarrow> (pqc, pq_error) result" where
  "load_symmetric_keys lib self =
     rbind (get_shared_secret (pq_data self)) (\<lambda>ss.
     rbind (generate_recursive_keystore lib (pq_node_type self) (pq_params self)
              (meta_sig (pq_data self)) ss (pq_chain self) (meta_kex (pq_data self)))
       (\<lambda>(chain, keys). Ok (self\<lparr>pq_key_store := Some keys, pq_chain := Some chain\<rparr>)))"

definition alice_on_receive_ciphertext ::
    "crypto_lib \<Rightarrow> bob_to_alice_params \<Rightarrow> pqc \<Rightarrow> (pqc, pq_error) result" where
  "alice_on_receive_ciphertext lib params self =
     rbind (meta_alice_on_receive_ciphertext lib params (pq_data self)) (\<lambda>data.
     rbind (get_shared_secret data) (\<lambda>_.
     load_symmetric_keys lib (self\<lparr>pq_data := data\<rparr>)))"

definition get_encryption_key :: "pqc \<Rightarrow> aead_module option" where
  "get_encryption_key self = do {
     keys \<leftarrow> pq_key_store self;
     case pq_node_type self of Alice \<Rightarrow> alice_module keys | Bob \<Rightarrow> bob_module keys
   }"

definition get_decryption_key :: "pqc \<Rightarrow> aead_module option" where
  "get_decryption_key self =
     (if encryption_algorithm (pq_params self) = Kyber then get_encryption_key self
      else do {
        keys \<leftarrow> pq_key_store self;
        case pq_node_type self of Alice \<Rightarrow> bob_module keys | Bob \<Rightarrow> alice_module keys
      })"

definition reset_counters :: "pqc \<Rightarrow> pqc" where
  "reset_counters self = self\<lparr>pq_ara := ara_reset (pq_ara self)\<rparr>"

definition has_verified_packets :: "pqc \<Rightarrow> bool" where
  "has_verified_packets self = has_tracked_packets (pq_ara self)"

definition get_chain :: "pqc \<Rightarrow> (recursive_chain, pq_error) result" where
  "get_chain self = ok_or InvalidLength (pq_chain self)"

definition pqc_encrypt :: "rnd \<Rightarrow> pqc \<Rightarrow> bytes \<Rightarrow> bytes \<Rightarrow> (bytes, pq_error) result" where
  "pqc_encrypt r self input nonce =
     (case get_encryption_key self of
        Some key \<Rightarrow> aead_encrypt key r nonce input
      | None \<Rightarrow> Err SharedSecretNotLoaded)"

definition pqc_decrypt :: "pqc \<Rightarrow> bytes \<Rightarrow> bytes \<Rightarrow> (bytes, pq_error) result" where
  "pqc_decrypt self input nonce =
     (case get_decryption_key self of
        Some key \<Rightarrow> aead_decrypt key nonce input
      | None \<Rightarrow> Err SharedSecretNotLoaded)"

definition protect_packet_in_place ::
    "rnd \<Rightarrow> pqc \<Rightarrow> nat \<Rightarrow> bytes \<Rightarrow> bytes \<Rightarrow> (bytes, pq_error) result \<times> pqc" where
  "protect_packet_in_place r self header_len full_packet nonce =
     (if length full_packet < header_len then (Panic, self)
      else
        let header = take header_len full_packet;
            (pid, ara) = get_next_pid (pq_ara self);
            payload = drop header_len full_packet @ u64_to_be pid;
            self' = self\<lparr>pq_ara := ara\<rparr>
        in case get_encryption_key self of
             Some key \<Rightarrow>
               (rbind (map_err (\<lambda>_. EncryptionFailure) (encrypt_in_place key r nonce header payload))
                  (\<lambda>sealed. Ok (header @ sealed)), self')
           | None \<Rightarrow> (Err SharedSecretNotLoaded, self'))"

definition validate_packet_in_place ::
    "pqc \<Rightarrow> bytes \<Rightarrow> bytes \<Rightarrow> bytes \<Rightarrow> (bytes, pq_error) result \<times> pqc" where
  "validate_packet_in_place self header payload nonce =
     (case get_decryption_key self of
        None \<Rightarrow> (Err SharedSecretNotLoaded, self)
      | Some key \<Rightarrow>
          (case decrypt_in_place key InPlaceBuffer nonce header payload of
             Ok plain \<Rightarrow>
               (let end_idx = length plain; start_idx = end_idx - 8 in
                if end_idx - start_idx = 8 then
                  let (fresh, ara) = on_pid_received (pq_ara self) (u64_of_be (drop start_idx plain));
                      self' = self\<lparr>pq_ara := ara\<rparr>
                  in if fresh then (Ok (take start_idx plain), self')
                     else (Err (Generic ''Anti-replay-attack: invalid''), self')
                else (Err (Generic ''Anti-replay-attack: Invalid inscription length''), self))
           | Err e \<Rightarrow> (Err e, self)
           | Panic \<Rightarrow> (Panic, self)))"

section \<open>Serialisation\<close>

text \<open>
  Of a key store only the keys are written; \<open>KeyStore::from\<close> rebuilds the cipher modules and then
  records \<open>PQNode::Alice\<close>. The bincode codec is third-party: \<open>ser\<close> and \<open>de\<close> are its two directions
  on the exported form. A container is cloned by serialising and deserialising it.
\<close>

record key_store_intermediate =
  ki_alice_key :: bytes
  ki_bob_key :: bytes
  ki_kex :: kex
  ki_sig :: "sigs option"
  ki_pq_node :: pq_node
  ki_params :: crypto_parameters

definition key_store_export :: "key_store \<Rightarrow> key_store_intermediate" where
  "key_store_export ks =
     \<lparr>ki_alice_key = alice_key ks, ki_bob_key = bob_key ks, ki_kex = ks_kex ks, ki_sig = ks_sig ks,
      ki_pq_node = ks_pq_node ks, ki_params = ks_params ks\<rparr>"

definition key_store_from :: "crypto_lib \<Rightarrow> key_store_intermediate \<Rightarrow> (key_store, pq_error) result" where
  "key_store_from lib imd =
     rbind (keys_to_aead_store lib (ki_alice_key imd) (ki_bob_key imd) (ki_kex imd) (ki_params imd)
              (ki_sig imd) (ki_pq_node imd))
       (\<lambda>(am, bm). Ok
          \<lparr>alice_module = am, bob_module = bm, alice_key = ki_alice_key imd, bob_key = ki_bob_key imd,
           ks_kex = ki_kex imd, ks_sig = ki_sig imd, ks_pq_node = Alice, ks_params = ki_params imd\<rparr>)"

definition pqc_export :: "pqc \<Rightarrow> key_store_intermediate container" where
  "pqc_export self =
     \<lparr>pq_params = pq_params self, pq_data = pq_data self, pq_chain = pq_chain self,
      pq_ara = pq_ara self, pq_key_store = map_option key_store_export (pq_key_store self),
      pq_node_type = pq_node_type self\<rparr>"

definition pqc_import ::
    "crypto_lib \<Rightarrow> key_store_intermediate container \<Rightarrow> (pqc, pq_error) result" where
  "pqc_import lib c =
     rbind (case pq_key_store c of None \<Rightarrow> Ok None
            | Some imd \<Rightarrow> rbind (key_store_from lib imd) (\<lambda>ks. Ok (Some ks)))
       (\<lambda>ks. Ok \<lparr>pq_params = pq_params c, pq_data = pq_data c, pq_chain = pq_chain c,
                  pq_ara = pq_ara c, pq_key_store = ks, pq_node_type = pq_node_type c\<rparr>)"

definition serialize_to_vector ::
    "(key_store_intermediate container \<Rightarrow> 'b option) \<Rightarrow> pqc \<Rightarrow> ('b, pq_error) result" where
  "serialize_to_vector ser self = ok_or (Generic ''Deserialization failure'') (ser (pqc_export self))"

definition deserialize_from_bytes ::
    "crypto_lib \<Rightarrow> ('b \<Rightarrow> key_store_intermediate container option) \<Rightarrow> 'b \<Rightarrow> (pqc, pq_error) result" where
  "deserialize_from_bytes lib de b =
     rbind (ok_or (Generic ''Deserialization failure'') (de b)) (pqc_import lib)"

definition pqc_clone ::
    "crypto_lib \<Rightarrow> (key_store_intermediate container \<Rightarrow> 'b option) \<Rightarrow>
     ('b \<Rightarrow> key_store_intermediate container option) \<Rightarrow> pqc \<Rightarrow> (pqc, pq_error) result" where
  "pqc_clone lib ser de self =
     rbind (unwrap (ok (serialize_to_vector ser self))) (\<lambda>b.
       unwrap (ok (deserialize_from_bytes lib de b)))"

section \<open>Key agreement\<close>

text \<open>
  The documented behaviour of the key-encapsulation and signature crates: decapsulation inverts
  encapsulation, decryption inverts encryption and signatures verify, under keys generated together.
\<close>

definition sound_kem :: "crypto_lib \<Rightarrow> bool" where
  "sound_kem lib \<longleftrightarrow>
     (\<forall>r pk sk. lib_kem_keypair lib r = (pk, sk) \<longrightarrow> pke_pair lib pk sk \<and>
        (\<forall>r' ct ss. lib_encapsulate lib r' pk = Some (ct, ss) \<longrightarrow> lib_decapsulate lib ct sk = Some ss))"

definition sound_sig :: "crypto_lib \<Rightarrow> bool" where
  "sound_sig lib \<longleftrightarrow> (\<forall>r pk sk. signature_keypair lib r = Ok (pk, sk) \<longrightarrow> signing_pair lib sk pk)"

definition sound_lib :: "crypto_lib \<Rightarrow> bool" where
  "sound_lib lib \<longleftrightarrow>
     sound_ciphers lib \<and> sound_hash lib \<and> sound_dict_codec lib \<and> sound_kem lib \<and> sound_sig lib"

text \<open>\<open>b\<close> can open what \<open>a\<close> seals.\<close>

definition pqc_opens :: "pqc \<Rightarrow> pqc \<Rightarrow> bool" where
  "pqc_opens a b \<longleftrightarrow>
     (\<exists>e d. get_encryption_key a = Some e \<and> get_decryption_key b = Some d \<and> aead_pair e d)"

text \<open>What the exchange leaves in the key-exchange data of the two ends.\<close>

definition kex_agree :: "crypto_lib \<Rightarrow> kex \<Rightarrow> kex \<Rightarrow> bool" where
  "kex_agree lib a b \<longleftrightarrow>
     (\<exists>pk sk. kx_remote_public_key a = Some pk \<and> kx_secret_key b = Some sk \<and> pke_pair lib pk sk) \<and>
     kx_shared_secret a = kx_shared_secret b \<and> kx_shared_secret a \<noteq> None"

fun sig_agree :: "crypto_lib \<Rightarrow> sigs option \<Rightarrow> sigs option \<Rightarrow> bool" where
  "sig_agree lib None None = True"
| "sig_agree lib (Some a) (Some b) =
     (\<exists>pk. remote_sig_public_key b = Some pk \<and> signing_pair lib (sig_private_key a) pk)"
| "sig_agree lib _ _ = False"

lemma meta_exchange:
  assumes sound: "sound_kem lib" "sound_sig lib"
    and alice: "meta_new_alice lib ra kem sig = Ok a"
    and a2b: "meta_generate_alice_to_bob lib r1 a = Ok m1"
    and bob: "meta_new_bob lib rb m1 = Ok b"
    and b2a: "meta_generate_bob_to_alice lib r2 b = Ok m2"
  shows "\<exists>a'. meta_alice_on_receive_ciphertext lib m2 a = Ok a' \<and>
           kex_agree lib (meta_kex a') (meta_kex b) \<and> kex_agree lib (meta_kex b) (meta_kex a') \<and>
           sig_agree lib (meta_sig a') (meta_sig b) \<and> sig_agree lib (meta_sig b) (meta_sig a') \<and>
           (meta_sig b = None \<longleftrightarrow> sig = SigNone)"
proof -
  obtain apk ask where ak: "lib_kem_keypair lib ra = (apk, ask)" by fastforce
  obtain bpk bsk where bk: "lib_kem_keypair lib rb = (bpk, bsk)" by fastforce
  have pke: "pke_pair lib apk ask" "pke_pair lib bpk bsk"
    and kem: "\<And>r ct ss. lib_encapsulate lib r apk = Some (ct, ss) \<Longrightarrow> lib_decapsulate lib ct ask = Some ss"
    using sound(1) ak bk by (auto simp: sound_kem_def)
  show ?thesis
  proof (cases sig)
    case SigNone
    with alice a2b bob b2a ak bk pke kem show ?thesis
      by (auto simp: meta_new_alice_def meta_new_bob_def meta_generate_bob_to_alice_def
          meta_alice_on_receive_ciphertext_def get_ciphertext_def get_secret_key_def kex_agree_def
          Let_def)
  next
    case Falcon1024
    with alice a2b bob b2a ak bk pke kem sound(2) show ?thesis
      by (auto simp: meta_new_alice_def meta_new_bob_def meta_generate_bob_to_alice_def
          meta_alice_on_receive_ciphertext_def get_ciphertext_def get_secret_key_def kex_agree_def
          Let_def sound_sig_def signing_pair_def)
  qed
qed

lemma derive_keys_length:
  "sound_hash lib \<Longrightarrow> length (fst (derive_keys lib ss prev)) = 32 \<and> length (snd (derive_keys lib ss prev)) = 32"
  by (auto simp: derive_keys_def Let_def sound_hash_def split: option.split)

definition derived_chain :: "crypto_lib \<Rightarrow> bytes \<Rightarrow> recursive_chain option \<Rightarrow> recursive_chain" where
  "derived_chain lib ss prev =
     (let (alice, bob) = derive_keys lib ss prev
      in \<lparr>rc_chain = lib_sha3_256 lib (xor_bytes alice bob), rc_alice = alice, rc_bob = bob,
          rc_first = (prev = None)\<rparr>)"

text \<open>The chain depends on the secret and the previous chain only, not on the side.\<close>

lemma generate_recursive_keystore_Ok:
  assumes "sound_hash lib"
  shows "generate_recursive_keystore lib node params sig ss prev k = Ok (c, ks) \<longleftrightarrow>
     c = derived_chain lib ss prev \<and>
     (\<exists>am bm. keys_to_aead_store lib (rc_alice c) (rc_bob c) k params sig node = Ok (am, bm) \<and>
        ks = \<lparr>alice_module = am, bob_module = bm, alice_key = rc_alice c, bob_key = rc_bob c,
              ks_kex = k, ks_sig = sig, ks_pq_node = node, ks_params = params\<rparr>)"
  using derive_keys_length [OF assms, of ss prev] assms
  by (auto simp: generate_recursive_keystore_def derived_chain_def recursive_chain_new_def Let_def
      sound_hash_def split: prod.splits)

lemma keys_to_aead_store_total:
  assumes "encryption_algorithm params = Kyber \<Longrightarrow> sig \<noteq> None"
  shows "\<exists>am bm. keys_to_aead_store lib ak bk k params sig node = Ok (am, bm)"
  using assms
  by (cases "encryption_algorithm params"; cases node; cases sig)
    (auto simp: keys_to_aead_store_def Let_def)

text \<open>The key the two sides pick out of their stores.\<close>

definition seal_module :: "pq_node \<Rightarrow> aead_module option \<times> aead_module option \<Rightarrow> aead_module option" where
  "seal_module node mods = (case node of Alice \<Rightarrow> fst mods | Bob \<Rightarrow> snd mods)"

definition open_module ::
    "crypto_parameters \<Rightarrow> pq_node \<Rightarrow> aead_module option \<times> aead_module option \<Rightarrow> aead_module option" where
  "open_module params node mods =
     (if encryption_algorithm params = Kyber then seal_module node mods
      else case node of Alice \<Rightarrow> snd mods | Bob \<Rightarrow> fst mods)"

lemma aead_store_pair:
  assumes sound: "sound_lib lib"
    and store: "keys_to_aead_store lib ak bk ka params sa na = Ok mods_a"
      "keys_to_aead_store lib ak bk kb params sb nb = Ok mods_b"
    and sides: "na \<noteq> nb" and kex: "kex_agree lib ka kb" and sig: "sig_agree lib sa sb"
  shows "\<exists>e d. seal_module na mods_a = Some e \<and> open_module params nb mods_b = Some d \<and> aead_pair e d"
proof (cases "encryption_algorithm params")
  case AES_GCM_256_SIV
  with store sides sound show ?thesis
    by (cases na; cases nb)
      (auto simp: keys_to_aead_store_def seal_module_def open_module_def sound_lib_def
        intro: aead_pair_aes)
next
  case Xchacha20Poly_1305
  with store sides sound show ?thesis
    by (cases na; cases nb)
      (auto simp: keys_to_aead_store_def seal_module_def open_module_def sound_lib_def
        intro: aead_pair_chacha)
next
  case Kyber
  from store(1) Kyber obtain s where s: "sa = Some s"
    by (cases sa) (auto simp: keys_to_aead_store_def)
  from store(2) Kyber obtain s' where s': "sb = Some s'"
    by (cases sb) (auto simp: keys_to_aead_store_def)
  define a where "a = \<lparr>ky_kem_alg = kem_algorithm params, ky_sig_alg = sig_algorithm params, ky_kex = ka,
    ky_sig = s, symmetric_key_local = aes_module lib (case na of Alice \<Rightarrow> ak | Bob \<Rightarrow> bk),
    symmetric_key_remote = aes_module lib (case na of Alice \<Rightarrow> bk | Bob \<Rightarrow> ak)\<rparr>"
  define b where "b = \<lparr>ky_kem_alg = kem_algorithm params, ky_sig_alg = sig_algorithm params, ky_kex = kb,
    ky_sig = s', symmetric_key_local = aes_module lib (case nb of Alice \<Rightarrow> ak | Bob \<Rightarrow> bk),
    symmetric_key_remote = aes_module lib (case nb of Alice \<Rightarrow> bk | Bob \<Rightarrow> ak)\<rparr>"
  have "seal_module na mods_a = Some (kyber_module lib a)"
    "open_module params nb mods_b = Some (kyber_module lib b)"
    using store Kyber s s'
    by (auto simp: keys_to_aead_store_def seal_module_def open_module_def a_def b_def Let_def
        split: pq_node.splits)
  moreover have "kyber_peers lib a b"
    using sides sound kex sig s s' aead_pair_aes [of lib]
    by (cases na; cases nb) (auto simp: kyber_peers_def a_def b_def kex_agree_def sound_lib_def)
  then have "aead_pair (kyber_module lib a) (kyber_module lib b)"
    using sound by (intro aead_pair_kyber) (auto simp: sound_lib_def a_def)
  ultimately show ?thesis by blast
qed

lemma get_keys_by_module:
  assumes "pq_key_store self = Some ks" and "alice_module ks = am" and "bob_module ks = bm"
  shows "get_encryption_key self = seal_module (pq_node_type self) (am, bm)"
    and "get_decryption_key self = open_module (pq_params self) (pq_node_type self) (am, bm)"
  using assms
  by (auto simp: get_encryption_key_def get_decryption_key_def seal_module_def open_module_def
      split: pq_node.split)

text \<open>What both ends share once the exchange is over.\<close>

definition pqc_agree :: "pqc \<Rightarrow> pqc \<Rightarrow> bool" where
  "pqc_agree a b \<longleftrightarrow>
     pq_params a = pq_params b \<and> pq_chain a = pq_chain b \<and> pq_chain a \<noteq> None \<and>
     pq_ara a = ara_default \<and> pq_ara b = ara_default \<and> pqc_opens a b \<and> pqc_opens b a"

lemma pqc_new_alice_Ok:
  "pqc_new_alice lib r opts = Ok alice \<longleftrightarrow>
     validate_crypto_params (opts_params opts) = Ok () \<and>
     (\<exists>a. meta_new_alice lib r (kem_algorithm (opts_params opts)) (sig_algorithm (opts_params opts)) = Ok a \<and>
        alice = \<lparr>pq_params = opts_params opts, pq_data = a, pq_chain = co_chain opts, pq_ara = ara_default,
          pq_key_store = None, pq_node_type = Alice\<rparr>)"
  by (auto simp: pqc_new_alice_def Let_def)

lemma pqc_new_bob_OkE:
  assumes "pqc_new_bob lib r opts m = Ok bob"
  obtains b ss chain keys where "meta_new_bob lib r m = Ok b" "get_shared_secret b = Ok ss"
    "generate_recursive_keystore lib Bob (opts_params opts) (meta_sig b) ss (co_chain opts)
       (meta_kex b) = Ok (chain, keys)"
    "bob = \<lparr>pq_params = opts_params opts, pq_data = b, pq_chain = Some chain, pq_ara = ara_default,
       pq_key_store = Some keys, pq_node_type = Bob\<rparr>"
  using assms that by (auto simp: pqc_new_bob_def Let_def unwrap_Ok_iff)

text \<open>Containers of the two sides with these key stores open each other's packets.\<close>

definition stores_open :: "crypto_parameters \<Rightarrow> key_store \<Rightarrow> key_store \<Rightarrow> bool" where
  "stores_open params ka kb \<longleftrightarrow>
     (\<forall>a b. pq_params a = params \<and> pq_node_type a = Alice \<and> pq_key_store a = Some ka \<and>
        pq_params b = params \<and> pq_node_type b = Bob \<and> pq_key_store b = Some kb \<longrightarrow>
        pqc_opens a b \<and> pqc_opens b a)"

lemma keystores_agree:
  assumes sound: "sound_lib lib" and valid: "validate_crypto_params params = Ok ()"
    and bob: "generate_recursive_keystore lib Bob params sb ss prev kb = Ok (chain, keys)"
    and kex: "kex_agree lib ka kb" "kex_agree lib kb ka"
    and sig: "sig_agree lib sa sb" "sig_agree lib sb sa" "sb = None \<longleftrightarrow> sig_algorithm params = SigNone"
  shows "\<exists>ks. generate_recursive_keystore lib Alice params sa ss prev ka = Ok (chain, ks) \<and>
     stores_open params ks keys"
proof -
  have hash: "sound_hash lib" using sound by (simp add: sound_lib_def)
  have "sa = None \<longleftrightarrow> sb = None"
    using sig(1) by (cases sa; cases sb) auto
  with valid sig(3) have "encryption_algorithm params = Kyber \<Longrightarrow> sa \<noteq> None"
    by (cases "kem_algorithm params") (auto simp: validate_crypto_params_def split: if_splits)
  then obtain am bm where store: "keys_to_aead_store lib (rc_alice chain) (rc_bob chain) ka
      params sa Alice = Ok (am, bm)"
    using keys_to_aead_store_total by blast
  from bob obtain am' bm' where store': "keys_to_aead_store lib (rc_alice chain) (rc_bob chain)
      kb params sb Bob = Ok (am', bm')"
    and mods: "alice_module keys = am'" "bob_module keys = bm'"
    and chain: "chain = derived_chain lib ss prev"
    by (auto simp: generate_recursive_keystore_Ok [OF hash])
  define ks where "ks = \<lparr>alice_module = am, bob_module = bm, alice_key = rc_alice chain,
    bob_key = rc_bob chain, ks_kex = ka, ks_sig = sa, ks_pq_node = Alice, ks_params = params\<rparr>"
  have ks: "alice_module ks = am" "bob_module ks = bm" by (simp_all add: ks_def)
  have "generate_recursive_keystore lib Alice params sa ss prev ka = Ok (chain, ks)"
    using store by (auto simp: generate_recursive_keystore_Ok [OF hash] chain ks_def)
  moreover have "stores_open params ks keys"
    unfolding stores_open_def
  proof (intro allI impI)
    fix a b :: pqc
    assume "pq_params a = params \<and> pq_node_type a = Alice \<and> pq_key_store a = Some ks \<and>
        pq_params b = params \<and> pq_node_type b = Bob \<and> pq_key_store b = Some keys"
    then show "pqc_opens a b \<and> pqc_opens b a"
      using aead_store_pair [OF sound store store' _ kex(1) sig(1)]
        aead_store_pair [OF sound store' store _ kex(2) sig(2)]
      by (auto simp: pqc_opens_def get_keys_by_module [where self = a, OF _ ks]
          get_keys_by_module [where self = b, OF _ mods])
  qed
  ultimately show ?thesis by blast
qed

lemma pqc_exchange:
  assumes sound: "sound_lib lib"
    and alice: "pqc_new_alice lib ra opts_a = Ok alice"
    and a2b: "generate_alice_to_bob_transfer lib r1 alice = Ok m1"
    and bob: "pqc_new_bob lib rb opts_b m1 = Ok bob"
    and b2a: "generate_bob_to_alice_transfer lib r2 bob = Ok m2"
    and opts: "opts_params opts_a = opts_params opts_b" "co_chain opts_a = co_chain opts_b"
  shows "\<exists>alice'. alice_on_receive_ciphertext lib m2 alice = Ok alice' \<and> pqc_agree alice' bob"
proof -
  let ?params = "opts_params opts_a" and ?prev = "co_chain opts_a"
  from alice obtain a where valid: "validate_crypto_params ?params = Ok ()"
    and a: "meta_new_alice lib ra (kem_algorithm ?params) (sig_algorithm ?params) = Ok a"
    and alice_eq: "alice = \<lparr>pq_params = ?params, pq_data = a, pq_chain = ?prev, pq_ara = ara_default,
      pq_key_store = None, pq_node_type = Alice\<rparr>"
    by (auto simp: pqc_new_alice_Ok)
  from bob obtain b ss chain keys where b: "meta_new_bob lib rb m1 = Ok b"
    and ss: "get_shared_secret b = Ok ss"
    and kb: "generate_recursive_keystore lib Bob ?params (meta_sig b) ss ?prev (meta_kex b) = Ok (chain, keys)"
    and bob_eq: "bob = \<lparr>pq_params = ?params, pq_data = b, pq_chain = Some chain, pq_ara = ara_default,
      pq_key_store = Some keys, pq_node_type = Bob\<rparr>"
    unfolding opts by (rule pqc_new_bob_OkE)
  have msgs: "meta_generate_alice_to_bob lib r1 a = Ok m1" "meta_generate_bob_to_alice lib r2 b = Ok m2"
    using a2b b2a
    by (simp_all add: alice_eq bob_eq generate_alice_to_bob_transfer_def generate_bob_to_alice_transfer_def)
  have kem: "sound_kem lib" "sound_sig lib"
    using sound by (simp_all add: sound_lib_def)
  from meta_exchange [OF kem a msgs(1) b msgs(2)] obtain a' where a': "meta_alice_on_receive_ciphertext lib m2 a = Ok a'"
    and ag: "kex_agree lib (meta_kex a') (meta_kex b)" "kex_agree lib (meta_kex b) (meta_kex a')"
      "sig_agree lib (meta_sig a') (meta_sig b)" "sig_agree lib (meta_sig b) (meta_sig a')"
      "meta_sig b = None \<longleftrightarrow> sig_algorithm ?params = SigNone"
    by (elim exE conjE) (rule that)
  obtain ks where
    ks: "generate_recursive_keystore lib Alice ?params (meta_sig a') ss ?prev (meta_kex a') = Ok (chain, ks)"
    and opens: "stores_open ?params ks keys"
    using keystores_agree [OF sound valid kb ag] by blast
  define alice' where "alice' = alice\<lparr>pq_data := a', pq_key_store := Some ks, pq_chain := Some chain\<rparr>"
  have "get_shared_secret a' = Ok ss"
    using ss ag(1) by (auto simp: get_shared_secret_def kex_agree_def)
  with a' ks have "alice_on_receive_ciphertext lib m2 alice = Ok alice'"
    by (simp add: alice_on_receive_ciphertext_def load_symmetric_keys_def alice_eq alice'_def)
  moreover have "pqc_opens alice' bob \<and> pqc_opens bob alice'"
    using opens by (simp add: stores_open_def alice'_def alice_eq bob_eq)
  then have "pqc_agree alice' bob"
    by (simp add: pqc_agree_def alice'_def alice_eq bob_eq)
  ultimately show ?thesis by blast
qed

end
