(* ===== verification/Secure_Channel.thy ===== *)
theory Secure_Channel
  imports PQ_Container
begin

text \<open>
  What two containers that completed the key exchange give their users: agreement on the keys, and
  a packet channel. The receiver of the channel refines the anti-replay container: its outcomes are
  the verdicts of the container on the packet identifiers inside the packets. The theory also shows
  what cloning does to the container of Bob.
\<close>

section \<open>Sending and receiving sequences of packets\<close>

text \<open>A message to send: random bytes, header, payload and nonce. A packet on the wire: header,
  sealed payload and nonce.\<close>

type_synonym message = "rnd \<times> bytes \<times> bytes \<times> bytes"
type_synonym wire_packet = "bytes \<times> bytes \<times> bytes"

fun msg_header :: "message \<Rightarrow> bytes" where "msg_header (r, header, payload, nonce) = header"

fun msg_payload :: "message \<Rightarrow> bytes" where "msg_payload (r, header, payload, nonce) = payload"

fun msg_nonce :: "message \<Rightarrow> bytes" where "msg_nonce (r, header, payload, nonce) = nonce"

fun protect_step :: "pqc \<Rightarrow> message \<Rightarrow> (bytes, pq_error) result \<times> pqc" where
  "protect_step self (r, header, payload, nonce) =
     protect_packet_in_place r self (length header) (header @ payload) nonce"

fun validate_step :: "pqc \<Rightarrow> wire_packet \<Rightarrow> (bytes, pq_error) result \<times> pqc" where
  "validate_step self (header, sealed, nonce) = validate_packet_in_place self header sealed nonce"

definition on_wire :: "message \<Rightarrow> bytes \<Rightarrow> wire_packet" where
  "on_wire m packet = (msg_header m, drop (length (msg_header m)) packet, msg_nonce m)"

text \<open>The refusal of a replayed packet.\<close>

definition replayed :: "(bytes, pq_error) result" where
  "replayed = Err (Generic ''Anti-replay-attack: invalid'')"

section \<open>The receiver refines the anti-replay container\<close>

fun opened :: "aead_module \<Rightarrow> wire_packet \<Rightarrow> bytes" where
  "opened d (header, sealed, nonce) =
     (case decrypt_in_place d InPlaceBuffer nonce header sealed of Ok x \<Rightarrow> x | _ \<Rightarrow> [])"

definition packet_pid :: "aead_module \<Rightarrow> wire_packet \<Rightarrow> u64" where
  "packet_pid d w = u64_of_be (drop (length (opened d w) - 8) (opened d w))"

definition packet_outcome :: "aead_module \<Rightarrow> wire_packet \<Rightarrow> bool \<Rightarrow> (bytes, pq_error) result" where
  "packet_outcome d w fresh =
     (if fresh then Ok (take (length (opened d w) - 8) (opened d w)) else replayed)"

lemma key_frame [simp]:
  "get_encryption_key (self\<lparr>pq_ara := a\<rparr>) = get_encryption_key self"
  "get_decryption_key (self\<lparr>pq_ara := a\<rparr>) = get_decryption_key self"
  by (simp_all add: get_encryption_key_def get_decryption_key_def)

lemma validate_packet_opened:
  assumes "get_decryption_key self = Some d" and "8 \<le> length (opened d w)"
  shows "validate_step self w =
     (packet_outcome d w (fst (on_pid_received (pq_ara self) (packet_pid d w))),
      self\<lparr>pq_ara := snd (on_pid_received (pq_ara self) (packet_pid d w))\<rparr>)"
  using assms
  by (cases w)
    (auto simp: validate_packet_in_place_def packet_outcome_def packet_pid_def replayed_def Let_def
      split: result.splits prod.split)

interpretation receiver: refinement validate_step on_pid_received pq_ara "packet_pid d"
  "packet_outcome d" "\<lambda>self. get_decryption_key self = Some d" "\<lambda>w. 8 \<le> length (opened d w)" for d
  by unfold_locales (simp_all add: validate_packet_opened)

section \<open>What the sender puts on the wire\<close>

lemma protect_step_sealed:
  assumes key: "get_encryption_key self = Some e" and pair: "aead_pair e d"
    and step: "protect_step self m = (Ok packet, self')" and small: "length packet < 2 ^ 64"
  shows "opened d (on_wire m packet) = msg_payload m @ u64_to_be (counter_out (pq_ara self))"
    and "self' = self\<lparr>pq_ara := (pq_ara self)\<lparr>counter_out := counter_out (pq_ara self) + 1\<rparr>\<rparr>"
proof -
  obtain r h x n where m: "m = (r, h, x, n)" by (cases m)
  from step key obtain c where
    c: "encrypt_in_place e r n h (x @ u64_to_be (counter_out (pq_ara self))) = Ok c" and
    packet: "packet = h @ c"
    by (auto simp: m protect_packet_in_place_def Let_def get_next_pid_def)
  show "opened d (on_wire m packet) = msg_payload m @ u64_to_be (counter_out (pq_ara self))"
    using pair c small by (simp add: aead_pair_def on_wire_def m packet)
  show "self' = self\<lparr>pq_ara := (pq_ara self)\<lparr>counter_out := counter_out (pq_ara self) + 1\<rparr>\<rparr>"
    using step key by (auto simp: m protect_packet_in_place_def Let_def get_next_pid_def)
qed

lemma protect_run_sealed:
  assumes "get_encryption_key self = Some e" and "aead_pair e d"
    and "fst (run protect_step self msgs) = map Ok packets" and "\<forall>p \<in> set packets. length p < 2 ^ 64"
  shows "length packets = length msgs \<and> (\<forall>i < length msgs.
     opened d (on_wire (msgs ! i) (packets ! i)) =
       msg_payload (msgs ! i) @ u64_to_be (counter_out (pq_ara self) + word_of_nat i))"
  using assms
proof (induction msgs arbitrary: self packets)
  case (Cons m ms)
  obtain res self' where step: "protect_step self m = (res, self')" by fastforce
  with Cons.prems(3) obtain p ps where packets: "packets = p # ps" "res = Ok p"
    "fst (run protect_step self' ms) = map Ok ps"
    by (cases packets) (auto simp: run_Cons_fst simp del: run.simps(2))
  note sealed = protect_step_sealed [OF Cons.prems(1,2) step [unfolded packets(2)]]
  have "get_encryption_key self' = Some e"
    using sealed(2) Cons.prems(1,4) by (simp add: packets(1))
  then have IH: "length ps = length ms \<and> (\<forall>i < length ms. opened d (on_wire (ms ! i) (ps ! i)) =
      msg_payload (ms ! i) @ u64_to_be (counter_out (pq_ara self') + word_of_nat i))"
    using Cons.prems(2,4) packets by (intro Cons.IH) auto
  show ?case
  proof (intro conjI allI impI)
    show "length packets = length (m # ms)" using IH packets by simp
    fix i assume "i < length (m # ms)"
    then show "opened d (on_wire ((m # ms) ! i) (packets ! i)) = msg_payload ((m # ms) ! i) @
        u64_to_be (counter_out (pq_ara self) + word_of_nat i)"
      using IH sealed Cons.prems(4) packets(1) by (cases i) (auto simp: add.assoc)
  qed
qed simp

section \<open>The channel\<close>

text \<open>
  The sender protects the messages \<open>msgs\<close>; the network then delivers the packets with the indices
  \<open>order\<close>, in that order, with repetitions and losses.
\<close>

definition deliver :: "pqc \<Rightarrow> message list \<Rightarrow> bytes list \<Rightarrow> nat list \<Rightarrow> (bytes, pq_error) result list" where
  "deliver bob msgs packets order =
     fst (run validate_step bob (map (\<lambda>i. on_wire (msgs ! i) (packets ! i)) order))"

definition channel_run :: "pqc \<Rightarrow> pqc \<Rightarrow> message list \<Rightarrow> bytes list \<Rightarrow> nat list \<Rightarrow> bool" where
  "channel_run alice bob msgs packets order \<longleftrightarrow>
     pqc_opens alice bob \<and> pq_ara alice = ara_default \<and> pq_ara bob = ara_default \<and>
     fst (run protect_step alice msgs) = map Ok packets \<and> (\<forall>p \<in> set packets. length p < 2 ^ 64) \<and>
     length msgs \<le> 2 ^ 64 \<and> (\<forall>i \<in> set order. i < length msgs)"

lemma deliver_outcomes:
  assumes "channel_run alice bob msgs packets order"
  shows "deliver bob msgs packets order =
     map2 (\<lambda>i fresh. if fresh then Ok (msg_payload (msgs ! i)) else replayed) order
       (arrivals (map word_of_nat order))"
proof -
  from assms obtain e d where keys: "get_encryption_key alice = Some e"
    "get_decryption_key bob = Some d" "aead_pair e d"
    and run: "fst (run protect_step alice msgs) = map Ok packets"
    and small: "\<forall>p \<in> set packets. length p < 2 ^ 64" and idx: "\<forall>i \<in> set order. i < length msgs"
    and ara: "pq_ara alice = ara_default" "pq_ara bob = ara_default"
    by (auto simp: channel_run_def pqc_opens_def)
  let ?w = "\<lambda>i. on_wire (msgs ! i) (packets ! i)"
  have op: "opened d (?w i) = msg_payload (msgs ! i) @ u64_to_be (word_of_nat i)"
    if "i \<in> set order" for i
    using protect_run_sealed [OF keys(1,3) run small] idx that by (simp add: ara ara_default_def)
  have "list_all (\<lambda>w. 8 \<le> length (opened d w)) (map ?w order)"
    by (simp add: list_all_iff op)
  with receiver.run_refines [of bob d "map ?w order"] keys(2)
  have "deliver bob msgs packets order = map2 (packet_outcome d) (map ?w order)
      (fst (run on_pid_received ara_default (map (packet_pid d) (map ?w order))))"
    by (simp add: deliver_def ara)
  also have "map (packet_pid d) (map ?w order) = map word_of_nat order"
    by (simp add: packet_pid_def op)
  also have "map2 (packet_outcome d) (map ?w order) (fst (run on_pid_received ara_default (map word_of_nat order)))
      = map2 (\<lambda>i fresh. if fresh then Ok (msg_payload (msgs ! i)) else replayed) order
          (arrivals (map word_of_nat order))"
    by (auto simp: map_zip_map arrivals_def packet_outcome_def op dest!: set_zip_leftD)
  finally show ?thesis .
qed

lemma pid_injective:
  assumes "channel_run alice bob msgs packets order" and "i \<in> set order"
  shows "(word_of_nat i :: u64) \<in> set (map word_of_nat (take k order)) \<longleftrightarrow> i \<in> set (take k order)"
proof -
  have "i < 2 ^ 64" "\<And>j. j \<in> set (take k order) \<Longrightarrow> j < 2 ^ 64"
    using assms by (auto simp: channel_run_def dest!: in_set_takeD)
  then have "word_of_nat i = (word_of_nat j :: u64) \<longleftrightarrow> i = j" if "j \<in> set (take k order)" for j
    using that by (simp add: word_of_nat_eq_iff take_bit_nat_eq_self)
  then show ?thesis by auto
qed

lemma nth_deliver:
  assumes "channel_run alice bob msgs packets order" and "k < length order"
  shows "deliver bob msgs packets order ! k =
     (if arrivals (map word_of_nat order) ! k then Ok (msg_payload (msgs ! (order ! k))) else replayed)"
  using assms by (simp add: deliver_outcomes)

section \<open>Concrete containers\<close>

definition demo_node :: "pq_node \<Rightarrow> pqc" where
  "demo_node node =
     \<lparr>pq_params = default_crypto_parameters,
      pq_data = PureSymmetricEncryption (ky_kex demo_kyber), pq_chain = None, pq_ara = ara_default,
      pq_key_store = Some
        \<lparr>alice_module = Some (aes_module demo_lib [3]), bob_module = Some (aes_module demo_lib [4]),
         alice_key = [3], bob_key = [4], ks_kex = ky_kex demo_kyber, ks_sig = None, ks_pq_node = node,
         ks_params = default_crypto_parameters\<rparr>,
      pq_node_type = node\<rparr>"

definition demo_msgs :: "message list" where
  "demo_msgs = [(\<lambda>_. 0, [1], [10, 11], replicate 12 0), (\<lambda>_. 0, [2], [20], replicate 12 1)]"

definition demo_packets :: "bytes list" where
  "demo_packets = [[1, 10, 11] @ u64_to_be 0 @ replicate 16 0, [2, 20] @ u64_to_be 1 @ replicate 16 0]"

lemma demo_channel: "channel_run (demo_node Alice) (demo_node Bob) demo_msgs demo_packets [1, 0, 1]"
proof -
  have "pqc_opens (demo_node Alice) (demo_node Bob)"
    using aead_pair_aes [OF demo_lib_sound(1)]
    by (simp add: pqc_opens_def demo_node_def get_encryption_key_def get_decryption_key_def
        default_crypto_parameters_def)
  moreover have "fst (run protect_step (demo_node Alice) demo_msgs) = map Ok demo_packets"
    by (simp add: demo_msgs_def demo_packets_def protect_packet_in_place_def demo_node_def Let_def
        get_next_pid_def get_encryption_key_def aes_module_def demo_lib_def nonce_len_defs ara_default_def)
  ultimately show ?thesis
    by (simp add: channel_run_def demo_packets_def demo_msgs_def) (simp add: demo_node_def)
qed

definition demo_opts :: constructor_opts where
  "demo_opts = opts_new_init (Some
     \<lparr>encryption_algorithm = Kyber, kem_algorithm = KemKyber, sig_algorithm = Falcon1024\<rparr>)"

lemma demo_sound_lib: "sound_lib demo_lib"
  using demo_lib_sound
  by (simp add: sound_lib_def sound_kem_def sound_sig_def) (simp add: demo_lib_def)

lemma demo_exchange:
  "\<exists>alice m1 bob m2. pqc_new_alice demo_lib (\<lambda>_. 1) demo_opts = Ok alice \<and>
     generate_alice_to_bob_transfer demo_lib (\<lambda>_. 2) alice = Ok m1 \<and>
     pqc_new_bob demo_lib (\<lambda>_. 3) demo_opts m1 = Ok bob \<and>
     generate_bob_to_alice_transfer demo_lib (\<lambda>_. 4) bob = Ok m2"
proof -
  obtain a where a: "meta_new_alice demo_lib (\<lambda>_. 1) KemKyber Falcon1024 = Ok a"
    "\<exists>m. meta_generate_alice_to_bob demo_lib (\<lambda>_. 2) a = Ok m \<and> (\<exists>b. meta_new_bob demo_lib (\<lambda>_. 3) m = Ok b \<and>
       (\<exists>ss m2. get_shared_secret b = Ok ss \<and> meta_sig b \<noteq> None \<and>
          meta_generate_bob_to_alice demo_lib (\<lambda>_. 4) b = Ok m2))"
    by (simp add: meta_new_alice_def meta_new_bob_def demo_lib_def signature_keypair_def get_sig_def
        signature_sign_def signature_verify_def get_shared_secret_def meta_generate_bob_to_alice_def
        get_ciphertext_def Let_def)
  then obtain m b ss m2 where b: "meta_generate_alice_to_bob demo_lib (\<lambda>_. 2) a = Ok m"
    "meta_new_bob demo_lib (\<lambda>_. 3) m = Ok b" "get_shared_secret b = Ok ss" "meta_sig b \<noteq> None"
    "meta_generate_bob_to_alice demo_lib (\<lambda>_. 4) b = Ok m2"
    by blast
  let ?p = "opts_params demo_opts"
  obtain am bm where "keys_to_aead_store demo_lib (rc_alice (derived_chain demo_lib ss None))
      (rc_bob (derived_chain demo_lib ss None)) (meta_kex b) ?p (meta_sig b) Bob = Ok (am, bm)"
    using keys_to_aead_store_total b(4) by metis
  then have "\<exists>ks. generate_recursive_keystore demo_lib Bob ?p (meta_sig b) ss None (meta_kex b) =
      Ok (derived_chain demo_lib ss None, ks)"
    by (simp add: generate_recursive_keystore_Ok demo_lib_sound)
  then show ?thesis
    using a(1) b
    by (auto simp: pqc_new_alice_def pqc_new_bob_def demo_opts_def validate_crypto_params_def Let_def
        generate_alice_to_bob_transfer_def generate_bob_to_alice_transfer_def)
qed

section \<open>Cloning\<close>

text \<open>The cipher modules of a key store are the ones its keys give, for the side the container is.\<close>

definition pqc_wf :: "crypto_lib \<Rightarrow> pqc \<Rightarrow> bool" where
  "pqc_wf lib self \<longleftrightarrow>
     (\<forall>ks. pq_key_store self = Some ks \<longrightarrow>
        keys_to_aead_store lib (alice_key ks) (bob_key ks) (ks_kex ks) (ks_params ks) (ks_sig ks)
          (ks_pq_node ks) = Ok (alice_module ks, bob_module ks) \<and>
        ks_params ks = pq_params self \<and> ks_pq_node ks = pq_node_type self)"

text \<open>The bincode codec reads back what it wrote.\<close>

definition sound_codec :: "('a \<Rightarrow> 'b option) \<Rightarrow> ('b \<Rightarrow> 'a option) \<Rightarrow> bool" where
  "sound_codec ser de \<longleftrightarrow> (\<forall>x. \<exists>b. ser x = Some b \<and> de b = Some x)"

lemma new_bob_wf:
  assumes "sound_hash lib" and "pqc_new_bob lib r opts m = Ok bob"
  shows "pqc_wf lib bob" and "\<exists>ks. pq_key_store bob = Some ks" and "pq_node_type bob = Bob"
    and "pq_params bob = opts_params opts"
  using assms(2)
  by (auto elim!: pqc_new_bob_OkE
      simp: pqc_wf_def generate_recursive_keystore_Ok [OF assms(1)])

lemma alice_on_receive_wf:
  assumes "sound_hash lib" and "alice_on_receive_ciphertext lib m alice = Ok alice'"
  shows "pqc_wf lib alice'"
  using assms(2)
  by (auto simp: alice_on_receive_ciphertext_def load_symmetric_keys_def pqc_wf_def
      generate_recursive_keystore_Ok [OF assms(1)])

definition forget_side :: "pqc \<Rightarrow> pqc" where
  "forget_side self = self\<lparr>pq_key_store := map_option (\<lambda>ks. ks\<lparr>ks_pq_node := Alice\<rparr>) (pq_key_store self)\<rparr>"

lemma pqc_import_export:
  assumes "\<And>ks. pq_key_store self = Some ks \<Longrightarrow>
     keys_to_aead_store lib (alice_key ks) (bob_key ks) (ks_kex ks) (ks_params ks) (ks_sig ks)
       (ks_pq_node ks) = Ok (alice_module ks, bob_module ks)"
  shows "pqc_import lib (pqc_export self) = Ok (forget_side self)"
proof (cases "pq_key_store self")
  case (Some ks)
  with assms [OF Some] have "key_store_from lib (key_store_export ks) = Ok (ks\<lparr>ks_pq_node := Alice\<rparr>)"
    by (simp add: key_store_from_def key_store_export_def)
  with Some show ?thesis
    by (simp add: pqc_import_def pqc_export_def forget_side_def)
qed (simp add: pqc_import_def pqc_export_def forget_side_def)

lemma pqc_wf_modules:
  "pqc_wf lib self \<Longrightarrow> pq_key_store self = Some ks \<Longrightarrow>
   keys_to_aead_store lib (alice_key ks) (bob_key ks) (ks_kex ks) (ks_params ks) (ks_sig ks)
     (ks_pq_node ks) = Ok (alice_module ks, bob_module ks)"
  unfolding pqc_wf_def by blast

lemma forget_side_keys [simp]:
  "get_encryption_key (forget_side self) = get_encryption_key self"
  "get_decryption_key (forget_side self) = get_decryption_key self"
  by (cases "pq_key_store self";
      auto simp: get_encryption_key_def get_decryption_key_def forget_side_def split: pq_node.split)+

lemma forget_side_idem: "forget_side (forget_side self) = forget_side self"
  by (cases "pq_key_store self") (simp_all add: forget_side_def)

lemma keys_to_aead_store_side:
  "encryption_algorithm params \<noteq> Kyber \<Longrightarrow>
   keys_to_aead_store lib ak bk k params sig node = keys_to_aead_store lib ak bk k params sig node'"
  by (cases "encryption_algorithm params") (simp_all add: keys_to_aead_store_def)

lemma pqc_clone_import:
  assumes "sound_codec ser de"
  shows "pqc_clone lib ser de self = unwrap (ok (pqc_import lib (pqc_export self)))"
proof -
  obtain b where b: "ser (pqc_export self) = Some b" "de b = Some (pqc_export self)"
    using assms by (auto simp: sound_codec_def)
  then show ?thesis
    by (simp add: pqc_clone_def serialize_to_vector_def deserialize_from_bytes_def)
qed

section \<open>Properties\<close>

text \<open>
  C2: The key exchange succeeds and agrees: when Alice and Bob start from the same parameters and the
  same previous chain and Bob answers Alice's transfer, Alice's last step cannot fail, both ends hold
  the same recursive chain, and each end opens what the other seals (for AES, ChaCha and Kyber alike).
\<close>

theorem handshake_key_agreement:
  assumes "sound_lib lib"
    and "pqc_new_alice lib ra opts_a = Ok alice"
    and "generate_alice_to_bob_transfer lib r1 alice = Ok m1"
    and "pqc_new_bob lib rb opts_b m1 = Ok bob"
    and "generate_bob_to_alice_transfer lib r2 bob = Ok m2"
    and "opts_params opts_a = opts_params opts_b" "co_chain opts_a = co_chain opts_b"
  shows "\<exists>alice'. alice_on_receive_ciphertext lib m2 alice = Ok alice' \<and> pqc_agree alice' bob"
  using assms by (rule pqc_exchange)

theorem handshake_key_agreement_witness:
  "\<exists>alice m1 bob m2 alice'. pqc_new_alice demo_lib (\<lambda>_. 1) demo_opts = Ok alice \<and>
     generate_alice_to_bob_transfer demo_lib (\<lambda>_. 2) alice = Ok m1 \<and>
     pqc_new_bob demo_lib (\<lambda>_. 3) demo_opts m1 = Ok bob \<and>
     generate_bob_to_alice_transfer demo_lib (\<lambda>_. 4) bob = Ok m2 \<and>
     alice_on_receive_ciphertext demo_lib m2 alice = Ok alice' \<and> pqc_agree alice' bob"
proof -
  from demo_exchange obtain alice m1 bob m2 where run: "pqc_new_alice demo_lib (\<lambda>_. 1) demo_opts = Ok alice"
    "generate_alice_to_bob_transfer demo_lib (\<lambda>_. 2) alice = Ok m1"
    "pqc_new_bob demo_lib (\<lambda>_. 3) demo_opts m1 = Ok bob"
    "generate_bob_to_alice_transfer demo_lib (\<lambda>_. 4) bob = Ok m2"
    by (elim exE conjE) (rule that)
  from handshake_key_agreement [OF demo_sound_lib run] obtain alice' where
    "alice_on_receive_ciphertext demo_lib m2 alice = Ok alice'" "pqc_agree alice' bob"
    by auto
  with run show ?thesis by (intro exI conjI)
qed

text \<open>
  C4: No packet is lost to reordering: whatever the network delivered before (in any order, with any
  repetitions), the first arrival of a packet gives its payload.
\<close>

theorem channel_delivers_first_arrival:
  assumes "channel_run alice bob msgs packets order" and "length order < 2 ^ 64"
    and "k < length order" and "order ! k \<notin> set (take k order)"
  shows "deliver bob msgs packets order ! k = Ok (msg_payload (msgs ! (order ! k)))"
proof -
  have "word_of_nat (order ! k) \<notin> set (map word_of_nat (take k order) :: u64 list)"
    using pid_injective [OF assms(1)] assms(3,4) by simp
  then have "arrivals (map word_of_nat order) ! k"
    using assms(2,3) fresh_pid_accepted [of "map word_of_nat (take k order)"]
    by (simp add: nth_arrivals take_map)
  then show ?thesis using assms(1,3) by (simp add: nth_deliver)
qed

theorem channel_delivers_first_arrival_witness:
  "deliver (demo_node Bob) demo_msgs demo_packets [1, 0, 1] ! 1 = Ok [10, 11]"
  using channel_delivers_first_arrival [OF demo_channel, of 1] by (simp add: demo_msgs_def)

text \<open>
  C3: Within the replay window the channel is exactly-once: as long as at most \<open>HISTORY_LEN\<close> different
  packets arrived, an arrival gives the payload the first time and the replay error every later time.
\<close>

theorem channel_exactly_once:
  assumes "channel_run alice bob msgs packets order" and "card (set order) \<le> unat HISTORY_LEN"
    and "k < length order"
  shows "deliver bob msgs packets order ! k =
     (if order ! k \<in> set (take k order) then replayed else Ok (msg_payload (msgs ! (order ! k))))"
proof -
  have "card (set (map word_of_nat order :: u64 list)) \<le> unat HISTORY_LEN"
    using card_image_le [of "set order" "word_of_nat :: nat \<Rightarrow> u64"] assms(2) by simp
  then have "arrivals (map word_of_nat order) = ideal_filter {} (map word_of_nat order)"
    using run_ideal [of ara_default "map word_of_nat order"]
    by (simp add: arrivals_def ara_default_def)
  then show ?thesis
    using assms(3) pid_injective [OF assms(1), of "order ! k" k]
    by (simp add: nth_deliver [OF assms(1,3)] nth_ideal_filter take_map)
qed

theorem channel_exactly_once_witness:
  "deliver (demo_node Bob) demo_msgs demo_packets [1, 0, 1] ! 2 = replayed"
  using channel_exactly_once [OF demo_channel, of 2]
  by (simp add: HISTORY_LEN_def card_insert_if)

text \<open>
  C17: Cloning a container keeps it: Alice's container is unchanged, and for the symmetric ciphers a
  clone of either side, and a clone of the clone, uses the same keys as the original.
\<close>

theorem clone_keeps_container:
  assumes "sound_codec ser de" and "pqc_wf lib self"
    and "pq_node_type self = Alice \<or> encryption_algorithm (pq_params self) \<noteq> Kyber"
  shows "\<exists>c1 c2. pqc_clone lib ser de self = Ok c1 \<and> pqc_clone lib ser de c1 = Ok c2 \<and>
     (pq_node_type self = Alice \<longrightarrow> c1 = self) \<and>
     get_encryption_key c2 = get_encryption_key self \<and> get_decryption_key c2 = get_decryption_key self \<and>
     get_encryption_key c1 = get_encryption_key self \<and> get_decryption_key c1 = get_decryption_key self"
proof -
  have one: "pqc_clone lib ser de self = Ok (forget_side self)"
    using pqc_import_export [OF pqc_wf_modules [OF assms(2)]] by (simp add: pqc_clone_import [OF assms(1)])
  have "keys_to_aead_store lib (alice_key ks) (bob_key ks) (ks_kex ks) (ks_params ks) (ks_sig ks)
      Alice = Ok (alice_module ks, bob_module ks)" if "pq_key_store self = Some ks" for ks
    using pqc_wf_modules [OF assms(2) that] assms(2,3) that keys_to_aead_store_side [of "ks_params ks"]
    unfolding pqc_wf_def by metis
  then have "pqc_clone lib ser de (forget_side self) = Ok (forget_side (forget_side self))"
    unfolding pqc_clone_import [OF assms(1)]
    by (subst pqc_import_export) (auto simp: forget_side_def)
  moreover have "pq_node_type self = Alice \<Longrightarrow> forget_side self = self"
    using assms(2) by (cases "pq_key_store self") (auto simp: forget_side_def pqc_wf_def)
  ultimately show ?thesis using one by (auto simp: forget_side_idem)
qed

theorem clone_keeps_container_witness:
  "sound_codec Some Some \<and> pqc_wf demo_lib (demo_node Bob) \<and>
   (\<exists>c. pqc_clone demo_lib Some Some (demo_node Bob) = Ok c \<and>
      get_encryption_key c = get_encryption_key (demo_node Bob))"
proof -
  have codec: "sound_codec Some (Some :: key_store_intermediate container \<Rightarrow> _)"
    by (simp add: sound_codec_def)
  have wf: "pqc_wf demo_lib (demo_node Bob)"
    by (simp add: pqc_wf_def demo_node_def keys_to_aead_store_def default_crypto_parameters_def)
  have "encryption_algorithm (pq_params (demo_node Bob)) \<noteq> Kyber"
    by (simp add: demo_node_def default_crypto_parameters_def)
  with codec wf show ?thesis
    using clone_keeps_container [OF codec wf] by (auto simp: sound_codec_def)
qed

text \<open>
  C18: A second clone of Bob's Kyber container is useless. \<open>KeyStore::from\<close> records Alice as the side,
  so the clone of a clone builds its only module for Alice, and Bob's encryptions all fail with
  \<open>SharedSecretNotLoaded\<close>; the first clone still works.
\<close>

theorem second_clone_of_bob_loses_key:
  assumes "sound_codec ser de" and "sound_hash lib" and "pqc_new_bob lib r opts m = Ok bob"
    and "encryption_algorithm (opts_params opts) = Kyber"
  shows "\<exists>c1 c2. pqc_clone lib ser de bob = Ok c1 \<and> pqc_clone lib ser de c1 = Ok c2 \<and>
     get_encryption_key c1 = get_encryption_key bob \<and>
     (\<forall>r input nonce. pqc_encrypt r c2 input nonce = Err SharedSecretNotLoaded)"
proof -
  note bob = new_bob_wf [OF assms(2,3)]
  from bob(2) obtain ks where ks: "pq_key_store bob = Some ks" ..
  have params: "encryption_algorithm (ks_params ks) = Kyber" "ks_pq_node ks = Bob"
    using bob ks assms(4) by (simp_all add: pqc_wf_def)
  with pqc_wf_modules [OF bob(1) ks] obtain s where s: "ks_sig ks = Some s"
    by (cases "ks_sig ks") (simp_all add: keys_to_aead_store_def)
  have one: "pqc_clone lib ser de bob = Ok (forget_side bob)"
    using pqc_import_export [OF pqc_wf_modules [OF bob(1)]] by (simp add: pqc_clone_import [OF assms(1)])
  have "\<exists>c2. pqc_clone lib ser de (forget_side bob) = Ok c2 \<and> get_encryption_key c2 = None"
    unfolding pqc_clone_import [OF assms(1)]
    by (simp add: pqc_import_def pqc_export_def forget_side_def ks key_store_from_def
        key_store_export_def keys_to_aead_store_def params s get_encryption_key_def bob(3) Let_def)
  then show ?thesis using one by (auto simp: pqc_encrypt_def)
qed

theorem second_clone_of_bob_loses_key_witness:
  "\<exists>bob c1 c2. pqc_clone demo_lib Some Some bob = Ok c1 \<and> pqc_clone demo_lib Some Some c1 = Ok c2 \<and>
     pqc_encrypt (\<lambda>_. 0) c2 [1] (replicate 32 0) = Err SharedSecretNotLoaded"
proof -
  have codec: "sound_codec Some (Some :: key_store_intermediate container \<Rightarrow> _)"
    by (simp add: sound_codec_def)
  obtain alice m bob where "pqc_new_bob demo_lib (\<lambda>_. 3) demo_opts m = Ok bob"
    using demo_exchange by blast
  from second_clone_of_bob_loses_key [OF codec demo_lib_sound(2) this] obtain c1 c2 where
    "pqc_clone demo_lib Some Some bob = Ok c1" "pqc_clone demo_lib Some Some c1 = Ok c2"
    "pqc_encrypt (\<lambda>_. 0) c2 [1] (replicate 32 0) = Err SharedSecretNotLoaded"
    by (auto simp: demo_opts_def)
  then show ?thesis by (intro exI conjI)
qed

end
