(* ===== verification/Entropy_Bank.thy ===== *)
theory Entropy_Bank
  imports Secure_Channel "HOL-Library.Multiset"
begin

text \<open>
  The entropy bank of \<open>citadel_crypt/src/entropy_bank.rs\<close>: random bytes shared by both ends, from
  which the nonces of the ciphers are derived, and the random port mapping of \<open>misc.rs\<close>. The nonce
  derivation divides by the \<open>f64\<close> constant \<open>PI\<close>; the IEEE-754 operations it uses are written out on
  natural numbers. The random shuffles are third-party: they are arguments.
\<close>

unbundle bit_operations_syntax

section \<open>IEEE-754 doubles\<close>

function bit_length :: "nat \<Rightarrow> nat" where
  "bit_length n = (if n = 0 then 0 else Suc (bit_length (n div 2)))"
  by pat_completeness auto
termination
  by (relation "measure id") auto

declare bit_length.simps [simp del]

text \<open>The quotient rounded to the nearest integer, ties to even.\<close>

definition round_div :: "nat \<Rightarrow> nat \<Rightarrow> nat" where
  "round_div a b =
     (let q = a div b; r = a mod b
      in if 2 * r < b \<or> 2 * r = b \<and> even q then q else q + 1)"

text \<open>An integer rounded to \<open>k\<close> significant bits; \<open>n as f64\<close>, as the integer it stands for.\<close>

definition round_bits :: "nat \<Rightarrow> nat \<Rightarrow> nat" where
  "round_bits k n = (let s = bit_length n - k in round_div n (2 ^ s) * 2 ^ s)"

definition u64_as_f64 :: "u64 \<Rightarrow> nat" where
  "u64_as_f64 w = round_bits 53 (unat w)"

text \<open>
  The significand of \<open>std::f64::consts::PI\<close>, which is \<open>PI_SIGNIFICAND / 2 ^ 51\<close>. The bits of \<open>n / PI\<close>
  for an integer \<open>n\<close> with at most 53 significant bits: the quotient is scaled by \<open>2 ^ 56\<close>, which
  makes it larger than \<open>2 ^ 53\<close>, and rounded to 53 significant bits.
\<close>

definition PI_SIGNIFICAND :: nat where
  "PI_SIGNIFICAND = 7074237752028440"

definition f64_div_pi_bits :: "nat \<Rightarrow> nat" where
  "f64_div_pi_bits n =
     (if n = 0 then 0
      else
        let a = n * 2 ^ 107;
            t = bit_length (a div PI_SIGNIFICAND) - 1;
            m = round_div a (PI_SIGNIFICAND * 2 ^ (t - 52))
        in (t + 967) * 2 ^ 52 + (m - 2 ^ 52))"

definition f64_div_pi_bytes :: "u64 \<Rightarrow> bytes" where
  "f64_div_pi_bytes w = be_of_nat 8 (f64_div_pi_bits (u64_as_f64 w))"

section \<open>The bank\<close>

record entropy_bank =
  eb_algorithm :: encryption_algorithm
  eb_version :: u32
  eb_cid :: u64
  entropy :: bytes
  scramble_mappings :: "(u16 \<times> u16) list"

definition PORT_RANGE :: nat where "PORT_RANGE = 14"

definition BYTES_PER_STORE :: nat where "BYTES_PER_STORE = 256"

definition create_port_mapping ::
    "(nat list \<Rightarrow> nat list) \<Rightarrow> (nat list \<Rightarrow> nat list) \<Rightarrow> (u16 \<times> u16) list" where
  "create_port_mapping shuffle_in shuffle_out =
     (let input_ports = shuffle_in [0..<PORT_RANGE];
          output_ports = shuffle_out [0..<PORT_RANGE]
      in map (\<lambda>i. (word_of_nat (input_ports ! i), word_of_nat (output_ports ! i))) [0..<PORT_RANGE])"

definition entropy_bank_new ::
    "rnd \<Rightarrow> (nat list \<Rightarrow> nat list) \<Rightarrow> (nat list \<Rightarrow> nat list) \<Rightarrow> u64 \<Rightarrow> u32 \<Rightarrow> encryption_algorithm \<Rightarrow>
     (entropy_bank, crypt_error) result" where
  "entropy_bank_new r shuffle_in shuffle_out cid version algorithm =
     Ok \<lparr>eb_algorithm = algorithm, eb_version = version, eb_cid = cid,
         entropy = random_bytes r BYTES_PER_STORE,
         scramble_mappings = create_port_mapping shuffle_in shuffle_out\<rparr>"

definition generate_public_nonce :: "rnd \<Rightarrow> encryption_algorithm \<Rightarrow> bytes" where
  "generate_public_nonce r enx_algorithm = random_bytes r (nonce_len enx_algorithm)"

definition get_nonce :: "entropy_bank \<Rightarrow> u64 \<Rightarrow> bytes" where
  "get_nonce self nonce_version =
     (let n = nonce_len (eb_algorithm self);
          raw = take n (concat (map (\<lambda>x. f64_div_pi_bytes (nonce_version + word_of_nat x))
                                 [0..<div_ceil n 8]))
      in map (\<lambda>i. raw ! i + entropy self ! (i mod BYTES_PER_STORE) + ucast nonce_version)
           [0..<length raw])"

definition crypt_err :: "('a, pq_error) result \<Rightarrow> ('a, crypt_error) result" where
  "crypt_err = map_err (\<lambda>err. Encrypt (pq_error_to_string err))"

definition encrypt_custom_nonce ::
    "rnd \<Rightarrow> entropy_bank \<Rightarrow> bytes \<Rightarrow> pqc \<Rightarrow> bytes \<Rightarrow> (bytes, crypt_error) result" where
  "encrypt_custom_nonce r self nonce quantum_container input =
     crypt_err (pqc_encrypt r quantum_container input nonce)"

definition decrypt_custom_nonce ::
    "entropy_bank \<Rightarrow> bytes \<Rightarrow> pqc \<Rightarrow> bytes \<Rightarrow> (bytes, crypt_error) result" where
  "decrypt_custom_nonce self nonce quantum_container input =
     crypt_err (pqc_decrypt quantum_container input nonce)"

definition bank_encrypt ::
    "rnd \<Rightarrow> entropy_bank \<Rightarrow> u64 \<Rightarrow> pqc \<Rightarrow> bytes \<Rightarrow> (bytes, crypt_error) result" where
  "bank_encrypt r self nonce_version quantum_container input =
     encrypt_custom_nonce r self (get_nonce self nonce_version) quantum_container input"

definition bank_decrypt ::
    "entropy_bank \<Rightarrow> u64 \<Rightarrow> pqc \<Rightarrow> bytes \<Rightarrow> (bytes, crypt_error) result" where
  "bank_decrypt self nonce_version quantum_container input =
     decrypt_custom_nonce self (get_nonce self nonce_version) quantum_container input"

definition protect_packet ::
    "rnd \<Rightarrow> entropy_bank \<Rightarrow> pqc \<Rightarrow> nat \<Rightarrow> bytes \<Rightarrow> (bytes, crypt_error) result \<times> pqc" where
  "protect_packet r self quantum_container header_len_bytes full_packet =
     (let (res, pqc') = protect_packet_in_place r quantum_container header_len_bytes full_packet
                          (get_nonce self 0)
      in (crypt_err res, pqc'))"

definition validate_packet_in_place_split ::
    "entropy_bank \<Rightarrow> pqc \<Rightarrow> bytes \<Rightarrow> bytes \<Rightarrow> (bytes, crypt_error) result \<times> pqc" where
  "validate_packet_in_place_split self quantum_container header payload =
     (let (res, pqc') = validate_packet_in_place quantum_container header payload (get_nonce self 0)
      in (crypt_err res, pqc'))"

definition get_multiport_width :: "entropy_bank \<Rightarrow> nat" where
  "get_multiport_width self = length (scramble_mappings self)"

text \<open>
  A bank is sent to the peer in its bincode form. The codec is third-party: \<open>ser\<close> and \<open>de\<close> are its two
  directions, with the message of a codec error as the error value.
\<close>

definition bank_serialize_to_vec ::
    "(entropy_bank \<Rightarrow> (bytes, string) result) \<Rightarrow> entropy_bank \<Rightarrow> (bytes, crypt_error) result" where
  "bank_serialize_to_vec ser self = map_err DrillUpdateError (ser self)"

definition bank_deserialize_from ::
    "(bytes \<Rightarrow> (entropy_bank, string) result) \<Rightarrow> bytes \<Rightarrow> (entropy_bank, crypt_error) result" where
  "bank_deserialize_from de drill = map_err DrillUpdateError (de drill)"

section \<open>Nonces have the length of the cipher\<close>

lemma length_f64_bytes [simp]: "length (f64_div_pi_bytes w) = 8"
  by (simp add: f64_div_pi_bytes_def)

lemma length_get_nonce: "length (get_nonce self v) = nonce_len (eb_algorithm self)"
proof -
  have "length (concat (map (\<lambda>x. f64_div_pi_bytes (v + word_of_nat x)) [0..<k])) = k * 8" for k
    by (induction k) simp_all
  moreover have "nonce_len (eb_algorithm self) \<le> div_ceil (nonce_len (eb_algorithm self)) 8 * 8"
    by (cases "eb_algorithm self") (simp_all add: nonce_len_defs div_ceil_def)
  ultimately show ?thesis
    by (simp add: get_nonce_def Let_def min_def)
qed

lemma crypt_err_Ok [simp]: "crypt_err m = Ok x \<longleftrightarrow> m = Ok x"
  by (simp add: crypt_err_def)

lemma crypt_err_simps [simp]: "crypt_err (Ok x) = Ok x" "crypt_err Panic = Panic"
  by (simp_all add: crypt_err_def)

lemma crypt_err_Panic [simp]: "crypt_err m = Panic \<longleftrightarrow> m = Panic"
  by (cases m) (simp_all add: crypt_err_def)

lemma bank_decrypt_encrypted:
  assumes "pqc_opens a b" and "bank_encrypt r self v a input = Ok c" and "length c < 2 ^ 64"
  shows "bank_decrypt self v b c = Ok input"
  using assms
  by (auto simp: pqc_opens_def bank_encrypt_def bank_decrypt_def encrypt_custom_nonce_def
      decrypt_custom_nonce_def pqc_encrypt_def pqc_decrypt_def aead_encrypt_def aead_decrypt_def
      aead_pair_def)

section \<open>The port mapping\<close>

definition valid_mapping :: "(u16 \<times> u16) list \<Rightarrow> bool" where
  "valid_mapping ports \<longleftrightarrow> distinct ports \<and> length ports = PORT_RANGE"

definition permutes_list :: "(nat list \<Rightarrow> nat list) \<Rightarrow> bool" where
  "permutes_list shuffle \<longleftrightarrow> (\<forall>xs. mset (shuffle xs) = mset xs)"

lemma permuted_ports:
  assumes "permutes_list shuffle"
  shows "length (shuffle [0..<PORT_RANGE]) = PORT_RANGE" and "distinct (shuffle [0..<PORT_RANGE])"
    and "\<forall>p \<in> set (shuffle [0..<PORT_RANGE]). p < PORT_RANGE"
proof -
  have eq: "mset (shuffle [0..<PORT_RANGE]) = mset [0..<PORT_RANGE]"
    using assms unfolding permutes_list_def by blast
  from mset_eq_length [OF eq] show "length (shuffle [0..<PORT_RANGE]) = PORT_RANGE" by simp
  from mset_eq_imp_distinct_iff [OF eq] show "distinct (shuffle [0..<PORT_RANGE])" by simp
  from mset_eq_setD [OF eq] show "\<forall>p \<in> set (shuffle [0..<PORT_RANGE]). p < PORT_RANGE" by simp
qed

text \<open>Each port is the local port of one entry and the remote port of one entry.\<close>

lemma mapping_ports:
  assumes "permutes_list shuffle_in" and "permutes_list shuffle_out"
  shows "distinct (map fst (create_port_mapping shuffle_in shuffle_out))"
    and "distinct (map snd (create_port_mapping shuffle_in shuffle_out))"
    and "length (create_port_mapping shuffle_in shuffle_out) = PORT_RANGE"
proof -
  have inj: "inj_on (word_of_nat :: nat \<Rightarrow> u16) {..<PORT_RANGE}"
    by (auto simp: inj_on_def PORT_RANGE_def word_of_nat_eq_iff take_bit_nat_eq_self)
  have dist: "distinct (map (word_of_nat :: nat \<Rightarrow> u16) xs)"
    if "distinct xs" "\<forall>p \<in> set xs. p < PORT_RANGE" for xs
    using that inj by (auto simp: distinct_map intro: inj_on_subset)
  have nth: "map (\<lambda>i. word_of_nat (xs ! i) :: u16) [0..<PORT_RANGE] = map word_of_nat xs"
    if "length xs = PORT_RANGE" for xs
    using that map_nth [of xs] by (simp flip: map_map [unfolded comp_def])
  show "distinct (map fst (create_port_mapping shuffle_in shuffle_out))"
    using permuted_ports [OF assms(1)] by (simp add: create_port_mapping_def Let_def comp_def nth [OF permuted_ports(1)] dist assms)
  show "distinct (map snd (create_port_mapping shuffle_in shuffle_out))"
    using permuted_ports [OF assms(2)] by (simp add: create_port_mapping_def Let_def comp_def nth [OF permuted_ports(1)] dist assms)
  show "length (create_port_mapping shuffle_in shuffle_out) = PORT_RANGE"
    by (simp add: create_port_mapping_def)
qed

lemma create_port_mapping_valid:
  "permutes_list shuffle_in \<Longrightarrow> permutes_list shuffle_out \<Longrightarrow>
   valid_mapping (create_port_mapping shuffle_in shuffle_out)"
  using mapping_ports by (auto simp: valid_mapping_def distinct_map)

section \<open>Properties\<close>

text \<open>A bank for the concrete containers.\<close>

definition demo_bank :: entropy_bank where
  "demo_bank = \<lparr>eb_algorithm = AES_GCM_256_SIV, eb_version = 0, eb_cid = 7,
     entropy = map word_of_nat [0..<BYTES_PER_STORE],
     scramble_mappings = create_port_mapping (\<lambda>xs. xs) rev\<rparr>"

lemma demo_bank_valid [simp]: "valid_mapping (scramble_mappings demo_bank)"
  by (simp add: demo_bank_def create_port_mapping_valid permutes_list_def)

lemma symmetric_seal_no_panic:
  assumes "pqc_wf lib a" and "encryption_algorithm (pq_params a) \<noteq> Kyber"
    and "get_encryption_key a = Some e"
    and "length nonce = nonce_len (encryption_algorithm (pq_params a))"
  shows "encrypt_in_place e r nonce ad input \<noteq> Panic"
proof -
  from assms(3) obtain ks where ks: "pq_key_store a = Some ks"
    by (cases "pq_key_store a") (auto simp: get_encryption_key_def)
  have "ks_params ks = pq_params a" using assms(1) ks by (simp add: pqc_wf_def)
  with pqc_wf_modules [OF assms(1) ks] assms(2) obtain key where
    "e = (case encryption_algorithm (pq_params a) of AES_GCM_256_SIV \<Rightarrow> aes_module lib key
          | _ \<Rightarrow> chacha_module lib key)"
    using assms(3) ks
    by (cases "encryption_algorithm (pq_params a)"; cases "pq_node_type a")
      (auto simp: keys_to_aead_store_def get_encryption_key_def)
  moreover have no_panic: "ok_or er m \<noteq> Panic" for er and m :: "bytes option" by (cases m) auto
  ultimately show ?thesis
    using assms(2,4)
    by (cases "encryption_algorithm (pq_params a)")
      (auto simp: aes_module_def chacha_module_def no_panic)
qed

text \<open>
  C19: For a container with a symmetric cipher and a bank of the same algorithm, encryption never
  panics, whatever the nonce version (the derived nonce has the length the cipher wants), and the
  peer decrypts with the same bank and nonce version.
\<close>

theorem bank_encrypt_decrypt:
  assumes "pqc_wf lib a" and "pqc_opens a b" and "encryption_algorithm (pq_params a) \<noteq> Kyber"
    and "eb_algorithm bank = encryption_algorithm (pq_params a)"
  shows "bank_encrypt r bank v a input \<noteq> Panic \<and>
     (\<forall>c. bank_encrypt r bank v a input = Ok c \<and> length c < 2 ^ 64 \<longrightarrow> bank_decrypt bank v b c = Ok input)"
proof -
  obtain e where e: "get_encryption_key a = Some e"
    using assms(2) by (auto simp: pqc_opens_def)
  have "encrypt_in_place e r (get_nonce bank v) [] input \<noteq> Panic"
    using symmetric_seal_no_panic [OF assms(1,3) e] length_get_nonce [of bank v] assms(4) by simp
  then have "bank_encrypt r bank v a input \<noteq> Panic"
    by (simp add: bank_encrypt_def encrypt_custom_nonce_def pqc_encrypt_def e aead_encrypt_def)
  then show ?thesis using bank_decrypt_encrypted [OF assms(2)] by blast
qed

theorem bank_encrypt_decrypt_witness:
  "bank_encrypt (\<lambda>_. 0) demo_bank 5 (demo_node Alice) [1, 2] \<noteq> Panic"
proof -
  have wf: "pqc_wf demo_lib (demo_node Alice)"
    by (simp add: pqc_wf_def demo_node_def keys_to_aead_store_def default_crypto_parameters_def)
  have op: "pqc_opens (demo_node Alice) (demo_node Bob)"
    using demo_channel by (simp add: channel_run_def)
  show ?thesis
    using bank_encrypt_decrypt [OF wf op, of demo_bank]
    by (simp add: demo_node_def demo_bank_def default_crypto_parameters_def)
qed

end
