(* ===== verification/Packet_Vector.thy ===== *)
theory Packet_Vector
  imports Entropy_Bank
begin

text \<open>
  The coordinates of a packet of \<open>citadel_crypt/src/packet_vector.rs\<close>: a packet's position in a group
  is sent as a wave identifier and a pair of ports, and the receiver inverts it.
\<close>

record packet_vector =
  pv_group_id :: u64
  pv_wave_id :: u32
  pv_local_port :: u16
  pv_remote_port :: u16
  pv_true_sequence :: nat

definition generate_packet_vector ::
    "nat \<Rightarrow> u64 \<Rightarrow> entropy_bank \<Rightarrow> (packet_vector, crypt_error) result" where
  "generate_packet_vector true_sequence group_id drill =
     (let port_range = get_multiport_width drill in
      if port_range = 0 then Panic
      else
        let true_wave_id = true_sequence div port_range;
            relative_sequence = true_sequence mod port_range;
            (local_port, remote_port) = scramble_mappings drill ! relative_sequence
        in Ok \<lparr>pv_group_id = group_id, pv_wave_id = word_of_nat true_wave_id,
               pv_local_port = local_port, pv_remote_port = remote_port,
               pv_true_sequence = true_sequence\<rparr>)"

fun find_ports :: "nat \<Rightarrow> (u16 \<times> u16) list \<Rightarrow> u16 \<Rightarrow> u16 \<Rightarrow> nat option" where
  "find_ports idx [] src_port local_port = None"
| "find_ports idx ((in_port, out_port) # ports) src_port local_port =
     (if in_port = src_port \<and> out_port = local_port then Some idx
      else find_ports (idx + 1) ports src_port local_port)"

definition generate_packet_coordinates_inv ::
    "u32 \<Rightarrow> u16 \<Rightarrow> u16 \<Rightarrow> entropy_bank \<Rightarrow> nat option" where
  "generate_packet_coordinates_inv wave_id src_port local_port scramble_drill =
     map_option (\<lambda>idx. unat wave_id * length (scramble_mappings scramble_drill) + idx)
       (find_ports 0 (scramble_mappings scramble_drill) src_port local_port)"

lemma find_ports_Some:
  "distinct ports \<Longrightarrow>
   find_ports k ports s l = Some i \<longleftrightarrow> k \<le> i \<and> i < k + length ports \<and> ports ! (i - k) = (s, l)"
proof (induction k ports s l rule: find_ports.induct)
  case (2 idx in_port out_port ports s l)
  show ?case
  proof (cases "in_port = s \<and> out_port = l")
    case True
    have "i = idx" if "idx \<le> i" "i < idx + Suc (length ports)" "((s, l) # ports) ! (i - idx) = (s, l)"
    proof (rule ccontr)
      assume "i \<noteq> idx"
      with that(1) obtain j where j: "i - idx = Suc j" by (metis Suc_diff_1 diff_is_0_eq le_antisym not_gr0)
      with that have "ports ! j = (s, l)" "j < length ports" by auto
      then show False using 2(2) True by (auto simp: in_set_conv_nth)
    qed
    with True show ?thesis by auto
  next
    case False
    with 2 have "find_ports idx ((in_port, out_port) # ports) s l = Some i \<longleftrightarrow>
        idx + 1 \<le> i \<and> i < idx + 1 + length ports \<and> ports ! (i - (idx + 1)) = (s, l)"
      by auto
    also have "\<dots> \<longleftrightarrow> idx \<le> i \<and> i < idx + Suc (length ports) \<and>
        ((in_port, out_port) # ports) ! (i - idx) = (s, l)"
    proof (cases "i - idx")
      case (Suc j)
      then have "i - (idx + 1) = j" by simp
      with Suc show ?thesis by auto
    qed (use False in auto)
    finally show ?thesis by simp
  qed
qed simp

text \<open>
  C20: The packet coordinates are exact. For a port mapping as \<open>create_port_mapping\<close> makes it and any
  position whose wave fits 32 bits, the receiver's inverse returns that position for a wave and a pair
  of ports if and only if the sender puts this wave and these ports on the packet of that position.
\<close>

theorem packet_coordinates_exact:
  assumes "permutes_list shuffle_in" and "permutes_list shuffle_out"
    and "scramble_mappings drill = create_port_mapping shuffle_in shuffle_out"
    and "i < PORT_RANGE * 2 ^ 32"
  shows "generate_packet_coordinates_inv w s l drill = Some i \<longleftrightarrow>
     (\<exists>v. generate_packet_vector i g drill = Ok v \<and>
          pv_wave_id v = w \<and> pv_local_port v = s \<and> pv_remote_port v = l)"
proof -
  let ?n = PORT_RANGE and ?m = "scramble_mappings drill"
  have m: "distinct ?m" "length ?m = ?n"
    using create_port_mapping_valid [OF assms(1,2)] by (simp_all add: assms(3) valid_mapping_def)
  have n: "0 < ?n" by (simp add: PORT_RANGE_def)
  have wave: "word_of_nat (i div ?n) = w \<longleftrightarrow> i div ?n = unat w"
  proof -
    have "i div ?n < 2 ^ 32" using assms(4) by (simp add: less_mult_imp_div_less mult.commute)
    then have "unat (word_of_nat (i div ?n) :: u32) = i div ?n" by (simp add: unat_of_nat)
    then show ?thesis by (auto simp: word_unat_eq_iff)
  qed
  have pos: "(\<exists>j < ?n. ?m ! j = (s, l) \<and> unat w * ?n + j = i) \<longleftrightarrow> i div ?n = unat w \<and> ?m ! (i mod ?n) = (s, l)"
  proof
    assume "i div ?n = unat w \<and> ?m ! (i mod ?n) = (s, l)"
    moreover have "i div ?n * ?n + i mod ?n = i" by simp
    ultimately show "\<exists>j < ?n. ?m ! j = (s, l) \<and> unat w * ?n + j = i"
      using n by (intro exI [of _ "i mod ?n"]) simp
  qed (use n in auto)
  have "generate_packet_coordinates_inv w s l drill = Some i \<longleftrightarrow>
      (\<exists>j < ?n. ?m ! j = (s, l) \<and> unat w * ?n + j = i)"
    using m by (auto simp: generate_packet_coordinates_inv_def find_ports_Some)
  also note pos
  finally show ?thesis
    using n m(2) wave
    by (auto simp: generate_packet_vector_def get_multiport_width_def Let_def split: prod.splits)
qed

theorem packet_coordinates_exact_witness:
  "generate_packet_coordinates_inv 2 1 12 demo_bank = Some 29 \<longleftrightarrow>
     (\<exists>v. generate_packet_vector 29 5 demo_bank = Ok v \<and>
          pv_wave_id v = 2 \<and> pv_local_port v = 1 \<and> pv_remote_port v = 12)"
  by (rule packet_coordinates_exact [of "\<lambda>xs. xs" rev])
    (simp_all add: permutes_list_def demo_bank_def PORT_RANGE_def)

end
