(* ===== verification/Sec_Packet.thy ===== *)
theory Sec_Packet
  imports Prelude
begin

text \<open>
  Packets that are allocated once and filled in parts: \<open>PartitionedSecBuffer\<close> of
  \<open>citadel_crypt/src/secure_buffer/partitioned_sec_buffer.rs\<close>, \<open>SecurePacket\<close> and the state machine
  \<open>SecureMessagePacket\<close> of \<open>sec_packet.rs\<close>. The number of partitions is the length of the layout. A
  closure that fills a slice is a function from the old contents to the new contents and a result; as
  it works on a slice it keeps the length.
\<close>

datatype io_error = InvalidInput string

type_synonym filler = "bytes \<Rightarrow> bytes \<times> (unit, io_error) result"

section \<open>PartitionedSecBuffer\<close>

record psb =
  layout :: "u32 list"
  psb_buffer :: bytes

definition psb_new :: "nat \<Rightarrow> (psb, io_error) result" where
  "psb_new n =
     (if n \<noteq> 0 then Ok \<lparr>layout = replicate n 0, psb_buffer = []\<rparr>
      else Err (InvalidInput ''Partitions == 0''))"

definition check_index :: "psb \<Rightarrow> nat \<Rightarrow> (unit, io_error) result" where
  "check_index self idx =
     (if length (layout self) \<le> idx then Err (InvalidInput ''idx > partitions'') else Ok ())"

definition check_reserve :: "psb \<Rightarrow> nat \<Rightarrow> (unit, io_error) result" where
  "check_reserve self idx =
     rbind (check_index self idx) (\<lambda>_.
     if layout self ! idx \<noteq> 0 then Err (InvalidInput ''Current index already set'')
     else if \<exists>i \<in> set [0..<idx]. layout self ! i = 0
     then Err (InvalidInput ''Previously unset partition detected'')
     else if \<exists>i \<in> set [idx..<length (layout self)]. layout self ! i \<noteq> 0
     then Err (InvalidInput ''Next partitions already set'')
     else Ok ())"

definition reserve_partition :: "psb \<Rightarrow> nat \<Rightarrow> u32 \<Rightarrow> (psb, io_error) result" where
  "reserve_partition self idx len =
     rbind (check_reserve self idx) (\<lambda>_.
       Ok (self\<lparr>psb_buffer := psb_buffer self @ replicate (unat len) 0,
                layout := (layout self)[idx := len]\<rparr>))"

definition get_range :: "psb \<Rightarrow> nat \<Rightarrow> (nat \<times> nat, io_error) result" where
  "get_range self idx =
     rbind (check_index self idx) (\<lambda>_.
     let start_idx = unat (sum_list (take idx (layout self)));
         end_idx = (if idx + 1 = length (layout self) then length (psb_buffer self)
                    else start_idx + unat (layout self ! idx))
     in Ok (start_idx, end_idx))"

text \<open>Reading and filling the window of a partition (\<open>partition_window\<close> and its \<open>SliceHandle\<close>).\<close>

definition read_partition :: "psb \<Rightarrow> nat \<Rightarrow> (bytes, io_error) result" where
  "read_partition self idx = rbind (get_range self idx) (\<lambda>(a, b). slice (psb_buffer self) a b)"

definition fill_partition ::
    "psb \<Rightarrow> nat \<Rightarrow> (bytes \<Rightarrow> bytes \<times> (unit, io_error) result) \<Rightarrow>
     ((unit, io_error) result \<times> psb, io_error) result" where
  "fill_partition self idx fx =
     rbind (get_range self idx) (\<lambda>(a, b).
     rbind (slice (psb_buffer self) a b) (\<lambda>window.
       let (window', res) = fx window
       in if res = Panic then Panic
          else Ok (res, self\<lparr>psb_buffer := splice (psb_buffer self) a window'\<rparr>)))"

section \<open>SecurePacket and SecureMessagePacket\<close>

definition HEADER_PART :: nat where "HEADER_PART = 0"
definition PAYLOAD_PART :: nat where "PAYLOAD_PART = 1"
definition PAYLOAD_EXT :: nat where "PAYLOAD_EXT = 2"

definition secure_packet_new :: "(psb, io_error) result" where
  "secure_packet_new = unwrap (ok (psb_new 3))"

definition prepare_header :: "psb \<Rightarrow> u32 \<Rightarrow> (psb, io_error) result" where
  "prepare_header packet len = reserve_partition packet HEADER_PART len"

definition prepare_payload :: "psb \<Rightarrow> u32 \<Rightarrow> (psb, io_error) result" where
  "prepare_payload packet len = reserve_partition packet PAYLOAD_PART len"

definition prepare_extended_payload :: "psb \<Rightarrow> u32 \<Rightarrow> (psb, io_error) result" where
  "prepare_extended_payload packet len = reserve_partition packet PAYLOAD_EXT len"

datatype secure_message_packet = PayloadNext psb | HeaderNext psb | FinalPayloadExt psb

definition message_packet_new :: "nat \<Rightarrow> (secure_message_packet, io_error) result" where
  "message_packet_new n =
     rbind secure_packet_new (\<lambda>init.
     rbind (prepare_header init (word_of_nat n)) (\<lambda>init. Ok (PayloadNext init)))"

definition bad_flow :: io_error where
  "bad_flow = InvalidInput ''Invalid packet construction flow''"

definition payload_filler :: "u32 \<Rightarrow> filler \<Rightarrow> filler" where
  "payload_filler len fx window =
     (if length window < 4 then (window, Panic)
      else let (rest, res) = fx (drop 4 window) in (u32_to_be len @ rest, res))"

fun write_payload ::
    "secure_message_packet \<Rightarrow> u32 \<Rightarrow> filler \<Rightarrow> (unit, io_error) result \<times> secure_message_packet" where
  "write_payload (PayloadNext packet) len fx =
     (case rbind (prepare_payload packet (len + 4)) (\<lambda>packet.
             fill_partition packet PAYLOAD_PART (payload_filler len fx)) of
        Ok (res, packet) \<Rightarrow> (res, HeaderNext packet)
      | Err e \<Rightarrow> (Err e, PayloadNext packet)
      | Panic \<Rightarrow> (Panic, PayloadNext packet))"
| "write_payload self len fx = (Err bad_flow, self)"

fun write_header ::
    "secure_message_packet \<Rightarrow> filler \<Rightarrow> (unit, io_error) result \<times> secure_message_packet" where
  "write_header (HeaderNext packet) fx =
     (case fill_partition packet HEADER_PART fx of
        Ok (res, packet) \<Rightarrow> (res, FinalPayloadExt packet)
      | Err e \<Rightarrow> (Err e, HeaderNext packet)
      | Panic \<Rightarrow> (Panic, HeaderNext packet))"
| "write_header self fx = (Err bad_flow, self)"

fun write_payload_extension ::
    "secure_message_packet \<Rightarrow> u32 \<Rightarrow> filler \<Rightarrow> (bytes, io_error) result" where
  "write_payload_extension (FinalPayloadExt packet) len fx =
     rbind (prepare_extended_payload packet len) (\<lambda>packet.
     rbind (fill_partition packet PAYLOAD_EXT fx) (\<lambda>(res, packet).
     rbind res (\<lambda>_. Ok (psb_buffer packet))))"
| "write_payload_extension self len fx = Err bad_flow"

fun message_len :: "secure_message_packet \<Rightarrow> nat" where
  "message_len (FinalPayloadExt p) = unat (layout p ! PAYLOAD_PART)"
| "message_len (HeaderNext p) = unat (layout p ! PAYLOAD_PART)"
| "message_len (PayloadNext p) = unat (layout p ! PAYLOAD_PART)"

text \<open>The payload and what is left of the input.\<close>

definition extract_payload :: "bytes \<Rightarrow> (bytes \<times> bytes, io_error) result" where
  "extract_payload input =
     (if length input < 4 then Err (InvalidInput ''Bad size'')
      else
        let payload_len = u32_of_be (take 4 input); input = drop 4 input
        in if length input < unat payload_len then Err (InvalidInput ''Bad payload len size'')
           else Ok (take (unat payload_len) input, drop (unat payload_len) input))"

definition decompose_payload_raw :: "bytes \<Rightarrow> (bytes \<times> bytes, io_error) result" where
  "decompose_payload_raw input = rbind (extract_payload input) (\<lambda>(payload, rest). Ok (payload, rest))"

section \<open>Partitions tile the buffer\<close>

text \<open>
  The invariant of the buffer: the widths sum up to its length, as numbers, without wrapping the
  32-bit sum \<open>get_range\<close> computes; and the parts that are set come first.
\<close>

definition psb_wf :: "psb \<Rightarrow> bool" where
  "psb_wf self \<longleftrightarrow>
     length (psb_buffer self) = sum_list (map unat (layout self)) \<and> length (psb_buffer self) < 2 ^ 32 \<and>
     (\<forall>i j. i < j \<and> j < length (layout self) \<and> layout self ! i = 0 \<longrightarrow> layout self ! j = 0)"

lemma unat_sum_list:
  fixes ws :: "'a::len word list"
  shows "sum_list (map unat ws) < 2 ^ LENGTH('a) \<Longrightarrow> unat (sum_list ws) = sum_list (map unat ws)"
proof (induction ws)
  case (Cons w ws)
  have eq: "unat (w + sum_list ws) = (unat w + unat (sum_list ws)) mod 2 ^ LENGTH('a)"
    by (rule unat_word_ariths)
  have "unat (sum_list ws) = sum_list (map unat ws)"
    by (rule Cons.IH) (use Cons.prems in simp)
  then show ?case using Cons.prems eq by simp
qed simp

lemma sum_list_take_le: "sum_list (map f (take k xs)) \<le> sum_list (map f xs)" for f :: "'a \<Rightarrow> nat"
  by (metis append_take_drop_id le_add1 map_append sum_list_append)

lemma reserve_partition_Ok:
  assumes "reserve_partition self idx len = Ok self'"
  shows "idx < length (layout self)" "\<forall>i < idx. layout self ! i \<noteq> 0"
    "\<forall>i < length (layout self). idx \<le> i \<longrightarrow> layout self ! i = 0"
    "self' = self\<lparr>psb_buffer := psb_buffer self @ replicate (unat len) 0,
                  layout := (layout self)[idx := len]\<rparr>"
  using assms
  by (auto simp: reserve_partition_def check_reserve_def check_index_def split: if_splits)

lemma sum_list_update_zero:
  "idx < length ws \<Longrightarrow> ws ! idx = (0 :: 'a::len word) \<Longrightarrow>
   sum_list (map unat (ws[idx := v])) = sum_list (map unat ws) + unat v"
  by (induction ws arbitrary: idx) (auto split: nat.split)

lemma reserve_partition_wf:
  assumes wf: "psb_wf self" and step: "reserve_partition self idx len = Ok self'"
    and fits: "length (psb_buffer self) + unat len < 2 ^ 32"
  shows "psb_wf self'"
  using wf fits reserve_partition_Ok [OF step]
  by (auto simp: psb_wf_def sum_list_update_zero nth_list_update)

lemma get_range_window:
  assumes wf: "psb_wf self" and idx: "idx < length (layout self)"
  shows "get_range self idx =
     Ok (sum_list (map unat (take idx (layout self))), sum_list (map unat (take (Suc idx) (layout self))))"
proof -
  let ?ws = "layout self"
  have sum: "length (psb_buffer self) = sum_list (map unat ?ws)" "sum_list (map unat ?ws) < 2 ^ 32"
    using wf by (simp_all add: psb_wf_def)
  have "unat (sum_list (take idx ?ws)) = sum_list (map unat (take idx ?ws))"
    using sum sum_list_take_le [of unat idx ?ws] by (intro unat_sum_list) simp
  moreover have "sum_list (map unat (take (Suc idx) ?ws)) = sum_list (map unat (take idx ?ws)) + unat (?ws ! idx)"
    using idx by (simp add: take_Suc_conv_app_nth)
  ultimately show ?thesis
    using idx sum(1) by (auto simp: get_range_def check_index_def Let_def)
qed

lemma read_partition_window:
  assumes "psb_wf self" and "idx < length (layout self)"
  shows "read_partition self idx =
     Ok (take (unat (layout self ! idx)) (drop (sum_list (map unat (take idx (layout self)))) (psb_buffer self)))"
proof -
  have "sum_list (map unat (take (Suc idx) (layout self))) \<le> length (psb_buffer self)"
    using assms(1) sum_list_take_le [of unat "Suc idx" "layout self"] by (simp add: psb_wf_def)
  then show ?thesis
    using assms(2) get_range_window [OF assms]
    by (simp add: read_partition_def slice_def take_Suc_conv_app_nth)
qed

text \<open>
  The callers reserve and fill partitions in whatever order they like; a refused call changes nothing. Beside the
  buffer goes what each partition should contain: zeros when it is reserved, afterwards what was written last.
\<close>

datatype psb_op = Reserve nat u32 | Fill nat filler

fun psb_step :: "psb \<times> bytes list \<Rightarrow> psb_op \<Rightarrow> psb \<times> bytes list" where
  "psb_step (self, contents) (Reserve idx len) =
     (case reserve_partition self idx len of
        Ok self' \<Rightarrow> (self', contents[idx := replicate (unat len) 0])
      | _ \<Rightarrow> (self, contents))"
| "psb_step (self, contents) (Fill idx fx) =
     (case fill_partition self idx fx of
        Ok (_, self') \<Rightarrow> (self', contents[idx := fst (fx (contents ! idx))])
      | _ \<Rightarrow> (self, contents))"

fun keeps_length :: "psb_op \<Rightarrow> bool" where
  "keeps_length (Reserve _ _) \<longleftrightarrow> True"
| "keeps_length (Fill _ fx) \<longleftrightarrow> (\<forall>b. length (fst (fx b)) = length b)"

definition psb_holds :: "psb \<Rightarrow> bytes list \<Rightarrow> bool" where
  "psb_holds self contents \<longleftrightarrow>
     psb_wf self \<and> map unat (layout self) = map length contents \<and> psb_buffer self = concat contents"

lemma concat_split:
  "idx < length xss \<Longrightarrow> concat xss = concat (take idx xss) @ xss ! idx @ concat (drop (Suc idx) xss)"
  by (metis concat.simps(2) concat_append id_take_nth_drop)

lemma concat_update:
  "idx < length xss \<Longrightarrow> concat (xss[idx := ys]) = concat (take idx xss) @ ys @ concat (drop (Suc idx) xss)"
  by (simp add: upd_conv_take_nth_drop)

lemma fill_partition_window:
  assumes "get_range self idx = Ok (a, b)" and "psb_buffer self = pre @ window @ post"
    and "a = length pre" and "b = length pre + length window"
    and "fx window = (window', res)" and "length window' = length window" and "res \<noteq> Panic"
  shows "fill_partition self idx fx = Ok (res, self\<lparr>psb_buffer := pre @ window' @ post\<rparr>)"
  using assms by (simp add: fill_partition_def slice_def splice_def)

lemma psb_holds_widths:
  assumes "psb_holds self contents"
  shows "length (layout self) = length contents"
    and "i < length contents \<Longrightarrow> unat (layout self ! i) = length (contents ! i)"
    and "i < length contents \<Longrightarrow> layout self ! i = 0 \<longleftrightarrow> contents ! i = []"
proof -
  have eq: "map unat (layout self) = map length contents" using assms by (simp add: psb_holds_def)
  show n: "length (layout self) = length contents" by (rule map_eq_imp_length_eq [OF eq])
  show w: "unat (layout self ! i) = length (contents ! i)" if "i < length contents" for i
    using arg_cong [OF eq, of "\<lambda>xs. xs ! i"] that n by simp
  show "layout self ! i = 0 \<longleftrightarrow> contents ! i = []" if "i < length contents"
    using w [OF that] by (auto simp: unat_eq_0 [symmetric])
qed

lemma psb_holds_sums:
  assumes "psb_holds self contents"
  shows "sum_list (map unat (take k (layout self))) = length (concat (take k contents))"
proof -
  have "map unat (take k (layout self)) = map length (take k contents)"
    using assms by (simp add: psb_holds_def take_map [symmetric])
  then show ?thesis by (simp add: length_concat)
qed

lemma read_partition_holds:
  assumes holds: "psb_holds self contents" and idx: "idx < length contents"
  shows "read_partition self idx = Ok (contents ! idx)"
proof -
  have "psb_wf self" and "psb_buffer self = concat (take idx contents) @ contents ! idx @ concat (drop (Suc idx) contents)"
    using holds concat_split [OF idx] by (simp_all add: psb_holds_def)
  then show ?thesis
    using read_partition_window [of self idx] idx psb_holds_widths [OF holds]
    by (simp add: psb_holds_sums [OF holds])
qed

lemma reserve_partition_holds:
  assumes holds: "psb_holds self contents" and step: "reserve_partition self idx len = Ok self'"
    and fits: "length (psb_buffer self') < 2 ^ 32"
  shows "psb_holds self' (contents[idx := replicate (unat len) 0])"
proof -
  note r = reserve_partition_Ok [OF step] and w = psb_holds_widths [OF holds]
  have empty: "contents ! i = []" if "idx \<le> i" "i < length contents" for i
    using r(3) w(1) w(3) [OF that(2)] that by simp
  have "xs = []" if "xs \<in> set (drop (Suc idx) contents)" for xs
    using that empty w(1) by (auto simp: in_set_conv_nth)
  then have rest: "concat (drop (Suc idx) contents) = []" by simp
  have idx: "idx < length contents" using r(1) w(1) by simp
  have "concat (contents[idx := replicate (unat len) 0]) = concat contents @ replicate (unat len) 0"
    using concat_split [OF idx] empty [of idx] idx rest by (simp add: concat_update)
  moreover have "psb_wf self'"
    using holds fits r(4) by (intro reserve_partition_wf [OF _ step]) (simp_all add: psb_holds_def)
  ultimately show ?thesis
    using holds r(4) by (simp add: psb_holds_def map_update)
qed

lemma fill_partition_holds:
  assumes holds: "psb_holds self contents" and idx: "idx < length contents"
    and fx: "fx (contents ! idx) = (new, res)" "length new = length (contents ! idx)" "res \<noteq> Panic"
  shows "\<exists>self'. fill_partition self idx fx = Ok (res, self') \<and> psb_holds self' (contents[idx := new])"
proof -
  let ?pre = "concat (take idx contents)" and ?post = "concat (drop (Suc idx) contents)"
  let ?self = "self\<lparr>psb_buffer := ?pre @ new @ ?post\<rparr>"
  note n = psb_holds_widths(1) [OF holds]
  have wf: "psb_wf self" and widths: "map unat (layout self) = map length contents"
    and buf: "psb_buffer self = ?pre @ contents ! idx @ ?post"
    using holds concat_split [OF idx] by (simp_all add: psb_holds_def)
  have range: "get_range self idx = Ok (length ?pre, length ?pre + length (contents ! idx))"
    using get_range_window [OF wf, of idx] idx n
    unfolding psb_holds_sums [OF holds] by (simp add: take_Suc_conv_app_nth)
  have "fill_partition self idx fx = Ok (res, ?self)"
    using fx by (intro fill_partition_window [OF range buf]) simp_all
  moreover have "map length (contents[idx := new]) = map length contents"
    by (simp add: map_update fx(2) list_update_same_conv idx)
  moreover have "psb_wf ?self"
  proof -
    have "length (psb_buffer ?self) = length (psb_buffer self)" using buf fx(2) by simp
    then show ?thesis using wf unfolding psb_wf_def by auto
  qed
  ultimately show ?thesis
    using widths idx by (auto simp: psb_holds_def concat_update)
qed

lemma psb_step_holds:
  assumes holds: "psb_holds self contents" and op: "keeps_length op"
    and step: "psb_step (self, contents) op = (self', contents')" and fits: "length (psb_buffer self') < 2 ^ 32"
  shows "psb_holds self' contents'"
proof (cases op)
  case (Reserve idx len)
  then show ?thesis
    using step holds fits reserve_partition_holds [OF holds, of idx len self']
    by (cases "reserve_partition self idx len") auto
next
  case (Fill idx fx)
  obtain new res where fx: "fx (contents ! idx) = (new, res)" by (cases "fx (contents ! idx)")
  have len: "length new = length (contents ! idx)" using op Fill fx by (metis fst_conv keeps_length.simps(2))
  consider "length contents \<le> idx" | "idx < length contents" "res = Panic" | "idx < length contents" "res \<noteq> Panic"
    by linarith
  then show ?thesis
  proof cases
    case 1
    then have "fill_partition self idx fx = Err (InvalidInput ''idx > partitions'')"
      using psb_holds_widths(1) [OF holds] by (simp add: fill_partition_def get_range_def check_index_def)
    then show ?thesis using step holds Fill by simp
  next
    case 2
    then have "fill_partition self idx fx = Panic"
      using read_partition_holds [OF holds 2(1)] fx
      by (auto simp: fill_partition_def read_partition_def)
    then show ?thesis using step holds Fill by simp
  next
    case 3
    then show ?thesis using fill_partition_holds [of self contents idx fx new res] holds fx len step Fill fx by auto
  qed
qed

lemma psb_step_grows:
  assumes op: "keeps_length op" and step: "psb_step (self, contents) op = (self', contents')"
  shows "length (psb_buffer self) \<le> length (psb_buffer self')"
proof (cases op)
  case (Reserve idx len)
  then show ?thesis
    using step reserve_partition_Ok(4) [of self idx len self']
    by (cases "reserve_partition self idx len") auto
next
  case (Fill idx fx)
  then have len: "length (fst (fx b)) = length b" for b using op by simp
  show ?thesis
  proof (cases "fill_partition self idx fx")
    case (Ok r)
    then obtain res where "fill_partition self idx fx = Ok (res, self')" using step Fill by (cases r) auto
    then have "length (psb_buffer self') = length (psb_buffer self)"
      by (auto simp: fill_partition_def slice_def splice_def Let_def case_prod_beta len split: if_splits)
    then show ?thesis by simp
  qed (use step Fill in auto)
qed

lemma psb_run_grows:
  "foldl psb_step (self, contents) ops = (self', contents') \<Longrightarrow> list_all keeps_length ops \<Longrightarrow>
   length (psb_buffer self) \<le> length (psb_buffer self')"
proof (induction ops arbitrary: self contents)
  case (Cons op ops)
  obtain s c where step: "psb_step (self, contents) op = (s, c)" by fastforce
  then have "length (psb_buffer s) \<le> length (psb_buffer self')" using Cons by simp
  then show ?case using psb_step_grows [OF _ step] Cons.prems by simp
qed simp

lemma psb_run_holds:
  "foldl psb_step (self, contents) ops = (self', contents') \<Longrightarrow> list_all keeps_length ops \<Longrightarrow>
   psb_holds self contents \<Longrightarrow> length (psb_buffer self') < 2 ^ 32 \<Longrightarrow>
   psb_holds self' contents' \<and> length contents' = length contents"
proof (induction ops arbitrary: self contents)
  case (Cons op ops)
  obtain s c where step: "psb_step (self, contents) op = (s, c)" by fastforce
  then have run: "foldl psb_step (s, c) ops = (self', contents')" and op: "keeps_length op" "list_all keeps_length ops"
    using Cons.prems by simp_all
  have "length c = length contents"
    using step by (cases op) (auto split: result.splits)
  moreover have "psb_holds s c"
    using psb_step_holds [OF Cons.prems(3) op(1) step] psb_run_grows [OF run op(2)] Cons.prems(4) by simp
  ultimately show ?case using Cons.IH [OF run op(2)] Cons.prems(4) by simp
qed simp

lemma psb_new_holds: "psb_new n = Ok self \<Longrightarrow> psb_holds self (replicate n [])"
  by (auto simp: psb_new_def psb_wf_def psb_holds_def sum_list_replicate split: if_splits)

lemma nth_takeWhile_iff:
  "idx < length xs \<Longrightarrow> idx = length (takeWhile P xs) \<longleftrightarrow> (\<forall>i < idx. P (xs ! i)) \<and> \<not> P (xs ! idx)"
  (is "_ \<Longrightarrow> _ \<longleftrightarrow> ?first")
proof
  assume "?first" and "idx < length xs"
  then have "takeWhile P xs = take idx xs" by (intro takeWhile_eq_take_P_nth) simp_all
  then show "idx = length (takeWhile P xs)" using \<open>idx < length xs\<close> by simp
next
  assume "idx = length (takeWhile P xs)" and "idx < length xs"
  then show ?first
    using nth_length_takeWhile [of P xs] nth_mem [of _ "takeWhile P xs"]
    by (auto simp: takeWhile_nth dest!: set_takeWhileD)
qed

lemma reserve_partition_accepts:
  assumes holds: "psb_holds self contents"
  shows "(\<exists>self'. reserve_partition self idx len = Ok self') \<longleftrightarrow>
     idx < length contents \<and> idx = length (takeWhile (\<lambda>c. c \<noteq> []) contents)" 
  (is "?ok \<longleftrightarrow> _")
proof -
  note w = psb_holds_widths [OF holds]
  have later: "contents ! j = []" if "i < j" "j < length contents" "contents ! i = []" for i j
  proof -
    have "layout self ! i = 0" "length (layout self) = length contents" using w that by simp_all
    moreover have "\<forall>i j. i < j \<and> j < length (layout self) \<and> layout self ! i = 0 \<longrightarrow> layout self ! j = 0"
      using holds unfolding psb_holds_def psb_wf_def by blast
    ultimately have "layout self ! j = 0" using that by simp
    then show ?thesis using w(3) [OF that(2)] by simp
  qed
  have in_layout: "?ok \<longleftrightarrow> idx < length (layout self) \<and> (\<forall>i < idx. layout self ! i \<noteq> 0) \<and>
      (\<forall>i. idx \<le> i \<and> i < length (layout self) \<longrightarrow> layout self ! i = 0)"
    by (auto simp: reserve_partition_def check_reserve_def check_index_def)
  have "?ok \<longleftrightarrow> idx < length contents \<and> (\<forall>i < idx. contents ! i \<noteq> []) \<and>
      (\<forall>i. idx \<le> i \<and> i < length contents \<longrightarrow> contents ! i = [])"
    unfolding in_layout w(1) by (auto simp: w(3))
  also have "\<dots> \<longleftrightarrow> idx < length contents \<and> (\<forall>i < idx. contents ! i \<noteq> []) \<and> contents ! idx = []"
    using later by (metis le_neq_implies_less order_refl)
  also have "\<dots> \<longleftrightarrow> idx < length contents \<and> idx = length (takeWhile (\<lambda>c. c \<noteq> []) contents)"
    using nth_takeWhile_iff [of idx contents "\<lambda>c. c \<noteq> []"] by blast
  finally show ?thesis .
qed

section \<open>Building a message\<close>

lemmas part_defs = HEADER_PART_def PAYLOAD_PART_def PAYLOAD_EXT_def

lemma message_packet_new_Ok:
  assumes "0 < n" and "n < 2 ^ 32"
  shows "message_packet_new n =
     Ok (PayloadNext \<lparr>layout = [word_of_nat n, 0, 0], psb_buffer = replicate n 0\<rparr>)"
proof -
  have "unat (word_of_nat n :: u32) = n" using assms(2) by (simp add: unat_of_nat)
  then show ?thesis
    by (simp add: message_packet_new_def secure_packet_new_def psb_new_def prepare_header_def
        reserve_partition_def check_reserve_def check_index_def part_defs numeral_3_eq_3)
qed

lemma write_payload_Ok:
  assumes fits: "n + unat len + 4 < 2 ^ 32" and "0 < n"
    and fx: "fx (replicate (unat len) 0) = (payload, Ok ())" "length payload = unat len"
  shows "write_payload (PayloadNext \<lparr>layout = [word_of_nat n, 0, 0], psb_buffer = replicate n 0\<rparr>) len fx =
     (Ok (), HeaderNext \<lparr>layout = [word_of_nat n, len + 4, 0],
        psb_buffer = replicate n 0 @ u32_to_be len @ payload\<rparr>)"
proof -
  have n: "unat (word_of_nat n :: u32) = n" "(word_of_nat n :: u32) \<noteq> 0"
    using assms(1,2) by (simp_all add: unat_of_nat word_unat_eq_iff)
  have len: "unat (len + 4) = unat len + 4"
    using fits by (subst unat_word_ariths) simp
  let ?p = "\<lparr>layout = [word_of_nat n, len + 4, 0], psb_buffer = replicate n 0 @ replicate (unat len + 4) 0\<rparr>"
  have prep: "prepare_payload \<lparr>layout = [word_of_nat n, 0, 0], psb_buffer = replicate n 0\<rparr> (len + 4) = Ok ?p"
    using n by (simp add: prepare_payload_def reserve_partition_def check_reserve_def check_index_def
        part_defs len upt_rec numeral_3_eq_3)
  have range: "get_range ?p PAYLOAD_PART = Ok (n, n + (unat len + 4))"
    using n len by (simp add: get_range_def check_index_def part_defs Let_def)
  have "payload_filler len fx (replicate (unat len + 4) 0) = (u32_to_be len @ payload, Ok ())"
    using fx by (simp add: payload_filler_def)
  then have "fill_partition ?p PAYLOAD_PART (payload_filler len fx) =
      Ok (Ok (), ?p\<lparr>psb_buffer := replicate n 0 @ (u32_to_be len @ payload) @ []\<rparr>)"
    using fx(2)
    by (intro fill_partition_window [OF range, where window = "replicate (unat len + 4) 0"]) simp_all
  with prep show ?thesis by simp
qed

lemma write_header_Ok:
  assumes "n < 2 ^ 32" and fx: "fx (replicate n 0) = (header, Ok ())" "length header = n"
  shows "write_header (HeaderNext \<lparr>layout = [word_of_nat n, w, 0], psb_buffer = replicate n 0 @ rest\<rparr>) fx =
     (Ok (), FinalPayloadExt \<lparr>layout = [word_of_nat n, w, 0], psb_buffer = header @ rest\<rparr>)"
proof -
  let ?p = "\<lparr>layout = [word_of_nat n, w, 0 :: u32], psb_buffer = replicate n 0 @ rest\<rparr>"
  have "unat (word_of_nat n :: u32) = n" using assms(1) by (simp add: unat_of_nat)
  then have range: "get_range ?p HEADER_PART = Ok (0, n)"
    by (simp add: get_range_def check_index_def part_defs Let_def)
  have "fill_partition ?p HEADER_PART fx = Ok (Ok (), ?p\<lparr>psb_buffer := [] @ header @ rest\<rparr>)"
    using fx by (intro fill_partition_window [OF range, where window = "replicate n 0"]) simp_all
  then show ?thesis by simp
qed

lemma write_extension_Ok:
  assumes n: "0 < n" "n + unat w < 2 ^ 32" "w \<noteq> 0" and body: "length body = n + unat w"
    and fx: "fx (replicate (unat len) 0) = (ext, Ok ())" "length ext = unat len"
  shows "write_payload_extension (FinalPayloadExt \<lparr>layout = [word_of_nat n, w, 0], psb_buffer = body\<rparr>) len fx =
     Ok (body @ ext)"
proof -
  have word: "unat (word_of_nat n :: u32) = n" "(word_of_nat n :: u32) \<noteq> 0"
    using n by (simp_all add: unat_of_nat word_unat_eq_iff)
  have sum: "unat (word_of_nat n + w :: u32) = n + unat w"
    using n(2) word by (subst unat_word_ariths) simp
  let ?p = "\<lparr>layout = [word_of_nat n, w, len], psb_buffer = body @ replicate (unat len) 0\<rparr>"
  have prep: "prepare_extended_payload \<lparr>layout = [word_of_nat n, w, 0], psb_buffer = body\<rparr> len = Ok ?p"
    using n(3) word by (simp add: prepare_extended_payload_def reserve_partition_def check_reserve_def
        check_index_def part_defs upt_rec numeral_2_eq_2 numeral_3_eq_3)
  have range: "get_range ?p PAYLOAD_EXT = Ok (n + unat w, n + unat w + unat len)"
    using body sum by (simp add: get_range_def check_index_def part_defs Let_def numeral_2_eq_2)
  have "fill_partition ?p PAYLOAD_EXT fx = Ok (Ok (), ?p\<lparr>psb_buffer := body @ ext @ []\<rparr>)"
    using fx body by (intro fill_partition_window [OF range, where window = "replicate (unat len) 0"]) simp_all
  with prep show ?thesis by simp
qed

section \<open>Properties\<close>

text \<open>
  C23: The partitions tile the buffer, whatever the callers do: take any sequence of reservations and writes, in
  any order and with the refused ones among them, on a new buffer that stays below \<open>2 ^ 32\<close> bytes. Then
  every partition can be read and holds exactly what was written into it last, zeros if it was only reserved and
  nothing if it was not; the partitions one after the other are the whole buffer and have the widths of the layout;
  and a reservation is accepted for exactly one index, the first partition that is still empty.
\<close>

theorem partitions_tile_buffer:
  assumes "psb_new n = Ok start" and "list_all keeps_length ops"
    and "foldl psb_step (start, replicate n []) ops = (self, contents)" and "length (psb_buffer self) < 2 ^ 32"
  shows "rmap (read_partition self) [0..<n] = Ok contents \<and> concat contents = psb_buffer self \<and>
     map unat (layout self) = map length contents \<and>
     (\<forall>idx len. (\<exists>self'. reserve_partition self idx len = Ok self') =
        (idx < n \<and> idx = length (takeWhile (\<lambda>c. c \<noteq> []) contents)))"
proof -
  have holds: "psb_holds self contents" and n: "length contents = n"
    using psb_run_holds [OF assms(3,2) psb_new_holds [OF assms(1)] assms(4)] by simp_all
  have "rmap (read_partition self) [0..<n] = Ok contents"
    using n by (simp add: rmap_Ok_iff list_all2_conv_all_nth read_partition_holds [OF holds])
  then show ?thesis
    using holds reserve_partition_accepts [OF holds] n by (simp add: psb_holds_def)
qed

theorem partitions_tile_buffer_witness:
  "\<exists>start self. psb_new 3 = Ok start \<and>
     foldl psb_step (start, replicate 3 [])
       [Reserve 0 2, Fill 0 (\<lambda>b. (map (\<lambda>_. 7) b, Ok ())), Reserve 2 4, Reserve 1 3, Fill 1 (\<lambda>b. (map (\<lambda>_. 8) b, Ok ()))] =
       (self, [[7, 7], [8, 8, 8], []]) \<and>
     psb_buffer self = [7, 7, 8, 8, 8] \<and> rmap (read_partition self) [0..<3] = Ok [[7, 7], [8, 8, 8], []] \<and>
     (\<exists>self'. reserve_partition self 2 4 = Ok self')"
proof -
  let ?ops = "[Reserve 0 2, Fill 0 (\<lambda>b. (map (\<lambda>_. 7) b, Ok ())), Reserve 2 4, Reserve 1 3, Fill 1 (\<lambda>b. (map (\<lambda>_. 8) b, Ok ()))]"
  let ?s = "\<lparr>layout = [0, 0, 0], psb_buffer = []\<rparr>"
    and ?e = "\<lparr>layout = [2, 3, 0], psb_buffer = [7, 7, 8, 8, 8]\<rparr>"
  have new: "psb_new 3 = Ok ?s" by (simp add: psb_new_def numeral_3_eq_3)
  have run: "foldl psb_step (?s, replicate 3 []) ?ops = (?e, [[7, 7], [8, 8, 8], []])"
    by code_simp
  have "list_all keeps_length ?ops" "length (psb_buffer ?e) < 2 ^ 32" by simp_all
  note tile = partitions_tile_buffer [OF new this(1) run this(2)]
  then have accepts: "\<exists>self'. reserve_partition ?e 2 4 = Ok self'" by simp
  show ?thesis
    by (rule exI [of _ ?s], rule exI [of _ ?e], intro conjI, rule new, rule run, simp, rule tile [THEN conjunct1], rule accepts)
qed

text \<open>
  C22: A message packet built in the right order, payload, header, extension, contains the header, the
  length-prefixed payload and the extension, and the receiver's \<open>decompose_payload_raw\<close> of what follows
  the header gives payload and extension back.
\<close>

theorem message_packet_round_trip:
  assumes "0 < n" and "n + unat len + 4 < 2 ^ 32"
    and "fx (replicate (unat len) 0) = (payload, Ok ())" and "length payload = unat len"
    and "hx (replicate n 0) = (header, Ok ())" and "length header = n"
    and "ex (replicate (unat ext_len) 0) = (ext, Ok ())" and "length ext = unat ext_len"
  shows "\<exists>p0 p1 p2 packet. message_packet_new n = Ok p0 \<and> write_payload p0 len fx = (Ok (), p1) \<and>
     write_header p1 hx = (Ok (), p2) \<and> write_payload_extension p2 ext_len ex = Ok packet \<and>
     take n packet = header \<and> decompose_payload_raw (drop n packet) = Ok (payload, ext)"
proof -
  have len: "unat (len + 4) = unat len + 4"
    using assms(2) by (subst unat_word_ariths) simp
  then have w: "len + 4 \<noteq> 0" by (auto simp: word_unat_eq_iff)
  let ?body = "header @ u32_to_be len @ payload"
  have "write_payload_extension (FinalPayloadExt \<lparr>layout = [word_of_nat n, len + 4, 0], psb_buffer = ?body\<rparr>)
      ext_len ex = Ok (?body @ ext)"
    using assms len w by (intro write_extension_Ok) simp_all
  moreover have "write_header (HeaderNext \<lparr>layout = [word_of_nat n, len + 4, 0],
      psb_buffer = replicate n 0 @ u32_to_be len @ payload\<rparr>) hx =
      (Ok (), FinalPayloadExt \<lparr>layout = [word_of_nat n, len + 4, 0], psb_buffer = ?body\<rparr>)"
    using assms by (intro write_header_Ok) simp_all
  moreover have "decompose_payload_raw (drop n (?body @ ext)) = Ok (payload, ext)"
    using assms(4,6) by (simp add: decompose_payload_raw_def extract_payload_def Let_def)
  ultimately show ?thesis
    using message_packet_new_Ok [of n] write_payload_Ok [of n len fx payload] assms
    by (intro exI conjI) (assumption | simp)+
qed

theorem message_packet_round_trip_witness:
  "\<exists>p0 p1 p2 packet. message_packet_new 2 = Ok p0 \<and>
     write_payload p0 3 (\<lambda>b. ([7, 8, 9], Ok ())) = (Ok (), p1) \<and>
     write_header p1 (\<lambda>b. ([1, 2], Ok ())) = (Ok (), p2) \<and>
     write_payload_extension p2 1 (\<lambda>b. ([5], Ok ())) = Ok packet \<and>
     take 2 packet = [1, 2] \<and> decompose_payload_raw (drop 2 packet) = Ok ([7, 8, 9], [5])"
  by (rule message_packet_round_trip) simp_all

end
