(* ===== verification/Scrambler.thy ===== *)
theory Scrambler
  imports Packet_Vector Sec_Packet "HOL-Library.AList"
begin

text \<open>
  The sending half of \<open>citadel_crypt/src/scramble/crypt_splitter.rs\<close>: how a plaintext is cut into
  waves and packets, the metadata the receiver gets, the encryption of the waves, and the device that
  hands out the packets. Sizes are natural numbers; a group has at most \<open>MAX_BYTES_PER_GROUP\<close> bytes,
  so the only \<open>usize\<close> operation that can leave the range is the subtraction, which is \<open>usize_sub\<close>. The
  lengths of a Falcon signature and of a Kyber ciphertext, the random shuffle, the closure that writes
  the headers and the clock are arguments. A hash map is an association list with distinct keys.
\<close>

section \<open>Sizes and nonce versions\<close>

definition MAX_WAVEFORM_PACKET_SIZE :: nat where "MAX_WAVEFORM_PACKET_SIZE = 480"

definition AES_GCM_GHASH_OVERHEAD :: nat where "AES_GCM_GHASH_OVERHEAD = 16"

definition get_aes_gcm_overhead :: nat where "get_aes_gcm_overhead = AES_GCM_GHASH_OVERHEAD"

definition get_max_packet_size ::
    "nat \<Rightarrow> (nat \<Rightarrow> nat) \<Rightarrow> encryption_algorithm \<Rightarrow> security_level \<Rightarrow> nat" where
  "get_max_packet_size signature_bytes kyber_ct_len enx security_level =
     (let security_exponent = unat (min (level_value security_level) (level_value Standard));
          starting_max_packet_size =
            max_ciphertext_len signature_bytes kyber_ct_len enx MAX_WAVEFORM_PACKET_SIZE
      in max (starting_max_packet_size div 2 ^ security_exponent) get_aes_gcm_overhead)"

definition calculate_nonce_version :: "u64 \<Rightarrow> u64 \<Rightarrow> u64" where
  "calculate_nonce_version a b = (if a < b then a + b * b else a * a + a + b)"

section \<open>Receiver configuration\<close>

record group_receiver_config =
  gc_packets_needed :: nat
  gc_max_packets_per_wave :: nat
  gc_plaintext_length :: nat
  gc_max_payload_size :: nat
  gc_last_payload_size :: nat
  gc_number_of_full_waves :: nat
  gc_number_of_partial_waves :: nat
  gc_wave_count :: nat
  gc_max_plaintext_wave_length :: nat
  gc_last_plaintext_wave_length :: nat
  gc_packets_in_last_wave :: nat
  gc_header_size_bytes :: nat
  gc_group_id :: u64

definition new_refresh ::
    "u64 \<Rightarrow> nat \<Rightarrow> bytes \<Rightarrow> nat \<Rightarrow> nat \<Rightarrow> nat \<Rightarrow> nat \<Rightarrow> nat \<Rightarrow> nat \<Rightarrow> nat \<Rightarrow> group_receiver_config" where
  "new_refresh group_id header_size_bytes plain_text max_packet_payload_size number_of_full_waves
       number_of_partial_waves max_plaintext_bytes_per_wave bytes_in_last_wave max_packets_per_wave
       ciphertext_len_last_wave =
     (let packets_in_last_wave = div_ceil ciphertext_len_last_wave max_packet_payload_size;
          rest = ciphertext_len_last_wave mod max_packet_payload_size;
          debug_last_payload_size = (if rest = 0 then max_packet_payload_size else rest)
      in \<lparr>gc_packets_needed = number_of_full_waves * max_packets_per_wave + packets_in_last_wave,
          gc_max_packets_per_wave = max_packets_per_wave,
          gc_plaintext_length = length plain_text,
          gc_max_payload_size = max_packet_payload_size,
          gc_last_payload_size = debug_last_payload_size,
          gc_number_of_full_waves = number_of_full_waves,
          gc_number_of_partial_waves = number_of_partial_waves,
          gc_wave_count = number_of_full_waves + number_of_partial_waves,
          gc_max_plaintext_wave_length = max_plaintext_bytes_per_wave,
          gc_last_plaintext_wave_length = bytes_in_last_wave,
          gc_packets_in_last_wave = packets_in_last_wave,
          gc_header_size_bytes = header_size_bytes,
          gc_group_id = group_id\<rparr>)"

definition get_packet_count_in_wave :: "group_receiver_config \<Rightarrow> nat \<Rightarrow> nat" where
  "get_packet_count_in_wave self wave_id =
     (if wave_id = usize_sub (gc_wave_count self) 1 then gc_packets_in_last_wave self
      else gc_max_packets_per_wave self)"

definition generate_scrambler_metadata ::
    "nat \<Rightarrow> (nat \<Rightarrow> nat) \<Rightarrow> entropy_bank \<Rightarrow> bytes \<Rightarrow> nat \<Rightarrow> security_level \<Rightarrow> u64 \<Rightarrow> encryption_algorithm \<Rightarrow>
     (group_receiver_config, crypt_error) result" where
  "generate_scrambler_metadata signature_bytes kyber_ct_len msg_drill plain_text header_size_bytes
       security_level group_id enx =
     (if plain_text = [] then Err (Encrypt ''Empty input'')
      else
        let max_packet_payload_size =
              get_max_packet_size signature_bytes kyber_ct_len enx security_level;
            overhead = usize_sub max_packet_payload_size MAX_WAVEFORM_PACKET_SIZE;
            max_packets_per_wave = get_multiport_width msg_drill;
            max_plaintext_bytes_per_wave =
              usize_sub (max_packet_payload_size * max_packets_per_wave) overhead;
            len = length plain_text
        in if max_plaintext_bytes_per_wave = 0 then Panic
           else
             let (number_of_full_waves, number_of_partial_waves, bytes_in_last_wave) =
                   (if len < max_plaintext_bytes_per_wave
                    then (0, 1, len mod max_plaintext_bytes_per_wave)
                    else if len mod max_plaintext_bytes_per_wave = 0
                    then (len div max_plaintext_bytes_per_wave, 0, max_plaintext_bytes_per_wave)
                    else (len div max_plaintext_bytes_per_wave, 1,
                          len mod max_plaintext_bytes_per_wave));
                 ciphertext_len_last_wave =
                   (if number_of_partial_waves \<noteq> 0
                    then max_ciphertext_len signature_bytes kyber_ct_len enx bytes_in_last_wave
                    else 0)
             in Ok (new_refresh group_id header_size_bytes plain_text max_packet_payload_size
                      number_of_full_waves number_of_partial_waves max_plaintext_bytes_per_wave
                      bytes_in_last_wave max_packets_per_wave ciphertext_len_last_wave))"

section \<open>Encryption of the waves\<close>

record packet_coordinate =
  pc_packet :: bytes
  pc_vector :: packet_vector

type_synonym header_inscriber = "packet_vector \<Rightarrow> entropy_bank \<Rightarrow> u32 \<Rightarrow> u64 \<Rightarrow> bytes"
type_synonym packet_shuffle = "(nat \<times> packet_coordinate) list \<Rightarrow> (nat \<times> packet_coordinate) list"

definition wave_packet ::
    "nat \<Rightarrow> group_receiver_config \<Rightarrow> entropy_bank \<Rightarrow> u64 \<Rightarrow> u32 \<Rightarrow> header_inscriber \<Rightarrow> nat \<times> bytes \<Rightarrow>
     (nat \<times> packet_coordinate, crypt_error) result" where
  "wave_packet wave_idx cfg scramble_drill target_cid object_id header_inscriber =
     (\<lambda>(relative_packet_idx, ciphertext_packet_bytes).
        let true_packet_sequence = wave_idx * gc_max_packets_per_wave cfg + relative_packet_idx in
        rbind (generate_packet_vector true_packet_sequence (gc_group_id cfg) scramble_drill) (\<lambda>vector.
        Ok (true_packet_sequence,
            \<lparr>pc_packet = header_inscriber vector scramble_drill object_id target_cid @
               ciphertext_packet_bytes,
             pc_vector = vector\<rparr>)))"

definition scramble_encrypt_wave ::
    "rnd \<Rightarrow> packet_shuffle \<Rightarrow> nat \<Rightarrow> bytes \<Rightarrow> group_receiver_config \<Rightarrow> entropy_bank \<Rightarrow> pqc \<Rightarrow> entropy_bank \<Rightarrow>
     u64 \<Rightarrow> u32 \<Rightarrow> header_inscriber \<Rightarrow> ((nat \<times> packet_coordinate) list, crypt_error) result" where
  "scramble_encrypt_wave r shuffle wave_idx bytes_to_encrypt_for_this_wave cfg msg_drill msg_pqc
       scramble_drill target_cid object_id header_inscriber =
     rbind (unwrap (ok (bank_encrypt r msg_drill
              (calculate_nonce_version (word_of_nat wave_idx) (gc_group_id cfg)) msg_pqc
              bytes_to_encrypt_for_this_wave)))
       (\<lambda>ciphertext.
     rbind (rmap (wave_packet wave_idx cfg scramble_drill target_cid object_id header_inscriber)
              (List.enumerate 0 (chunks (gc_max_payload_size cfg) ciphertext)))
       (\<lambda>packets. Ok (shuffle packets)))"

definition collect_map :: "(nat \<times> 'a) list \<Rightarrow> (nat \<times> 'a) list" where
  "collect_map kvs = foldl (\<lambda>m (k, v). AList.update k v m) [] kvs"

section \<open>The sender device\<close>

record group_sender =
  packets_in_ram :: "(nat \<times> packet_coordinate) list"
  oneshot :: "secure_message_packet option"
  gs_packets_received :: nat
  gs_packets_sent :: nat
  gs_receiver_config :: group_receiver_config
  last_wave_ack_received :: nat

definition group_sender_new ::
    "nat \<Rightarrow> group_receiver_config \<Rightarrow> (nat \<times> packet_coordinate) list \<Rightarrow> group_sender" where
  "group_sender_new now receiver_config packets =
     \<lparr>packets_in_ram = packets, oneshot = None, gs_packets_received = 0, gs_packets_sent = 0,
      gs_receiver_config = receiver_config, last_wave_ack_received = now\<rparr>"

definition group_sender_new_oneshot ::
    "nat \<Rightarrow> group_receiver_config \<Rightarrow> secure_message_packet \<Rightarrow> group_sender" where
  "group_sender_new_oneshot now receiver_config packet =
     \<lparr>packets_in_ram = [], oneshot = Some packet, gs_packets_received = 0, gs_packets_sent = 0,
      gs_receiver_config = receiver_config, last_wave_ack_received = now\<rparr>"

text \<open>\<open>header_len\<close> is the constant parameter \<open>N\<close> of the device.\<close>

definition par_scramble_encrypt_group ::
    "nat \<Rightarrow> (nat \<Rightarrow> nat) \<Rightarrow> (nat \<Rightarrow> rnd) \<Rightarrow> packet_shuffle \<Rightarrow> nat \<Rightarrow> nat \<Rightarrow> bytes \<Rightarrow> security_level \<Rightarrow>
     pqc \<times> entropy_bank \<Rightarrow> entropy_bank \<Rightarrow> nat \<Rightarrow> u64 \<Rightarrow> u32 \<Rightarrow> u64 \<Rightarrow> header_inscriber \<Rightarrow>
     (group_sender, crypt_error) result" where
  "par_scramble_encrypt_group signature_bytes kyber_ct_len rs shuffle now header_len plain_text
       security_level message_pqc_drill scramble_drill header_size_bytes target_cid object_id
       group_id header_inscriber =
     (let (msg_pqc, msg_drill) = message_pqc_drill in
      rbind (generate_scrambler_metadata signature_bytes kyber_ct_len msg_drill plain_text
               header_size_bytes security_level group_id (encryption_algorithm (pq_params msg_pqc)))
        (\<lambda>cfg.
      rbind (rmap (\<lambda>(wave_idx, bytes_to_encrypt_for_this_wave).
                scramble_encrypt_wave (rs wave_idx) shuffle wave_idx bytes_to_encrypt_for_this_wave
                  cfg msg_drill msg_pqc scramble_drill target_cid object_id header_inscriber)
              (List.enumerate 0 (chunks (gc_max_plaintext_wave_length cfg) plain_text)))
        (\<lambda>waves.
      let packets = collect_map (concat waves) in
      if encryption_algorithm (pq_params msg_pqc) \<noteq> Kyber
      then Ok (group_sender_new now cfg packets)
      else
        let last_wave_idx = word_of_nat (gc_wave_count cfg) - 1;
            ciphertext_len = sum_list (map (\<lambda>(k, c).
              if pv_wave_id (pc_vector c) = last_wave_idx
              then usize_sub (length (pc_packet c)) header_len else 0) packets)
        in Ok (group_sender_new now
             (new_refresh (gc_group_id cfg) (gc_header_size_bytes cfg) plain_text
                (gc_max_payload_size cfg) (gc_number_of_full_waves cfg)
                (gc_number_of_partial_waves cfg) (gc_max_plaintext_wave_length cfg)
                (gc_last_plaintext_wave_length cfg) (gc_max_packets_per_wave cfg) ciphertext_len)
             packets))))"

definition oneshot_unencrypted_group_unified ::
    "nat \<Rightarrow> secure_message_packet \<Rightarrow> nat \<Rightarrow> u64 \<Rightarrow> (group_sender, crypt_error) result" where
  "oneshot_unencrypted_group_unified now plain_text header_size_bytes group_id =
     (let len = message_len plain_text in
      Ok (group_sender_new_oneshot now
        \<lparr>gc_packets_needed = 1, gc_max_packets_per_wave = 1, gc_plaintext_length = len,
         gc_max_payload_size = len, gc_last_payload_size = len, gc_number_of_full_waves = 0,
         gc_number_of_partial_waves = 1, gc_wave_count = 1, gc_max_plaintext_wave_length = len,
         gc_last_plaintext_wave_length = len, gc_packets_in_last_wave = 1,
         gc_header_size_bytes = header_size_bytes, gc_group_id = group_id\<rparr> plain_text))"

text \<open>The comparison is done in \<open>f32\<close>: 24 significant bits; both sides are doubled.\<close>

definition is_atleast_fifty_percent_done :: "group_sender \<Rightarrow> bool" where
  "is_atleast_fifty_percent_done self \<longleftrightarrow>
     2 * round_bits 24 (gc_packets_needed (gs_receiver_config self)) \<le>
     round_bits 24 (3 * round_bits 24 (gs_packets_received self))"

definition get_next_packet ::
    "group_sender \<Rightarrow> (packet_coordinate option, crypt_error) result \<times> group_sender" where
  "get_next_packet self =
     (if gs_packets_sent self \<noteq> gc_packets_needed (gs_receiver_config self) then
        case map_of (packets_in_ram self) (gs_packets_sent self) of
          None \<Rightarrow> (Panic, self)
        | Some next_packet \<Rightarrow>
            (Ok (Some next_packet),
             self\<lparr>packets_in_ram := AList.delete (gs_packets_sent self) (packets_in_ram self),
                  gs_packets_sent := gs_packets_sent self + 1\<rparr>)
      else (Ok None, self))"

definition get_oneshot :: "group_sender \<Rightarrow> secure_message_packet option \<times> group_sender" where
  "get_oneshot self = (oneshot self, self\<lparr>oneshot := None\<rparr>)"

definition get_packets_in_wave :: "group_sender \<Rightarrow> u32 \<Rightarrow> nat" where
  "get_packets_in_wave self wave_id =
     (if wave_id = word_of_nat (gc_wave_count (gs_receiver_config self)) - 1
      then gc_packets_in_last_wave (gs_receiver_config self)
      else gc_max_packets_per_wave (gs_receiver_config self))"

definition on_wave_tail_ack_received :: "nat \<Rightarrow> group_sender \<Rightarrow> u32 \<Rightarrow> bool \<times> group_sender" where
  "on_wave_tail_ack_received now self wave_id =
     (let offset = gc_max_packets_per_wave (gs_receiver_config self) * unat wave_id;
          packets_in_this_wave = get_packets_in_wave self wave_id;
          self' = self\<lparr>packets_in_ram :=
                         fold AList.delete [offset..<offset + packets_in_this_wave] (packets_in_ram self),
                       last_wave_ack_received := now,
                       gs_packets_received := gs_packets_received self + packets_in_this_wave\<rparr>
      in (gs_packets_received self' = gc_packets_needed (gs_receiver_config self'), self'))"

text \<open>The order in which \<open>drain\<close> yields the packets is that of the list.\<close>

definition take_all_packets :: "group_sender \<Rightarrow> packet_coordinate list \<times> group_sender" where
  "take_all_packets self = (map snd (packets_in_ram self), self\<lparr>packets_in_ram := []\<rparr>)"

definition sender_has_expired :: "nat \<Rightarrow> group_sender \<Rightarrow> nat \<Rightarrow> bool" where
  "sender_has_expired now self timeout \<longleftrightarrow> timeout < now - last_wave_ack_received self"

section \<open>Uniqueness of the nonce version\<close>

definition szudzik :: "nat \<Rightarrow> nat \<Rightarrow> nat" where
  "szudzik a b = (if a < b then a + b * b else a * a + a + b)"

lemma szudzik_bounds: "max a b * max a b \<le> szudzik a b" "szudzik a b < (max a b + 1) * (max a b + 1)"
  by (auto simp: szudzik_def max_def algebra_simps)

lemma square_interval:
  fixes m n x :: nat
  assumes "m * m \<le> x" "x < (m + 1) * (m + 1)" "n * n \<le> x" "x < (n + 1) * (n + 1)"
  shows "m = n"
proof (rule ccontr)
  assume "m \<noteq> n"
  then consider "m + 1 \<le> n" | "n + 1 \<le> m" by linarith
  then show False
  proof cases
    case 1
    then have "(m + 1) * (m + 1) \<le> n * n" by (rule mult_le_mono) (rule 1)
    with assms show False by linarith
  next
    case 2
    then have "(n + 1) * (n + 1) \<le> m * m" by (rule mult_le_mono) (rule 2)
    with assms show False by linarith
  qed
qed

lemma szudzik_inject:
  assumes "szudzik a b = szudzik c d"
  shows "a = c \<and> b = d"
proof -
  have "max a b = max c d"
    using szudzik_bounds [of a b] szudzik_bounds [of c d] assms by (intro square_interval) auto
  then show ?thesis
    using assms by (auto simp: szudzik_def max_def split: if_splits)
qed

lemma unat_nonce_version:
  assumes "unat a < 2 ^ 32" and "unat b < 2 ^ 32"
  shows "unat (calculate_nonce_version a b) = szudzik (unat a) (unat b)"
proof -
  have sq: "x * y \<le> (2 ^ 32 - 1) * (2 ^ 32 - 1)" if "x < 2 ^ 32" "y < 2 ^ 32" for x y :: nat
    using that by (intro mult_le_mono) simp_all
  have m: "unat (x * y) = unat x * unat y" if "unat x < 2 ^ 32" "unat y < 2 ^ 32" for x y :: u64
    using sq [OF that] by (subst unat_word_ariths) simp
  have p: "unat (x + y) = unat x + unat y" if "unat x + unat y < 2 ^ 64" for x y :: u64
    using that by (subst unat_word_ariths) simp
  have "unat b * unat b \<le> (2 ^ 32 - 1) * (2 ^ 32 - 1)" "unat a * unat a \<le> (2 ^ 32 - 1) * (2 ^ 32 - 1)"
    using sq assms by blast+
  then have "unat (a + b * b) = unat a + unat b * unat b"
    "unat (a * a + a + b) = unat a * unat a + unat a + unat b"
    using assms by (simp_all add: p m)
  then show ?thesis
    by (simp add: calculate_nonce_version_def szudzik_def word_less_nat_alt)
qed

section \<open>Properties\<close>

text \<open>
  C25: As long as wave and group identifiers are below \<open>2 ^ 32\<close>, the nonce version is unique: two
  different pairs of wave and group never share one.
\<close>

theorem nonce_version_unique:
  assumes "unat a < 2 ^ 32" and "unat b < 2 ^ 32" and "unat c < 2 ^ 32" and "unat d < 2 ^ 32"
    and "calculate_nonce_version a b = calculate_nonce_version c d"
  shows "a = c \<and> b = d"
proof -
  have "szudzik (unat a) (unat b) = szudzik (unat c) (unat d)"
    using assms(5) unat_nonce_version [OF assms(1,2)] unat_nonce_version [OF assms(3,4)] by simp
  from szudzik_inject [OF this] show ?thesis by (simp add: word_unat_eq_iff)
qed

theorem nonce_version_unique_witness:
  "calculate_nonce_version 3 5 \<noteq> calculate_nonce_version 5 3"
  using nonce_version_unique [of 3 5 5 3] by auto

text \<open>
  Above that bound uniqueness is lost to the wrap-around of \<open>usize\<close>: wave 0 of group \<open>2 ^ 32\<close> and wave
  0 of group 0 have the same nonce version, although the group identifier has 64 bits.
\<close>

theorem nonce_version_collides:
  "calculate_nonce_version 0 (2 ^ 32) = calculate_nonce_version 0 0 \<and> (2 ^ 32 :: u64) \<noteq> 0"
  by (simp add: calculate_nonce_version_def)

end
