(* ===== verification/Group_Receiver.thy ===== *)
theory Group_Receiver
  imports Scrambler
begin

text \<open>
  The receiving half of \<open>citadel_crypt/src/scramble/crypt_splitter.rs\<close>: the buffers of the waves, the
  handling of one packet, the decryption of a complete wave into the plaintext slab, and the queries.
  Clock readings are arguments. The \<open>capacity\<close> of a vector made by \<open>vec![0; n]\<close> is its length.
\<close>

section \<open>State\<close>

datatype group_receiver_status =
    GROUP_COMPLETE u32
  | INVALID_PACKET
  | ALREADY_RECEIVED
  | INSERT_SUCCESS
  | CORRUPT_WAVE
  | WAVE_COMPLETE u32
  | NEEDS_RETRANSMISSION u32

record wave_store =
  ws_packets_received :: nat
  ws_packets_in_wave :: nat
  ws_bytes_written :: nat
  ws_last_packet_recv_time :: "nat option"
  ciphertext_buffer :: bytes

record group_receiver =
  unified_plaintext_slab :: bytes
  temp_wave_store :: "(nat \<times> wave_store) list"
  packets_received_order :: "bool list"
  waves_received :: "bool list"
  gr_packets_needed :: nat
  gr_last_packet_recv_time :: nat
  gr_max_payload_size :: nat
  gr_last_payload_size :: nat
  gr_max_packets_per_wave :: nat
  gr_max_plaintext_wave_length :: nat
  gr_last_plaintext_wave_length :: nat
  gr_wave_count :: nat
  lowest_sequential_wave_completed :: int
  last_complete_wave :: int
  group_timeout :: nat
  wave_timeout :: nat

definition wave_store_new :: "nat \<Rightarrow> group_receiver_config \<Rightarrow> nat \<Rightarrow> wave_store" where
  "wave_store_new now cfg wave_id_cur =
     (let (alloc_size, packets_in_wave) =
            (if wave_id_cur = usize_sub (gc_wave_count cfg) 1 then
               let packets_in_last_wave = get_packet_count_in_wave cfg wave_id_cur;
                   normal_packet_count = packets_in_last_wave - 1
               in (normal_packet_count * gc_max_payload_size cfg + gc_last_payload_size cfg,
                   packets_in_last_wave)
             else (gc_max_payload_size cfg * gc_max_packets_per_wave cfg, gc_max_packets_per_wave cfg))
      in \<lparr>ws_packets_received = 0, ws_packets_in_wave = packets_in_wave, ws_bytes_written = 0,
          ws_last_packet_recv_time = (if wave_id_cur = 0 then Some now else None),
          ciphertext_buffer = replicate alloc_size 0\<rparr>)"

definition group_receiver_new :: "nat \<Rightarrow> group_receiver_config \<Rightarrow> nat \<Rightarrow> nat \<Rightarrow> group_receiver" where
  "group_receiver_new now cfg wave_timeout_ms group_timeout_ms =
     \<lparr>unified_plaintext_slab = replicate (gc_plaintext_length cfg) 0,
      temp_wave_store = map (\<lambda>w. (w, wave_store_new now cfg w)) [0..<gc_wave_count cfg],
      packets_received_order = replicate (gc_packets_needed cfg) False,
      waves_received = replicate (gc_wave_count cfg) False,
      gr_packets_needed = gc_packets_needed cfg,
      gr_last_packet_recv_time = now,
      gr_max_payload_size = gc_max_payload_size cfg,
      gr_last_payload_size = gc_last_payload_size cfg,
      gr_max_packets_per_wave = gc_max_packets_per_wave cfg,
      gr_max_plaintext_wave_length = gc_max_plaintext_wave_length cfg,
      gr_last_plaintext_wave_length = gc_last_plaintext_wave_length cfg,
      gr_wave_count = gc_wave_count cfg,
      lowest_sequential_wave_completed = -1,
      last_complete_wave = -1,
      group_timeout = group_timeout_ms,
      wave_timeout = wave_timeout_ms\<rparr>"

section \<open>One packet\<close>

definition get_ciphertext_insertion_range ::
    "nat \<Rightarrow> nat \<Rightarrow> nat \<Rightarrow> nat \<Rightarrow> nat \<Rightarrow> wave_store \<Rightarrow> (nat \<times> nat, crypt_error) result" where
  "get_ciphertext_insertion_range true_sequence max_packets_per_wave packets_needed
       last_payload_size max_payload_size store =
     (if max_packets_per_wave = 0 then Panic
      else
        let packet_idx_relative_to_wave = true_sequence mod max_packets_per_wave in
        if true_sequence = usize_sub packets_needed 1 then
          let len = length (ciphertext_buffer store) in Ok (usize_sub len last_payload_size, len)
        else
          let start_idx = max_payload_size * packet_idx_relative_to_wave
          in Ok (start_idx, max_payload_size + start_idx))"

definition get_plaintext_buffer_insertion_range_by_wave_id :: "u32 \<Rightarrow> bytes \<Rightarrow> nat \<Rightarrow> nat \<times> nat" where
  "get_plaintext_buffer_insertion_range_by_wave_id wave_id plaintext max_plaintext_wave_length =
     (let start_idx = unat wave_id * max_plaintext_wave_length
      in (start_idx, start_idx + length plaintext))"

text \<open>Copying a packet into the buffer of its wave.\<close>

definition store_packet ::
    "nat \<Rightarrow> group_receiver \<Rightarrow> nat \<Rightarrow> wave_store \<Rightarrow> bytes \<Rightarrow> (wave_store, crypt_error) result" where
  "store_packet now self true_sequence store packet =
     rbind (get_ciphertext_insertion_range true_sequence (gr_max_packets_per_wave self)
              (gr_packets_needed self) (gr_last_payload_size self) (gr_max_payload_size self) store)
       (\<lambda>(start_idx, end_idx).
     rbind (slice (ciphertext_buffer store) start_idx end_idx) (\<lambda>dest_bytes.
     rbind (slice dest_bytes 0 (length packet)) (\<lambda>_.
     Ok (store\<lparr>ciphertext_buffer := splice (ciphertext_buffer store) start_idx packet,
               ws_packets_received := ws_packets_received store + 1,
               ws_bytes_written := ws_bytes_written store + length packet,
               ws_last_packet_recv_time := Some now\<rparr>))))"

text \<open>What follows the decryption of a complete wave: the clock of the next wave starts.\<close>

definition start_next_wave :: "nat \<Rightarrow> group_receiver \<Rightarrow> nat \<Rightarrow> group_receiver" where
  "start_next_wave now self w =
     (case map_of (temp_wave_store self) (w + 1) of
        Some next_wave \<Rightarrow>
          self\<lparr>temp_wave_store := AList.update (w + 1)
                 (next_wave\<lparr>ws_last_packet_recv_time := Some now\<rparr>) (temp_wave_store self)\<rparr>
      | None \<Rightarrow> self)"

definition finish_wave ::
    "nat \<Rightarrow> group_receiver \<Rightarrow> u32 \<Rightarrow> bytes \<Rightarrow> (group_receiver_status \<times> group_receiver, crypt_error) result" where
  "finish_wave now self wave_id plaintext =
     (let w = unat wave_id;
          (start_idx, end_idx) = get_plaintext_buffer_insertion_range_by_wave_id wave_id plaintext
                                   (gr_max_plaintext_wave_length self) in
      rbind (slice (unified_plaintext_slab self) start_idx end_idx) (\<lambda>_.
      let self1 = self\<lparr>unified_plaintext_slab := splice (unified_plaintext_slab self) start_idx plaintext,
                       temp_wave_store := AList.delete w (temp_wave_store self)\<rparr> in
      if temp_wave_store self1 = [] then Ok (GROUP_COMPLETE wave_id, self1)
      else
        let self2 = start_next_wave now self1 w;
            self3 = (if int w - 1 = lowest_sequential_wave_completed self2
                     then self2\<lparr>lowest_sequential_wave_completed := int w\<rparr> else self2)
        in if length (waves_received self3) \<le> w then Panic
           else Ok (WAVE_COMPLETE wave_id,
                    self3\<lparr>waves_received := (waves_received self3)[w := True],
                          last_complete_wave := int w\<rparr>)))"

text \<open>What follows the copying of a packet: a complete wave is decrypted.\<close>

definition check_wave_complete ::
    "nat \<Rightarrow> group_receiver \<Rightarrow> u64 \<Rightarrow> u32 \<Rightarrow> pqc \<times> entropy_bank \<Rightarrow> wave_store \<Rightarrow>
     (group_receiver_status \<times> group_receiver, crypt_error) result" where
  "check_wave_complete now self group_id wave_id message_pqc_drill wave_store =
     (if ws_packets_received wave_store = ws_packets_in_wave wave_store then
        rbind (slice (ciphertext_buffer wave_store) 0 (ws_bytes_written wave_store))
          (\<lambda>ciphertext_bytes_for_this_wave.
        let (msg_pqc, msg_drill) = message_pqc_drill in
        case bank_decrypt msg_drill (calculate_nonce_version (ucast wave_id) group_id) msg_pqc
               ciphertext_bytes_for_this_wave of
          Ok plaintext \<Rightarrow> finish_wave now self wave_id plaintext
        | Err err \<Rightarrow> Ok (CORRUPT_WAVE, self)
        | Panic \<Rightarrow> Panic)
      else Ok (INSERT_SUCCESS, self\<lparr>gr_last_packet_recv_time := now\<rparr>))"

definition on_packet_received ::
    "nat \<Rightarrow> group_receiver \<Rightarrow> u64 \<Rightarrow> nat \<Rightarrow> u32 \<Rightarrow> pqc \<times> entropy_bank \<Rightarrow> bytes \<Rightarrow>
     (group_receiver_status \<times> group_receiver, crypt_error) result" where
  "on_packet_received now self group_id true_sequence wave_id message_pqc_drill packet =
     (if length (packets_received_order self) \<le> true_sequence then Ok (INVALID_PACKET, self)
      else if packets_received_order self ! true_sequence then Ok (ALREADY_RECEIVED, self)
      else
        let self1 = self\<lparr>packets_received_order := (packets_received_order self)[true_sequence := True]\<rparr>
        in case map_of (temp_wave_store self1) (unat wave_id) of
             None \<Rightarrow> Ok (INVALID_PACKET, self1)
           | Some wave_store \<Rightarrow>
               rbind (store_packet now self1 true_sequence wave_store packet) (\<lambda>wave_store.
               check_wave_complete now
                 (self1\<lparr>temp_wave_store :=
                          AList.update (unat wave_id) wave_store (temp_wave_store self1)\<rparr>)
                 group_id wave_id message_pqc_drill wave_store))"

section \<open>Queries\<close>

definition get_missing_waves :: "group_receiver \<Rightarrow> (u32 list option, crypt_error) result" where
  "get_missing_waves self =
     (if lowest_sequential_wave_completed self < 0 then Ok None
      else
        let start = nat (lowest_sequential_wave_completed self);
            stop = unat (word_of_int (last_complete_wave self) :: u64) in
        rbind (slice (waves_received self) start stop) (\<lambda>subset.
        let ret = [word_of_nat (start + i). (i, finished) \<leftarrow> List.enumerate 0 subset, \<not> finished]
        in if ret \<noteq> [] then Ok (Some ret) else Ok None))"

definition get_missing_count_in_wave :: "group_receiver \<Rightarrow> u32 \<Rightarrow> nat option" where
  "get_missing_count_in_wave self wave_id =
     map_option (\<lambda>store. usize_sub (ws_packets_in_wave store) (ws_packets_received store))
       (map_of (temp_wave_store self) (unat wave_id))"

definition finalize :: "group_receiver \<Rightarrow> bytes" where
  "finalize self = unified_plaintext_slab self"

definition get_last_complete_wave :: "group_receiver \<Rightarrow> u32 option" where
  "get_last_complete_wave self =
     (if last_complete_wave self < 0 then None else Some (word_of_int (last_complete_wave self)))"

definition receiver_has_expired :: "nat \<Rightarrow> group_receiver \<Rightarrow> nat \<Rightarrow> bool" where
  "receiver_has_expired now self timeout \<longleftrightarrow> timeout < now - gr_last_packet_recv_time self"

end
