(* ===== verification/Group_Reassembly.thy ===== *)
theory Group_Reassembly
  imports Group_Receiver
begin

text \<open>
  Reassembly of a group: the receiver against the ciphertexts of the waves. The invariant relates its
  state to the set of packets received so far; every packet step keeps it, in whatever order the
  packets arrive and however often. Then the sender's metadata are shown to describe the packets it
  makes, except when the plaintext fills its waves exactly.
\<close>

section \<open>A group\<close>

text \<open>The packet with number \<open>i\<close> carries this piece of the ciphertext of its wave.\<close>

definition packet_body :: "group_receiver_config \<Rightarrow> bytes list \<Rightarrow> nat \<Rightarrow> bytes" where
  "packet_body cfg cts i =
     chunks (gc_max_payload_size cfg) (cts ! (i div gc_max_packets_per_wave cfg)) !
       (i mod gc_max_packets_per_wave cfg)"

definition wave_size :: "group_receiver_config \<Rightarrow> bytes list \<Rightarrow> nat \<Rightarrow> nat" where
  "wave_size cfg cts w = length (chunks (gc_max_payload_size cfg) (cts ! w))"

definition wave_text :: "group_receiver_config \<Rightarrow> bytes \<Rightarrow> nat \<Rightarrow> bytes" where
  "wave_text cfg plain w = chunks (gc_max_plaintext_wave_length cfg) plain ! w"

text \<open>The configuration describes the ciphertexts \<open>cts\<close> of the waves of \<open>plain\<close>.\<close>

definition describes :: "group_receiver_config \<Rightarrow> bytes list \<Rightarrow> bytes \<Rightarrow> bool" where
  "describes cfg cts plain \<longleftrightarrow>
     0 < gc_max_payload_size cfg \<and> 0 < gc_max_packets_per_wave cfg \<and>
     0 < gc_max_plaintext_wave_length cfg \<and>
     cts \<noteq> [] \<and> gc_wave_count cfg = length cts \<and> length cts < 2 ^ 32 \<and>
     (\<forall>w < length cts - 1. length (cts ! w) = gc_max_payload_size cfg * gc_max_packets_per_wave cfg) \<and>
     last cts \<noteq> [] \<and> length (last cts) \<le> gc_max_payload_size cfg * gc_max_packets_per_wave cfg \<and>
     gc_packets_in_last_wave cfg = div_ceil (length (last cts)) (gc_max_payload_size cfg) \<and>
     gc_last_payload_size cfg =
       (if length (last cts) mod gc_max_payload_size cfg = 0 then gc_max_payload_size cfg
        else length (last cts) mod gc_max_payload_size cfg) \<and>
     gc_packets_needed cfg =
       (length cts - 1) * gc_max_packets_per_wave cfg + gc_packets_in_last_wave cfg \<and>
     gc_plaintext_length cfg = length plain \<and>
     length (chunks (gc_max_plaintext_wave_length cfg) plain) = length cts"

lemma last_chunk_length:
  assumes "0 < m" and "c \<noteq> []"
  shows "(div_ceil (length c) m - 1) * m + (if length c mod m = 0 then m else length c mod m) = length c"
proof -
  have eq: "length c div m * m + length c mod m = length c" by simp
  show ?thesis
  proof (cases "length c mod m = 0")
    case True
    with assms have "0 < length c div m"
      by (metis add.right_neutral eq length_greater_0_conv mult_zero_left not_gr0)
    then have "(length c div m - 1) * m + m = length c div m * m"
      by (simp add: diff_mult_distrib)
    with True eq show ?thesis by (simp add: div_ceil_def)
  qed (simp add: div_ceil_def eq)
qed

lemma last_chunk_start:
  assumes "0 < m" and "c \<noteq> []"
  shows "length c - (if length c mod m = 0 then m else length c mod m) = (div_ceil (length c) m - 1) * m"
    and "(if length c mod m = 0 then m else length c mod m) \<le> length c"
  using last_chunk_length [OF assms] by linarith+

lemma wave_size_cases:
  assumes d: "describes cfg cts plain" and w: "w < length cts"
  shows "wave_size cfg cts w =
      (if w = length cts - 1 then gc_packets_in_last_wave cfg else gc_max_packets_per_wave cfg)"
    and "wave_size cfg cts w \<le> gc_max_packets_per_wave cfg" and "0 < wave_size cfg cts w"
proof -
  let ?m = "gc_max_payload_size cfg" and ?p = "gc_max_packets_per_wave cfg"
  have pos: "0 < ?m" "0 < ?p" using d by (simp_all add: describes_def)
  have last: "last cts = cts ! (length cts - 1)"
    using d by (simp add: describes_def last_conv_nth)
  have size: "wave_size cfg cts w = div_ceil (length (cts ! w)) ?m"
    by (simp add: wave_size_def length_chunks pos)
  show eq: "wave_size cfg cts w =
      (if w = length cts - 1 then gc_packets_in_last_wave cfg else ?p)"
    using d w last pos by (auto simp: size describes_def mult.commute)
  have len: "length (cts ! w) \<le> ?p * ?m \<and> 0 < length (cts ! w)"
  proof (cases "w = length cts - 1")
    case True
    with d last show ?thesis by (simp add: describes_def mult.commute)
  next
    case False
    with d w have "length (cts ! w) = ?m * ?p" by (simp add: describes_def)
    with pos show ?thesis by (simp add: mult.commute)
  qed
  show "wave_size cfg cts w \<le> ?p" using div_ceil_le [OF pos(1)] len by (simp add: size)
  show "0 < wave_size cfg cts w" using div_ceil_pos [OF pos(1)] len by (simp add: size)
qed

lemma packet_index:
  assumes d: "describes cfg cts plain"
  shows "i < gc_packets_needed cfg \<longleftrightarrow>
     i div gc_max_packets_per_wave cfg < length cts \<and>
     i mod gc_max_packets_per_wave cfg < wave_size cfg cts (i div gc_max_packets_per_wave cfg)"
proof -
  let ?p = "gc_max_packets_per_wave cfg" and ?l = "length cts - 1"
  let ?w = "i div ?p" and ?k = "i mod ?p"
  have p: "0 < ?p" and ne: "0 < length cts" and needed: "gc_packets_needed cfg = ?l * ?p + gc_packets_in_last_wave cfg"
    using d by (auto simp: describes_def)
  have i: "i = ?w * ?p + ?k" "?k < ?p" using p by simp_all
  have last: "gc_packets_in_last_wave cfg \<le> ?p" "wave_size cfg cts ?l = gc_packets_in_last_wave cfg"
    using wave_size_cases [OF d, of ?l] ne by simp_all
  consider "?w < ?l" | "?w = ?l" | "?l < ?w" by linarith
  then show ?thesis
  proof cases
    case 1
    then have "(?w + 1) * ?p \<le> ?l * ?p" by (intro mult_le_mono) simp_all
    then have "?w * ?p + ?p \<le> ?l * ?p" by simp
    with i have "i < gc_packets_needed cfg" using needed by linarith
    moreover have "wave_size cfg cts ?w = ?p"
      using 1 wave_size_cases(1) [OF d, of ?w] by simp
    ultimately show ?thesis using 1 i(2) by simp
  next
    case 2
    with i last needed ne show ?thesis by (metis add_less_cancel_left diff_less less_one)
  next
    case 3
    then have "(?l + 1) * ?p \<le> ?w * ?p" by (intro mult_le_mono) simp_all
    with last(1) needed have "gc_packets_needed cfg \<le> ?w * ?p" by simp
    with i(1) have "\<not> i < gc_packets_needed cfg" by linarith
    moreover have "\<not> ?w < length cts" using 3 by linarith
    ultimately show ?thesis by blast
  qed
qed

section \<open>Storing a packet\<close>

definition receiver_of :: "group_receiver_config \<Rightarrow> group_receiver \<Rightarrow> bool" where
  "receiver_of cfg self \<longleftrightarrow>
     gr_packets_needed self = gc_packets_needed cfg \<and>
     gr_max_payload_size self = gc_max_payload_size cfg \<and>
     gr_last_payload_size self = gc_last_payload_size cfg \<and>
     gr_max_packets_per_wave self = gc_max_packets_per_wave cfg \<and>
     gr_max_plaintext_wave_length self = gc_max_plaintext_wave_length cfg \<and>
     length (waves_received self) = gc_wave_count cfg"

definition stored :: "nat \<Rightarrow> nat \<Rightarrow> wave_store \<Rightarrow> bytes \<Rightarrow> wave_store" where
  "stored now start store packet =
     store\<lparr>ciphertext_buffer := splice (ciphertext_buffer store) start packet,
           ws_packets_received := ws_packets_received store + 1,
           ws_bytes_written := ws_bytes_written store + length packet,
           ws_last_packet_recv_time := Some now\<rparr>"

lemma packet_body_bounds:
  assumes d: "describes cfg cts plain" and i: "i < gc_packets_needed cfg"
  defines "m \<equiv> gc_max_payload_size cfg" and "c \<equiv> cts ! (i div gc_max_packets_per_wave cfg)"
    and "k \<equiv> i mod gc_max_packets_per_wave cfg"
  shows "packet_body cfg cts i = take m (drop (k * m) c)"
    and "length (packet_body cfg cts i) = min m (length c - k * m)" and "k * m < length c"
    and "k < length (chunks m c)" and "0 < m"
proof -
  show m: "0 < m" using d by (simp add: describes_def m_def)
  show k: "k < length (chunks m c)"
    using packet_index [OF d, of i] i by (simp add: wave_size_def m_def c_def k_def)
  show "packet_body cfg cts i = take m (drop (k * m) c)"
    using nth_chunks [OF m k] by (simp add: packet_body_def m_def c_def k_def)
  then show "length (packet_body cfg cts i) = min m (length c - k * m)" by simp
  show "k * m < length c" by (rule chunks_index_bound [OF m k])
qed

lemma insertion_range:
  assumes d: "describes cfg cts plain" and i: "i < gc_packets_needed cfg" and self: "receiver_of cfg self"
    and buf: "length (ciphertext_buffer store) = length (cts ! (i div gc_max_packets_per_wave cfg))"
  defines "m \<equiv> gc_max_payload_size cfg" and "k \<equiv> i mod gc_max_packets_per_wave cfg"
  shows "\<exists>e. get_ciphertext_insertion_range i (gr_max_packets_per_wave self) (gr_packets_needed self)
      (gr_last_payload_size self) (gr_max_payload_size self) store = Ok (k * m, e) \<and>
     k * m + length (packet_body cfg cts i) \<le> e \<and> e \<le> length (ciphertext_buffer store)"
proof -
  let ?p = "gc_max_packets_per_wave cfg" and ?l = "length cts - 1"
  let ?c = "cts ! (i div ?p)"
  note body = packet_body_bounds [OF d i, folded m_def k_def]
  have fit: "k * m + length (packet_body cfg cts i) \<le> length ?c"
    using body(2,3) by linarith
  have p: "0 < ?p" and lt: "length cts < 2 ^ 32" and ne: "cts \<noteq> []" using d by (simp_all add: describes_def)
  have needed: "gc_packets_needed cfg = ?l * ?p + gc_packets_in_last_wave cfg"
    using d by (simp add: describes_def)
  have last: "last cts = cts ! ?l" using ne by (simp add: last_conv_nth)
  have lsize: "gc_packets_in_last_wave cfg = div_ceil (length (last cts)) m" "0 < gc_packets_in_last_wave cfg"
    "gc_packets_in_last_wave cfg \<le> ?p"
    using d wave_size_cases [OF d, of ?l] ne by (simp_all add: describes_def m_def)
  have lps: "gc_last_payload_size cfg = (if length (last cts) mod m = 0 then m else length (last cts) mod m)"
    and lne: "last cts \<noteq> []"
    using d by (simp_all add: describes_def m_def)
  have sub: "usize_sub (gc_packets_needed cfg) 1 = ?l * ?p + (gc_packets_in_last_wave cfg - 1)"
    using needed lsize(2) by simp
  show ?thesis
  proof (cases "i = usize_sub (gc_packets_needed cfg) 1")
    case True
    obtain q where q: "gc_packets_in_last_wave cfg = Suc q" using lsize(2) gr0_implies_Suc by blast
    have "i = ?l * ?p + q" "q < ?p" using True sub lsize(3) by (simp_all add: q)
    then have "i div ?p = ?l" "k = gc_packets_in_last_wave cfg - 1"
      using p by (simp_all add: k_def q)
    moreover have "length (last cts) - gc_last_payload_size cfg = (gc_packets_in_last_wave cfg - 1) * m"
      "gc_last_payload_size cfg \<le> length (last cts)"
      using last_chunk_start [OF body(5) lne] unfolding lps lsize(1) by blast+
    ultimately show ?thesis
      using True self buf p fit last
      by (auto simp: get_ciphertext_insertion_range_def receiver_of_def Let_def)
  next
    case False
    have "k * m + m \<le> length ?c"
    proof (cases "i div ?p = ?l")
      case True
      have "i = ?l * ?p + k" using True p by (metis div_mult_mod_eq k_def)
      with False sub i needed have "k + 1 \<le> gc_packets_in_last_wave cfg - 1" by linarith
      then have "(k + 1) * m \<le> (gc_packets_in_last_wave cfg - 1) * m" by (rule mult_le_mono1)
      also have "\<dots> \<le> length (last cts)"
        using last_chunk_length [OF body(5) lne] unfolding lsize(1) by linarith
      finally show ?thesis using True last by simp
    next
      case False
      have "i div ?p < length cts" using packet_index [OF d] i by blast
      with False have "length ?c = m * ?p" using d by (simp add: describes_def m_def)
      moreover have "(k + 1) * m \<le> ?p * m" using p by (intro mult_le_mono1) (simp add: k_def Suc_leI)
      ultimately show ?thesis by (simp add: mult.commute)
    qed
    with False self p body(2) buf show ?thesis
      by (auto simp: get_ciphertext_insertion_range_def receiver_of_def Let_def m_def k_def mult.commute)
  qed
qed

lemma store_packet_Ok:
  assumes "describes cfg cts plain" and "i < gc_packets_needed cfg" and "receiver_of cfg self"
    and "length (ciphertext_buffer store) = length (cts ! (i div gc_max_packets_per_wave cfg))"
  shows "store_packet now self i store (packet_body cfg cts i) =
     Ok (stored now (i mod gc_max_packets_per_wave cfg * gc_max_payload_size cfg) store (packet_body cfg cts i))"
proof -
  from insertion_range [OF assms] obtain e where
    "get_ciphertext_insertion_range i (gr_max_packets_per_wave self) (gr_packets_needed self)
      (gr_last_payload_size self) (gr_max_payload_size self) store =
      Ok (i mod gc_max_packets_per_wave cfg * gc_max_payload_size cfg, e)"
    "i mod gc_max_packets_per_wave cfg * gc_max_payload_size cfg + length (packet_body cfg cts i) \<le> e"
    "e \<le> length (ciphertext_buffer store)"
    by blast
  then show ?thesis by (simp add: store_packet_def slice_def stored_def)
qed

section \<open>The invariant\<close>

text \<open>The packets of wave \<open>w\<close> that are in \<open>S\<close>, by their position in the wave.\<close>

definition got :: "group_receiver_config \<Rightarrow> bytes list \<Rightarrow> nat set \<Rightarrow> nat \<Rightarrow> nat set" where
  "got cfg cts S w = {k. k < wave_size cfg cts w \<and> w * gc_max_packets_per_wave cfg + k \<in> S}"

definition wave_done :: "group_receiver_config \<Rightarrow> bytes list \<Rightarrow> nat set \<Rightarrow> nat \<Rightarrow> bool" where
  "wave_done cfg cts S w \<longleftrightarrow> got cfg cts S w = {..<wave_size cfg cts w}"

definition store_inv :: "group_receiver_config \<Rightarrow> bytes list \<Rightarrow> nat set \<Rightarrow> nat \<Rightarrow> wave_store \<Rightarrow> bool" where
  "store_inv cfg cts S w st \<longleftrightarrow>
     ws_packets_received st = card (got cfg cts S w) \<and>
     ws_packets_in_wave st = wave_size cfg cts w \<and>
     ws_bytes_written st =
       (\<Sum>k \<in> got cfg cts S w. length (chunks (gc_max_payload_size cfg) (cts ! w) ! k)) \<and>
     length (ciphertext_buffer st) = length (cts ! w) \<and>
     (\<forall>j < length (cts ! w). j div gc_max_payload_size cfg \<in> got cfg cts S w \<longrightarrow>
        ciphertext_buffer st ! j = cts ! w ! j)"

definition slab_inv :: "group_receiver_config \<Rightarrow> bytes list \<Rightarrow> bytes \<Rightarrow> nat set \<Rightarrow> bytes \<Rightarrow> bool" where
  "slab_inv cfg cts plain S slab \<longleftrightarrow>
     length slab = length plain \<and>
     (\<forall>j < length plain. wave_done cfg cts S (j div gc_max_plaintext_wave_length cfg) \<longrightarrow> slab ! j = plain ! j)"

definition recv_inv ::
    "group_receiver_config \<Rightarrow> bytes list \<Rightarrow> bytes \<Rightarrow> nat set \<Rightarrow> group_receiver \<Rightarrow> bool" where
  "recv_inv cfg cts plain S self \<longleftrightarrow>
     receiver_of cfg self \<and>
     packets_received_order self = map (\<lambda>i. i \<in> S) [0..<gc_packets_needed cfg] \<and>
     (\<forall>w. map_of (temp_wave_store self) w = None \<longleftrightarrow> length cts \<le> w \<or> wave_done cfg cts S w) \<and>
     (\<forall>w st. map_of (temp_wave_store self) w = Some st \<longrightarrow> store_inv cfg cts S w st) \<and>
     slab_inv cfg cts plain S (unified_plaintext_slab self)"

lemma finite_got [simp]: "finite (got cfg cts S w)"
  by (simp add: got_def)

lemma got_bound: "got cfg cts S w \<subseteq> {..<wave_size cfg cts w}"
  by (auto simp: got_def)

lemma got_insert:
  assumes d: "describes cfg cts plain" and i: "i < gc_packets_needed cfg"
  shows "w = i div gc_max_packets_per_wave cfg \<Longrightarrow>
      got cfg cts (insert i S) w = insert (i mod gc_max_packets_per_wave cfg) (got cfg cts S w)"
    and "w < length cts \<Longrightarrow> w \<noteq> i div gc_max_packets_per_wave cfg \<Longrightarrow> got cfg cts (insert i S) w = got cfg cts S w"
proof -
  let ?p = "gc_max_packets_per_wave cfg"
  have p: "0 < ?p" using d by (simp add: describes_def)
  have eq: "w * ?p + k = i \<longleftrightarrow> w = i div ?p \<and> k = i mod ?p" if "k < ?p" for w k
    using that p by (auto simp: div_mult_self1)
  have idx: "i div ?p < length cts" "i mod ?p < wave_size cfg cts (i div ?p)"
    using packet_index [OF d] i by auto
  have small: "k < ?p" if "k < wave_size cfg cts w" "w < length cts" for k w
    using that wave_size_cases(2) [OF d] by (metis less_le_trans)
  have mem: "k \<in> got cfg cts (insert i S) w \<longleftrightarrow> k \<in> got cfg cts S w \<or> w = i div ?p \<and> k = i mod ?p"
    if w: "w < length cts" for k w
  proof (cases "k < wave_size cfg cts w")
    case True
    then show ?thesis
      using eq [OF small [OF True w], of w] unfolding got_def by blast
  next
    case False
    with idx(2) show ?thesis unfolding got_def by blast
  qed
  show "w = i div ?p \<Longrightarrow> got cfg cts (insert i S) w = insert (i mod ?p) (got cfg cts S w)"
    using mem idx(1) by blast
  show "w < length cts \<Longrightarrow> w \<noteq> i div ?p \<Longrightarrow> got cfg cts (insert i S) w = got cfg cts S w"
    using mem by blast
qed

lemma got_new:
  assumes d: "describes cfg cts plain" and "i < gc_packets_needed cfg" and "i \<notin> S"
  shows "i mod gc_max_packets_per_wave cfg \<notin> got cfg cts S (i div gc_max_packets_per_wave cfg)"
  using assms by (simp add: got_def)

lemma wave_done_card: "wave_done cfg cts S w \<longleftrightarrow> card (got cfg cts S w) = wave_size cfg cts w"
proof
  assume "card (got cfg cts S w) = wave_size cfg cts w"
  then have "card (got cfg cts S w) = card {..<wave_size cfg cts w}" by simp
  from card_subset_eq [OF _ got_bound this] show "wave_done cfg cts S w" by (simp add: wave_done_def)
qed (simp add: wave_done_def)

lemma store_inv_step:
  assumes d: "describes cfg cts plain" and i: "i < gc_packets_needed cfg" and new: "i \<notin> S"
    and inv: "store_inv cfg cts S (i div gc_max_packets_per_wave cfg) st"
  shows "store_inv cfg cts (insert i S) (i div gc_max_packets_per_wave cfg)
     (stored now (i mod gc_max_packets_per_wave cfg * gc_max_payload_size cfg) st (packet_body cfg cts i))"
proof -
  let ?m = "gc_max_payload_size cfg" and ?w = "i div gc_max_packets_per_wave cfg"
    and ?k = "i mod gc_max_packets_per_wave cfg"
  let ?c = "cts ! ?w" and ?b = "packet_body cfg cts i"
  note body = packet_body_bounds [OF d i]
  have len: "length (ciphertext_buffer st) = length ?c" using inv by (simp add: store_inv_def)
  have fit: "?k * ?m + length ?b \<le> length (ciphertext_buffer st)" using body(2,3) len by linarith
  have at: "splice (ciphertext_buffer st) (?k * ?m) ?b ! j = ?c ! j"
    if j: "j < length ?c" and g: "j div ?m = ?k \<or> j div ?m \<in> got cfg cts S ?w" for j
  proof -
    have "j div ?m = ?k \<or> ciphertext_buffer st ! j = ?c ! j"
      using g inv j by (auto simp: store_inv_def)
    then show ?thesis
      unfolding body(1) by (intro splice_chunk body len j)
  qed
  have chunk: "chunks ?m ?c ! ?k = ?b" by (simp add: packet_body_def)
  note gi = got_insert(1) [OF d i refl, of S] and gn = got_new [OF d i new]
  have "ws_packets_received st = card (got cfg cts S ?w)" "ws_packets_in_wave st = wave_size cfg cts ?w"
    "ws_bytes_written st = (\<Sum>k \<in> got cfg cts S ?w. length (chunks ?m ?c ! k))"
    using inv by (simp_all add: store_inv_def)
  then show ?thesis
    unfolding store_inv_def gi using gn chunk at fit len by (simp add: stored_def)
qed

lemma complete_store:
  assumes d: "describes cfg cts plain" and w: "w < length cts"
    and inv: "store_inv cfg cts S w st" and all: "wave_done cfg cts S w"
  shows "slice (ciphertext_buffer st) 0 (ws_bytes_written st) = Ok (cts ! w)"
proof -
  let ?m = "gc_max_payload_size cfg" and ?c = "cts ! w"
  have m: "0 < ?m" using d by (simp add: describes_def)
  have "(\<Sum>k < length (chunks ?m ?c). length (chunks ?m ?c ! k)) = length (concat (chunks ?m ?c))"
    by (simp add: length_concat sum_list_sum_nth atLeast0LessThan)
  then have written: "ws_bytes_written st = length ?c"
    using inv all m by (simp add: store_inv_def wave_done_def wave_size_def)
  have "j div ?m < wave_size cfg cts w" if "j < length ?c" for j
    using div_less_chunks [OF m that] by (simp add: wave_size_def)
  then have "ciphertext_buffer st = ?c"
    using inv all by (intro nth_equalityI) (simp_all add: store_inv_def wave_done_def)
  with written show ?thesis by (simp add: slice_def)
qed

end
