(* ===== verification/Group_Invariant.thy ===== *)
theory Group_Invariant
  imports Group_Reassembly
begin

text \<open>
  The receiver of a group over any sequence of its packets: one packet keeps the invariant of
  \<open>Group_Reassembly\<close> and gives the predicted status, a run of packets keeps it, and once every packet
  has arrived the slab is the plaintext.
\<close>

section \<open>One packet keeps the invariant\<close>

lemma wave_done_insert:
  assumes "describes cfg cts plain" and "i < gc_packets_needed cfg" and "w < length cts"
    and "w \<noteq> i div gc_max_packets_per_wave cfg"
  shows "wave_done cfg cts (insert i S) w \<longleftrightarrow> wave_done cfg cts S w"
    and "store_inv cfg cts (insert i S) w st \<longleftrightarrow> store_inv cfg cts S w st"
  using got_insert(2) [OF assms] by (simp_all add: wave_done_def store_inv_def)

lemma wave_not_done:
  assumes d: "describes cfg cts plain" and i: "i < gc_packets_needed cfg" and new: "i \<notin> S"
  shows "\<not> wave_done cfg cts S (i div gc_max_packets_per_wave cfg)"
proof -
  have "i mod gc_max_packets_per_wave cfg < wave_size cfg cts (i div gc_max_packets_per_wave cfg)"
    using packet_index [OF d] i by blast
  with got_new [OF d i new] show ?thesis unfolding wave_done_def by blast
qed

lemma store_inv_time [simp]:
  "store_inv cfg cts S w (st\<lparr>ws_last_packet_recv_time := t\<rparr>) = store_inv cfg cts S w st"
  by (simp add: store_inv_def)

lemma wave_text_bounds:
  assumes d: "describes cfg cts plain" and w: "w < length cts"
  shows "wave_text cfg plain w =
      take (gc_max_plaintext_wave_length cfg) (drop (w * gc_max_plaintext_wave_length cfg) plain)"
    and "w * gc_max_plaintext_wave_length cfg < length plain"
    and "0 < gc_max_plaintext_wave_length cfg"
proof -
  show m: "0 < gc_max_plaintext_wave_length cfg" using d by (simp add: describes_def)
  have k: "w < length (chunks (gc_max_plaintext_wave_length cfg) plain)"
    using d w by (simp add: describes_def)
  show "wave_text cfg plain w =
      take (gc_max_plaintext_wave_length cfg) (drop (w * gc_max_plaintext_wave_length cfg) plain)"
    by (simp add: wave_text_def nth_chunks [OF m k])
  show "w * gc_max_plaintext_wave_length cfg < length plain"
    by (rule chunks_index_bound [OF m k])
qed

lemma plaintext_written:
  assumes d: "describes cfg cts plain" and w: "w < length cts" and len: "length slab = length plain"
    and rest: "\<And>j. j < length plain \<Longrightarrow> j div gc_max_plaintext_wave_length cfg \<noteq> w \<Longrightarrow>
      wave_done cfg cts S (j div gc_max_plaintext_wave_length cfg) \<Longrightarrow> slab ! j = plain ! j"
  defines "s \<equiv> w * gc_max_plaintext_wave_length cfg"
  shows "s + length (wave_text cfg plain w) \<le> length slab"
    and "slab_inv cfg cts plain S (splice slab s (wave_text cfg plain w))"
proof -
  let ?m = "gc_max_plaintext_wave_length cfg"
  note tb = wave_text_bounds [OF d w, folded s_def]
  have "length (wave_text cfg plain w) \<le> length plain - s" by (simp add: tb(1))
  with tb(2) len show fit: "s + length (wave_text cfg plain w) \<le> length slab" by linarith
  have "splice slab s (wave_text cfg plain w) ! j = plain ! j"
    if j: "j < length plain" and dn: "wave_done cfg cts S (j div ?m)" for j
  proof -
    have "j div ?m = w \<or> slab ! j = plain ! j" using rest j dn by blast
    then show ?thesis
      unfolding tb(1) s_def using tb by (intro splice_chunk len j) (simp_all add: s_def)
  qed
  with fit len show "slab_inv cfg cts plain S (splice slab s (wave_text cfg plain w))"
    by (simp add: slab_inv_def)
qed

text \<open>The state after the last packet of wave \<open>w\<close>, before the wave is finished.\<close>

definition wave_ready ::
    "group_receiver_config \<Rightarrow> bytes list \<Rightarrow> bytes \<Rightarrow> nat set \<Rightarrow> nat \<Rightarrow> group_receiver \<Rightarrow> bool" where
  "wave_ready cfg cts plain S w self \<longleftrightarrow>
     receiver_of cfg self \<and>
     packets_received_order self = map (\<lambda>i. i \<in> S) [0..<gc_packets_needed cfg] \<and>
     (\<forall>v. v \<noteq> w \<longrightarrow> (map_of (temp_wave_store self) v = None \<longleftrightarrow> length cts \<le> v \<or> wave_done cfg cts S v)) \<and>
     (\<forall>v st. v \<noteq> w \<longrightarrow> map_of (temp_wave_store self) v = Some st \<longrightarrow> store_inv cfg cts S v st) \<and>
     length (unified_plaintext_slab self) = length plain \<and>
     (\<forall>j < length plain. j div gc_max_plaintext_wave_length cfg \<noteq> w \<longrightarrow>
        wave_done cfg cts S (j div gc_max_plaintext_wave_length cfg) \<longrightarrow>
        unified_plaintext_slab self ! j = plain ! j)"

definition all_done :: "group_receiver_config \<Rightarrow> bytes list \<Rightarrow> nat set \<Rightarrow> bool" where
  "all_done cfg cts S \<longleftrightarrow> (\<forall>w < length cts. wave_done cfg cts S w)"

lemma alist_empty_iff: "al = [] \<longleftrightarrow> (\<forall>k. map_of al k = None)"
  by (cases al) auto

lemma finish_wave_Ok:
  assumes d: "describes cfg cts plain" and w: "w < length cts" and wid: "unat wid = w"
    and ready: "wave_ready cfg cts plain S w self" and dn: "wave_done cfg cts S w"
  shows "\<exists>self'. finish_wave now self wid (wave_text cfg plain w) =
       Ok (if all_done cfg cts S then GROUP_COMPLETE wid else WAVE_COMPLETE wid, self') \<and>
     recv_inv cfg cts plain S self'"
proof -
  let ?m = "gc_max_plaintext_wave_length cfg" and ?t = "wave_text cfg plain w"
  let ?slab = "splice (unified_plaintext_slab self) (w * ?m) ?t"
  let ?tmp = "AList.delete w (temp_wave_store self)"
  have self: "receiver_of cfg self" and mself: "gr_max_plaintext_wave_length self = ?m"
    and waves: "length (waves_received self) = length cts"
    using ready d by (simp_all add: wave_ready_def receiver_of_def describes_def)
  note written = plaintext_written [OF d w, of "unified_plaintext_slab self" S]
  have slab: "slab_inv cfg cts plain S ?slab"
    and fit: "w * ?m + length ?t \<le> length (unified_plaintext_slab self)"
    using written ready by (simp_all add: wave_ready_def)
  have tmp: "map_of ?tmp v = None \<longleftrightarrow> length cts \<le> v \<or> wave_done cfg cts S v" for v
    using ready dn by (auto simp: wave_ready_def delete_conv')
  have stores: "map_of ?tmp v = Some st \<Longrightarrow> store_inv cfg cts S v st" for v st
    using ready by (auto simp: wave_ready_def delete_conv' split: if_splits)
  have empty: "?tmp = [] \<longleftrightarrow> all_done cfg cts S"
    unfolding alist_empty_iff tmp all_done_def by (meson linorder_not_le)
  define self1 where "self1 = self\<lparr>unified_plaintext_slab := ?slab, temp_wave_store := ?tmp\<rparr>"
  show ?thesis
  proof (cases "all_done cfg cts S")
    case True
    have "recv_inv cfg cts plain S self1"
      using ready slab tmp stores by (simp add: self1_def recv_inv_def wave_ready_def receiver_of_def)
    then show ?thesis
      using True empty fit
      by (auto simp: slice_def finish_wave_def wid mself Let_def self1_def
          get_plaintext_buffer_insertion_range_by_wave_id_def)
  next
    case False
    define self2 where "self2 = start_next_wave now self1 w"
    have s2: "unified_plaintext_slab self2 = ?slab" "packets_received_order self2 = packets_received_order self"
      "receiver_of cfg self2" "waves_received self2 = waves_received self"
      using self by (simp_all add: self2_def start_next_wave_def self1_def receiver_of_def split: option.split)
    have m2: "map_of (temp_wave_store self2) v = None \<longleftrightarrow> length cts \<le> v \<or> wave_done cfg cts S v" for v
      unfolding tmp [symmetric] by (auto simp: self2_def start_next_wave_def self1_def update_conv' split: option.split)
    have st2: "map_of (temp_wave_store self2) v = Some st \<Longrightarrow> store_inv cfg cts S v st" for v st
      using stores by (auto simp: self2_def start_next_wave_def self1_def update_conv' split: option.splits if_splits)
    have inv: "recv_inv cfg cts plain S (self2\<lparr>lowest_sequential_wave_completed := l,
        waves_received := (waves_received self2)[w := True], last_complete_wave := c\<rparr>)" for l c
      using s2 m2 st2 slab ready by (simp add: recv_inv_def wave_ready_def receiver_of_def)
    define l where "l = (if int w - 1 = lowest_sequential_wave_completed self2 then int w
      else lowest_sequential_wave_completed self2)"
    have "finish_wave now self wid ?t = Ok (WAVE_COMPLETE wid, self2\<lparr>lowest_sequential_wave_completed := l,
        waves_received := (waves_received self2)[w := True], last_complete_wave := int w\<rparr>)"
      using False empty fit waves w s2(4)
      by (simp add: finish_wave_def wid mself Let_def slice_def self1_def [symmetric] l_def
          get_plaintext_buffer_insertion_range_by_wave_id_def self2_def [symmetric])
    with inv False show ?thesis by auto
  qed
qed

text \<open>The receiver can decrypt the waves.\<close>

definition decrypts ::
    "group_receiver_config \<Rightarrow> bytes list \<Rightarrow> bytes \<Rightarrow> u64 \<Rightarrow> pqc \<times> entropy_bank \<Rightarrow> bool" where
  "decrypts cfg cts plain group_id pd \<longleftrightarrow>
     (\<forall>w < length cts. bank_decrypt (snd pd) (calculate_nonce_version (word_of_nat w) group_id) (fst pd)
        (cts ! w) = Ok (wave_text cfg plain w))"

definition status_of :: "group_receiver_config \<Rightarrow> bytes list \<Rightarrow> nat set \<Rightarrow> nat \<Rightarrow> group_receiver_status" where
  "status_of cfg cts S i =
     (let w = i div gc_max_packets_per_wave cfg in
      if i \<in> S then ALREADY_RECEIVED
      else if wave_done cfg cts (insert i S) w then
        if all_done cfg cts (insert i S) then GROUP_COMPLETE (word_of_nat w)
        else WAVE_COMPLETE (word_of_nat w)
      else INSERT_SUCCESS)"

lemma packet_wave:
  assumes d: "describes cfg cts plain" and i: "i < gc_packets_needed cfg"
  shows "i div gc_max_packets_per_wave cfg < length cts"
    and "unat (word_of_nat (i div gc_max_packets_per_wave cfg) :: u32) = i div gc_max_packets_per_wave cfg"
    and "(ucast (word_of_nat (i div gc_max_packets_per_wave cfg) :: u32) :: u64) =
      word_of_nat (i div gc_max_packets_per_wave cfg)"
proof -
  show lt: "i div gc_max_packets_per_wave cfg < length cts"
    using packet_index [OF d] i by blast
  then have "i div gc_max_packets_per_wave cfg < 2 ^ 32"
    using d by (simp add: describes_def)
  then show un: "unat (word_of_nat (i div gc_max_packets_per_wave cfg) :: u32) = i div gc_max_packets_per_wave cfg"
    by (simp add: unat_of_nat)
  show "(ucast (word_of_nat (i div gc_max_packets_per_wave cfg) :: u32) :: u64) =
      word_of_nat (i div gc_max_packets_per_wave cfg)"
    by (metis of_nat_unat un)
qed

lemma order_insert:
  "(map (\<lambda>j. j \<in> S) [0..<n])[i := True] = map (\<lambda>j. j \<in> insert i S) [0..<n]"
proof (cases "i < n")
  case False
  then show ?thesis by (auto simp: list_update_beyond)
qed (auto intro!: nth_equalityI simp: nth_list_update split: if_splits)

lemma stored_ready:
  assumes d: "describes cfg cts plain" and inv: "recv_inv cfg cts plain S self"
    and i: "i < gc_packets_needed cfg" and new: "i \<notin> S"
  defines "w \<equiv> i div gc_max_packets_per_wave cfg"
  shows "wave_ready cfg cts plain (insert i S) w
     (self\<lparr>packets_received_order := (packets_received_order self)[i := True],
           temp_wave_store := AList.update w st (temp_wave_store self)\<rparr>)"
proof -
  note other = wave_done_insert [OF d i, folded w_def]
  have "map_of (AList.update w st (temp_wave_store self)) v = map_of (temp_wave_store self) v" if "v \<noteq> w" for v
    using that by (simp add: update_conv')
  moreover have "wave_done cfg cts (insert i S) v \<longleftrightarrow> wave_done cfg cts S v" if "v \<noteq> w" "v < length cts" for v
    using other(1) that by blast
  moreover have "store_inv cfg cts (insert i S) v s"
    if "v \<noteq> w" "map_of (temp_wave_store self) v = Some s" for v s
  proof -
    have "v < length cts" "store_inv cfg cts S v s"
      using inv that unfolding recv_inv_def by (metis linorder_not_le option.distinct(1), blast)
    then show ?thesis using other(2) that(1) by blast
  qed
  moreover have "j div gc_max_plaintext_wave_length cfg < length cts" if "j < length plain" for j
    using d that div_less_chunks [of "gc_max_plaintext_wave_length cfg" j plain] by (simp add: describes_def)
  ultimately show ?thesis
    using inv unfolding wave_ready_def recv_inv_def slab_inv_def receiver_of_def
    by (auto simp: order_insert not_le) (metis linorder_not_le)+
qed

lemma wave_ready_waiting:
  assumes d: "describes cfg cts plain" and ready: "wave_ready cfg cts plain S w self"
    and nd: "\<not> wave_done cfg cts S w" and st: "map_of (temp_wave_store self) w = Some st"
    and inv: "store_inv cfg cts S w st" and w: "w < length cts"
  shows "recv_inv cfg cts plain S (self\<lparr>gr_last_packet_recv_time := now\<rparr>)"
proof -
  have "map_of (temp_wave_store self) v = None \<longleftrightarrow> length cts \<le> v \<or> wave_done cfg cts S v" for v
    using ready nd st w by (cases "v = w") (auto simp: wave_ready_def)
  moreover have "store_inv cfg cts S v s" if "map_of (temp_wave_store self) v = Some s" for v s
    using that ready st inv by (cases "v = w") (auto simp: wave_ready_def)
  moreover have "unified_plaintext_slab self ! j = plain ! j"
    if "j < length plain" "wave_done cfg cts S (j div gc_max_plaintext_wave_length cfg)" for j
    using that ready nd by (cases "j div gc_max_plaintext_wave_length cfg = w") (auto simp: wave_ready_def)
  ultimately show ?thesis
    using ready by (simp add: recv_inv_def wave_ready_def receiver_of_def slab_inv_def)
qed

lemma on_packet_received_step:
  assumes d: "describes cfg cts plain" and dec: "decrypts cfg cts plain group_id pd"
    and inv: "recv_inv cfg cts plain S self" and i: "i < gc_packets_needed cfg"
  shows "\<exists>self'. on_packet_received now self group_id i (word_of_nat (i div gc_max_packets_per_wave cfg)) pd
       (packet_body cfg cts i) = Ok (status_of cfg cts S i, self') \<and>
     recv_inv cfg cts plain (insert i S) self'"
proof (cases "i \<in> S")
  case True
  with inv i have "packets_received_order self ! i" "i < length (packets_received_order self)"
    by (simp_all add: recv_inv_def)
  with True inv show ?thesis
    by (simp add: on_packet_received_def status_of_def Let_def insert_absorb)
next
  case False
  let ?w = "i div gc_max_packets_per_wave cfg" and ?S = "insert i S"
  note pw = packet_wave [OF d i]
  have order: "\<not> packets_received_order self ! i" "i < length (packets_received_order self)"
    and self: "receiver_of cfg self"
    using False inv i by (simp_all add: recv_inv_def)
  obtain st where st: "map_of (temp_wave_store self) ?w = Some st" "store_inv cfg cts S ?w st"
    using inv wave_not_done [OF d i False] pw(1) unfolding recv_inv_def by (metis linorder_not_le not_None_eq)
  define st' where "st' = stored now (i mod gc_max_packets_per_wave cfg * gc_max_payload_size cfg) st
    (packet_body cfg cts i)"
  have st': "store_inv cfg cts ?S ?w st'"
    using store_inv_step [OF d i False st(2)] by (simp add: st'_def)
  define self1 where "self1 = self\<lparr>packets_received_order := (packets_received_order self)[i := True]\<rparr>"
  have sp: "store_packet now self1 i st (packet_body cfg cts i) = Ok st'"
    unfolding st'_def
    using self st(2) by (intro store_packet_Ok [OF d i]) (simp_all add: self1_def receiver_of_def store_inv_def)
  define self2 where "self2 = self1\<lparr>temp_wave_store := AList.update ?w st' (temp_wave_store self1)\<rparr>"
  have run: "on_packet_received now self group_id i (word_of_nat ?w) pd (packet_body cfg cts i) =
      check_wave_complete now self2 group_id (word_of_nat ?w) pd st'"
    using order st(1) sp unfolding self2_def by (simp add: on_packet_received_def Let_def pw(2) self1_def)
  have ready: "wave_ready cfg cts plain ?S ?w self2"
    using stored_ready [OF d inv i False] by (simp add: self2_def self1_def)
  have full: "ws_packets_received st' = ws_packets_in_wave st' \<longleftrightarrow> wave_done cfg cts ?S ?w"
    using st' by (simp add: store_inv_def wave_done_card)
  show ?thesis
  proof (cases "wave_done cfg cts ?S ?w")
    case True
    have "bank_decrypt (snd pd) (calculate_nonce_version (word_of_nat ?w) group_id) (fst pd) (cts ! ?w) =
        Ok (wave_text cfg plain ?w)"
      using dec pw(1) by (simp add: decrypts_def)
    then have "check_wave_complete now self2 group_id (word_of_nat ?w) pd st' =
        finish_wave now self2 (word_of_nat ?w) (wave_text cfg plain ?w)"
      using full True
      by (simp add: check_wave_complete_def pw(3) case_prod_beta Let_def complete_store [OF d pw(1) st' True])
    with finish_wave_Ok [OF d pw(1,2) ready True] False True run show ?thesis
      by (auto simp: status_of_def Let_def)
  next
    case nd: False
    have "check_wave_complete now self2 group_id (word_of_nat ?w) pd st' =
        Ok (INSERT_SUCCESS, self2\<lparr>gr_last_packet_recv_time := now\<rparr>)"
      using full nd by (simp add: check_wave_complete_def)
    moreover have "recv_inv cfg cts plain ?S (self2\<lparr>gr_last_packet_recv_time := now\<rparr>)"
      using wave_ready_waiting [OF d ready nd _ st' pw(1)] by (simp add: self2_def self1_def update_conv')
    ultimately show ?thesis using run False nd by (simp add: status_of_def Let_def)
  qed
qed

section \<open>A sequence of packets\<close>

text \<open>Arrivals: the time, the sequence number and the wave read off the packet, and its body.\<close>

fun receive_group ::
    "group_receiver \<Rightarrow> u64 \<Rightarrow> pqc \<times> entropy_bank \<Rightarrow> (nat \<times> nat \<times> u32 \<times> bytes) list \<Rightarrow>
     (group_receiver_status list \<times> group_receiver, crypt_error) result" where
  "receive_group self group_id pd [] = Ok ([], self)"
| "receive_group self group_id pd ((now, true_sequence, wave_id, packet) # ps) =
     rbind (on_packet_received now self group_id true_sequence wave_id pd packet) (\<lambda>(status, self).
     rbind (receive_group self group_id pd ps) (\<lambda>(statuses, self). Ok (status # statuses, self)))"

definition arrival :: "group_receiver_config \<Rightarrow> bytes list \<Rightarrow> nat \<times> nat \<Rightarrow> nat \<times> nat \<times> u32 \<times> bytes" where
  "arrival cfg cts = (\<lambda>(now, i).
     (now, i, word_of_nat (i div gc_max_packets_per_wave cfg), packet_body cfg cts i))"

fun statuses_of :: "group_receiver_config \<Rightarrow> bytes list \<Rightarrow> nat set \<Rightarrow> nat list \<Rightarrow> group_receiver_status list" where
  "statuses_of cfg cts S [] = []"
| "statuses_of cfg cts S (i # is) = status_of cfg cts S i # statuses_of cfg cts (insert i S) is"

lemma receive_group_run:
  assumes d: "describes cfg cts plain" and dec: "decrypts cfg cts plain group_id pd"
  shows "recv_inv cfg cts plain S self \<Longrightarrow> \<forall>(now, i) \<in> set order. i < gc_packets_needed cfg \<Longrightarrow>
     \<exists>self'. receive_group self group_id pd (map (arrival cfg cts) order) =
         Ok (statuses_of cfg cts S (map snd order), self') \<and>
       recv_inv cfg cts plain (S \<union> snd ` set order) self'"
proof (induction order arbitrary: S self)
  case (Cons a order)
  obtain now i where a: "a = (now, i)" by fastforce
  with Cons.prems(2) have i: "i < gc_packets_needed cfg" by simp
  from on_packet_received_step [OF d dec Cons.prems(1) i] obtain self1 where
    s1: "on_packet_received now self group_id i (word_of_nat (i div gc_max_packets_per_wave cfg)) pd
       (packet_body cfg cts i) = Ok (status_of cfg cts S i, self1)"
    and inv1: "recv_inv cfg cts plain (insert i S) self1" by blast
  from Cons.IH [OF inv1] Cons.prems(2) obtain self2 where
    "receive_group self1 group_id pd (map (arrival cfg cts) order) =
       Ok (statuses_of cfg cts (insert i S) (map snd order), self2)"
    "recv_inv cfg cts plain (insert i S \<union> snd ` set order) self2" by auto
  with s1 show ?case by (auto simp: a arrival_def)
qed simp

lemma got_empty: "got cfg cts {} w = {}"
  by (simp add: got_def)

lemma initial_store:
  "map_of (temp_wave_store (group_receiver_new now cfg wt gt)) w =
     (if w < gc_wave_count cfg then Some (wave_store_new now cfg w) else None)"
  by (simp add: group_receiver_new_def map_of_map_restrict restrict_map_def)

lemma initial_inv:
  assumes d: "describes cfg cts plain"
  shows "recv_inv cfg cts plain {} (group_receiver_new now cfg wt gt)"
proof -
  let ?self = "group_receiver_new now cfg wt gt" and ?l = "length cts - 1"
  have m: "0 < gc_max_payload_size cfg" and count: "gc_wave_count cfg = length cts" and ne: "cts \<noteq> []"
    and lne: "last cts \<noteq> []"
    using d by (simp_all add: describes_def)
  have last: "last cts = cts ! ?l" using ne by (simp add: last_conv_nth)
  have tmp: "map_of (temp_wave_store ?self) w = (if w < length cts then Some (wave_store_new now cfg w) else None)" for w
    by (simp add: initial_store count)
  have nd: "\<not> wave_done cfg cts {} w" if "w < length cts" for w
    using wave_size_cases(3) [OF d that] by (auto simp: wave_done_def got_empty)
  have store: "store_inv cfg cts {} w (wave_store_new now cfg w)" if w: "w < length cts" for w
  proof -
    note size = wave_size_cases(1) [OF d w]
    have "length (ciphertext_buffer (wave_store_new now cfg w)) = length (cts ! w)"
    proof (cases "w = ?l")
      case True
      have "(gc_packets_in_last_wave cfg - 1) * gc_max_payload_size cfg + gc_last_payload_size cfg = length (last cts)"
        using last_chunk_length [OF m lne] d unfolding describes_def by presburger
      with True ne last show ?thesis
        by (simp add: wave_store_new_def Let_def get_packet_count_in_wave_def count Suc_leI)
    next
      case False
      with d w ne show ?thesis
        by (simp add: wave_store_new_def Let_def count describes_def Suc_leI)
    qed
    moreover have "ws_packets_in_wave (wave_store_new now cfg w) = wave_size cfg cts w"
      using size ne by (simp add: wave_store_new_def Let_def get_packet_count_in_wave_def count Suc_leI)
    ultimately show ?thesis
      by (simp add: store_inv_def got_empty) (simp add: wave_store_new_def case_prod_beta Let_def)
  qed
  have slab: "slab_inv cfg cts plain {} (unified_plaintext_slab ?self)"
    unfolding slab_inv_def
  proof (intro conjI allI impI)
    show "length (unified_plaintext_slab ?self) = length plain"
      using d by (simp add: group_receiver_new_def describes_def)
    fix j assume "j < length plain" "wave_done cfg cts {} (j div gc_max_plaintext_wave_length cfg)"
    moreover have "j div gc_max_plaintext_wave_length cfg < length cts"
      using \<open>j < length plain\<close> d div_less_chunks [of "gc_max_plaintext_wave_length cfg" j plain]
      by (simp add: describes_def)
    ultimately show "unified_plaintext_slab ?self ! j = plain ! j" using nd by blast
  qed
  have "receiver_of cfg ?self" "packets_received_order ?self = map (\<lambda>i. i \<in> {}) [0..<gc_packets_needed cfg]"
    by (simp_all add: group_receiver_new_def receiver_of_def map_replicate_const)
  with tmp nd store slab show ?thesis by (auto simp: recv_inv_def split: if_splits)
qed

lemma all_done_iff:
  assumes d: "describes cfg cts plain"
  shows "all_done cfg cts S \<longleftrightarrow> {..<gc_packets_needed cfg} \<subseteq> S"
proof -
  let ?p = "gc_max_packets_per_wave cfg"
  have p: "0 < ?p" using d by (simp add: describes_def)
  have small: "k < ?p" if "k < wave_size cfg cts w" "w < length cts" for k w
    using that wave_size_cases(2) [OF d] by (metis less_le_trans)
  have "i \<in> S" if "all_done cfg cts S" "i < gc_packets_needed cfg" for i
  proof -
    have "i div ?p < length cts" "i mod ?p < wave_size cfg cts (i div ?p)"
      using packet_index [OF d] that(2) by blast+
    with that(1) have "i mod ?p \<in> got cfg cts S (i div ?p)"
      unfolding all_done_def wave_done_def by blast
    then show ?thesis by (simp add: got_def)
  qed
  moreover have "wave_done cfg cts S w" if "{..<gc_packets_needed cfg} \<subseteq> S" "w < length cts" for w
  proof -
    have "w * ?p + k < gc_packets_needed cfg" if "k < wave_size cfg cts w" for k
      using small [OF that \<open>w < length cts\<close>] that \<open>w < length cts\<close>
      by (simp add: packet_index [OF d])
    then show ?thesis using that(1) by (auto simp: wave_done_def got_def)
  qed
  ultimately show ?thesis by (auto simp: all_done_def)
qed

lemma slab_complete:
  assumes d: "describes cfg cts plain" and "recv_inv cfg cts plain S self" and "{..<gc_packets_needed cfg} \<subseteq> S"
  shows "finalize self = plain"
proof -
  have "all_done cfg cts S" using all_done_iff [OF d] assms(3) by simp
  moreover have "j div gc_max_plaintext_wave_length cfg < length cts" if "j < length plain" for j
    using that d div_less_chunks [of "gc_max_plaintext_wave_length cfg" j plain] by (simp add: describes_def)
  ultimately show ?thesis
    using assms(2) unfolding finalize_def
    by (intro nth_equalityI) (simp_all add: recv_inv_def slab_inv_def all_done_def)
qed

end
