(* ===== verification/Group_Transfer.thy ===== *)
theory Group_Transfer
  imports Group_Invariant
begin

text \<open>
  From the sender to the receiver: the metadata and packets made by \<open>par_scramble_encrypt_group\<close> for the
  symmetric ciphers, their transfer in any order, and the case the metadata get wrong.
\<close>

section \<open>Metadata for the symmetric ciphers\<close>

text \<open>Both symmetric ciphers append a tag of 16 bytes.\<close>

definition tagged_ciphers :: "crypto_lib \<Rightarrow> bool" where
  "tagged_ciphers lib \<longleftrightarrow>
     (\<forall>key nonce ad x c. lib_aes_encrypt lib key nonce ad x = Some c \<longrightarrow> length c = length x + 16) \<and>
     (\<forall>key nonce ad x c. lib_chacha_encrypt lib key nonce ad x = Some c \<longrightarrow> length c = length x + 16)"

lemma symmetric_key:
  assumes "pqc_wf lib a" and "encryption_algorithm (pq_params a) \<noteq> Kyber" and "get_encryption_key a = Some e"
  obtains key where "e = aes_module lib key" | key where "e = chacha_module lib key"
proof -
  from assms(3) obtain ks where ks: "pq_key_store a = Some ks"
    by (cases "pq_key_store a") (auto simp: get_encryption_key_def)
  have "ks_params ks = pq_params a" using assms(1) ks by (simp add: pqc_wf_def)
  with pqc_wf_modules [OF assms(1) ks] assms(2,3) ks that show thesis
    by (cases "encryption_algorithm (pq_params a)"; cases "pq_node_type a")
      (auto simp: keys_to_aead_store_def get_encryption_key_def)
qed

lemma bank_encrypt_length:
  assumes "tagged_ciphers lib" and wf: "pqc_wf lib a" and alg: "encryption_algorithm (pq_params a) \<noteq> Kyber"
    and enc: "bank_encrypt r bank v a x = Ok c"
  shows "length c = length x + 16"
proof -
  obtain e where e: "get_encryption_key a = Some e" and c: "encrypt_in_place e r (get_nonce bank v) [] x = Ok c"
    using enc by (auto simp: bank_encrypt_def encrypt_custom_nonce_def pqc_encrypt_def aead_encrypt_def
        split: option.splits)
  from wf alg e show ?thesis
    by (rule symmetric_key) (use c assms(1) in \<open>auto simp: aes_module_def chacha_module_def tagged_ciphers_def split: if_splits\<close>)
qed

definition WAVE_BYTES :: nat where "WAVE_BYTES = 6928"

lemma symmetric_sizes:
  assumes "enx \<noteq> Kyber"
  shows "get_max_packet_size sb ct enx level = 496"
    and "max_ciphertext_len sb ct enx n = n + 16"
  using assms
  by (cases enx; simp add: get_max_packet_size_def get_aes_gcm_overhead_def AES_GCM_GHASH_OVERHEAD_def
      MAX_WAVEFORM_PACKET_SIZE_def Let_def min_def word_le_nat_alt)+

lemma metadata_partial:
  assumes enx: "enx \<noteq> Kyber" and width: "get_multiport_width drill = PORT_RANGE"
    and part: "length plain mod WAVE_BYTES \<noteq> 0"
  shows "generate_scrambler_metadata sb ct drill plain hs level gid enx =
     Ok (new_refresh gid hs plain 496 (length plain div WAVE_BYTES) 1 WAVE_BYTES
           (length plain mod WAVE_BYTES) PORT_RANGE (length plain mod WAVE_BYTES + 16))"
proof -
  have "plain \<noteq> []" using part by auto
  moreover have "usize_sub (496 * PORT_RANGE) (usize_sub 496 MAX_WAVEFORM_PACKET_SIZE) = WAVE_BYTES"
    by (simp add: PORT_RANGE_def MAX_WAVEFORM_PACKET_SIZE_def WAVE_BYTES_def)
  moreover have "0 < WAVE_BYTES" by (simp add: WAVE_BYTES_def)
  ultimately show ?thesis
    using part by (simp add: generate_scrambler_metadata_def symmetric_sizes [OF enx] width Let_def)
qed

lemma metadata_exact:
  assumes enx: "enx \<noteq> Kyber" and width: "get_multiport_width drill = PORT_RANGE"
    and full: "length plain = q * WAVE_BYTES" and q: "0 < q"
  shows "generate_scrambler_metadata sb ct drill plain hs level gid enx =
     Ok (new_refresh gid hs plain 496 q 0 WAVE_BYTES WAVE_BYTES PORT_RANGE 0)"
proof -
  have W: "0 < WAVE_BYTES" by (simp add: WAVE_BYTES_def)
  then have "plain \<noteq> []" "\<not> length plain < WAVE_BYTES" using full q by auto
  moreover have "usize_sub (496 * PORT_RANGE) (usize_sub 496 MAX_WAVEFORM_PACKET_SIZE) = WAVE_BYTES"
    by (simp add: PORT_RANGE_def MAX_WAVEFORM_PACKET_SIZE_def WAVE_BYTES_def)
  ultimately show ?thesis
    using full W by (simp add: generate_scrambler_metadata_def symmetric_sizes [OF enx] width Let_def)
qed

lemma metadata_describes:
  assumes part: "length plain mod WAVE_BYTES \<noteq> 0" and few: "length plain div WAVE_BYTES + 1 < 2 ^ 32"
    and cts: "length cts = length (chunks WAVE_BYTES plain)"
      "\<And>w. w < length cts \<Longrightarrow> length (cts ! w) = length (chunks WAVE_BYTES plain ! w) + 16"
  shows "describes (new_refresh gid hs plain 496 (length plain div WAVE_BYTES) 1 WAVE_BYTES
           (length plain mod WAVE_BYTES) PORT_RANGE (length plain mod WAVE_BYTES + 16)) cts plain"
proof -
  let ?l = "length plain div WAVE_BYTES" and ?r = "length plain mod WAVE_BYTES"
  have W: "0 < WAVE_BYTES" "WAVE_BYTES + 16 = 496 * PORT_RANGE" by (simp_all add: WAVE_BYTES_def PORT_RANGE_def)
  have n: "length cts = ?l + 1" using part W(1) by (simp add: cts length_chunks div_ceil_def)
  have dm: "length plain = ?l * WAVE_BYTES + ?r" by simp
  have r: "?r < WAVE_BYTES" using W(1) by simp
  have len: "length (cts ! w) = min WAVE_BYTES (length plain - w * WAVE_BYTES) + 16" if "w < length cts" for w
    using cts(2) [OF that] length_nth_chunks [OF W(1)] that cts(1) by simp
  have "length (cts ! w) = 496 * PORT_RANGE" if "w < ?l" for w
  proof -
    have "(w + 1) * WAVE_BYTES \<le> ?l * WAVE_BYTES" using that by (intro mult_le_mono1) simp
    then have "w * WAVE_BYTES + WAVE_BYTES \<le> ?l * WAVE_BYTES" by simp
    with dm have "WAVE_BYTES \<le> length plain - w * WAVE_BYTES" by linarith
    then show ?thesis using len [of w] that n W(2) by simp
  qed
  moreover have "length (cts ! ?l) = ?r + 16"
    using len [of ?l] n r by (simp add: minus_mult_div_eq_mod mult.commute)
  moreover have "cts \<noteq> []" using n by auto
  ultimately show ?thesis
    using n few W r cts(1)
    by (auto simp: describes_def new_refresh_def Let_def last_conv_nth PORT_RANGE_def)
qed

section \<open>The packets of the sender\<close>

lemma map_of_collect: "map_of (collect_map kvs) = map_of (rev kvs)"
proof (induction kvs rule: rev_induct)
  case (snoc kv kvs)
  then show ?case by (cases kv) (simp add: collect_map_def update_conv')
qed (simp add: collect_map_def)

lemma rmap_enumerate:
  "rmap f (List.enumerate 0 xs) = Ok ys \<longleftrightarrow> length ys = length xs \<and> (\<forall>k < length xs. f (k, xs ! k) = Ok (ys ! k))"
  by (auto simp: rmap_Ok_iff list_all2_conv_all_nth nth_enumerate_eq)

lemma set_concat_nth: "x \<in> set (concat xss) \<longleftrightarrow> (\<exists>w < length xss. x \<in> set (xss ! w))"
  by (auto simp: in_set_conv_nth) (metis in_set_conv_nth)+

text \<open>What the sender has computed when it returns.\<close>

definition sender_run ::
    "(nat \<Rightarrow> rnd) \<Rightarrow> packet_shuffle \<Rightarrow> group_receiver_config \<Rightarrow> bytes \<Rightarrow> pqc \<times> entropy_bank \<Rightarrow> entropy_bank \<Rightarrow>
     u64 \<Rightarrow> u32 \<Rightarrow> header_inscriber \<Rightarrow> bytes list \<Rightarrow> (nat \<times> packet_coordinate) list list \<Rightarrow> bool" where
  "sender_run rs shuffle cfg plain pd sdrill cid oid hdr cts waves \<longleftrightarrow>
     length cts = length (chunks (gc_max_plaintext_wave_length cfg) plain) \<and> length waves = length cts \<and>
     (\<forall>w < length cts.
        bank_encrypt (rs w) (snd pd) (calculate_nonce_version (word_of_nat w) (gc_group_id cfg)) (fst pd)
          (wave_text cfg plain w) = Ok (cts ! w) \<and>
        (\<exists>ps. waves ! w = shuffle ps \<and> length ps = wave_size cfg cts w \<and>
           (\<forall>k < length ps.
              wave_packet w cfg sdrill cid oid hdr (k, chunks (gc_max_payload_size cfg) (cts ! w) ! k) =
                Ok (ps ! k))))"

lemma scramble_encrypt_wave_Ok:
  assumes "scramble_encrypt_wave r shuffle w x cfg drill pqc sdrill cid oid hdr = Ok wave"
  obtains ct ps where "bank_encrypt r drill (calculate_nonce_version (word_of_nat w) (gc_group_id cfg)) pqc x = Ok ct"
    "wave = shuffle ps" "length ps = length (chunks (gc_max_payload_size cfg) ct)"
    "\<forall>k < length ps. wave_packet w cfg sdrill cid oid hdr (k, chunks (gc_max_payload_size cfg) ct ! k) = Ok (ps ! k)"
  using assms that by (auto simp: scramble_encrypt_wave_def unwrap_Ok_iff rmap_enumerate)

lemma sender_runs:
  assumes "par_scramble_encrypt_group sb ct rs shuffle now hl plain level pd sdrill hs cid oid gid hdr = Ok dev"
    and "encryption_algorithm (pq_params (fst pd)) \<noteq> Kyber"
  obtains cfg cts waves where
    "generate_scrambler_metadata sb ct (snd pd) plain hs level gid (encryption_algorithm (pq_params (fst pd))) = Ok cfg"
    "dev = group_sender_new now cfg (collect_map (concat waves))"
    "sender_run rs shuffle cfg plain pd sdrill cid oid hdr cts waves"
proof -
  obtain pqc drill where pd: "pd = (pqc, drill)" by fastforce
  from assms obtain cfg waves where
    cfg: "generate_scrambler_metadata sb ct drill plain hs level gid (encryption_algorithm (pq_params pqc)) = Ok cfg"
    and waves: "rmap (\<lambda>(w, x). scramble_encrypt_wave (rs w) shuffle w x cfg drill pqc sdrill cid oid hdr)
      (List.enumerate 0 (chunks (gc_max_plaintext_wave_length cfg) plain)) = Ok waves"
    and dev: "dev = group_sender_new now cfg (collect_map (concat waves))"
    by (auto simp: par_scramble_encrypt_group_def pd Let_def)
  let ?xs = "chunks (gc_max_plaintext_wave_length cfg) plain"
  have len: "length waves = length ?xs"
    and each: "\<And>w. w < length ?xs \<Longrightarrow>
      scramble_encrypt_wave (rs w) shuffle w (?xs ! w) cfg drill pqc sdrill cid oid hdr = Ok (waves ! w)"
    using waves by (simp_all add: rmap_enumerate)
  have "\<exists>c. bank_encrypt (rs w) drill (calculate_nonce_version (word_of_nat w) (gc_group_id cfg)) pqc (?xs ! w) = Ok c \<and>
      (\<exists>ps. waves ! w = shuffle ps \<and> length ps = length (chunks (gc_max_payload_size cfg) c) \<and>
        (\<forall>k < length ps. wave_packet w cfg sdrill cid oid hdr (k, chunks (gc_max_payload_size cfg) c ! k) = Ok (ps ! k)))"
    if "w < length ?xs" for w
    using each [OF that] by (rule scramble_encrypt_wave_Ok) blast
  then obtain c where c: "\<And>w. w < length ?xs \<Longrightarrow>
      bank_encrypt (rs w) drill (calculate_nonce_version (word_of_nat w) (gc_group_id cfg)) pqc (?xs ! w) = Ok (c w) \<and>
      (\<exists>ps. waves ! w = shuffle ps \<and> length ps = length (chunks (gc_max_payload_size cfg) (c w)) \<and>
        (\<forall>k < length ps. wave_packet w cfg sdrill cid oid hdr (k, chunks (gc_max_payload_size cfg) (c w) ! k) = Ok (ps ! k)))"
    by metis
  have "sender_run rs shuffle cfg plain pd sdrill cid oid hdr (map c [0..<length ?xs]) waves"
    using c len by (auto simp: sender_run_def pd wave_text_def wave_size_def)
  with cfg dev show thesis using that [of cfg] by (simp add: pd)
qed

lemma map_of_rev_unique:
  assumes "(i, c) \<in> set kvs" and "\<And>v. (i, v) \<in> set kvs \<Longrightarrow> v = c"
  shows "map_of (rev kvs) i = Some c"
proof -
  have "map_of (rev kvs) i \<noteq> None" 
    using assms(1) by (metis fst_conv image_eqI map_of_eq_None_iff set_rev)
  then obtain v where "map_of (rev kvs) i = Some v" by blast
  then have "(i, v) \<in> set kvs" by (metis map_of_SomeD set_rev)
  with \<open>map_of (rev kvs) i = Some v\<close> show ?thesis using assms(2) by blast
qed

lemma wave_packet_Ok:
  "wave_packet w cfg sdrill cid oid hdr (k, body) = Ok (i, c) \<longleftrightarrow>
     i = w * gc_max_packets_per_wave cfg + k \<and>
     (\<exists>v. generate_packet_vector i (gc_group_id cfg) sdrill = Ok v \<and>
        c = \<lparr>pc_packet = hdr v sdrill oid cid @ body, pc_vector = v\<rparr>)"
  by (auto simp: wave_packet_def Let_def)

lemma sender_packets:
  assumes d: "describes cfg cts plain" and run: "sender_run rs shuffle cfg plain pd sdrill cid oid hdr cts waves"
    and perm: "\<And>xs. mset (shuffle xs) = mset xs" and i: "i < gc_packets_needed cfg"
  shows "\<exists>v. generate_packet_vector i (gc_group_id cfg) sdrill = Ok v \<and>
     map_of (collect_map (concat waves)) i =
       Some \<lparr>pc_packet = hdr v sdrill oid cid @ packet_body cfg cts i, pc_vector = v\<rparr>"
proof -
  let ?p = "gc_max_packets_per_wave cfg" and ?m = "gc_max_payload_size cfg"
  let ?w = "i div ?p" and ?k = "i mod ?p"
  have p: "0 < ?p" using d by (simp add: describes_def)
  have idx: "?w < length cts" "?k < wave_size cfg cts ?w" using packet_index [OF d] i by blast+
  have len: "length waves = length cts" using run by (simp add: sender_run_def)
  have wave: "\<exists>ps. set (waves ! w) = set ps \<and> length ps = wave_size cfg cts w \<and>
      (\<forall>k < length ps. wave_packet w cfg sdrill cid oid hdr (k, chunks ?m (cts ! w) ! k) = Ok (ps ! k))"
    if "w < length cts" for w
    using run that mset_eq_setD [OF perm] unfolding sender_run_def by metis
  obtain ps where ps: "set (waves ! ?w) = set ps" "length ps = wave_size cfg cts ?w"
    "\<forall>k < length ps. wave_packet ?w cfg sdrill cid oid hdr (k, chunks ?m (cts ! ?w) ! k) = Ok (ps ! k)"
    using wave [OF idx(1)] by blast
  obtain j c where jc: "ps ! ?k = (j, c)" by fastforce
  have pk: "wave_packet ?w cfg sdrill cid oid hdr (?k, chunks ?m (cts ! ?w) ! ?k) = Ok (j, c)"
    using ps(2,3) idx(2) jc by metis
  then have j: "j = i" using p by (simp add: wave_packet_Ok)
  have "(i, c) \<in> set (waves ! ?w)" using ps(1,2) idx(2) jc j by (metis nth_mem)
  then have "(i, c) \<in> set (concat waves)" using idx(1) len by (auto simp: set_concat_nth)
  moreover have "v = c" if "(i, v) \<in> set (concat waves)" for v
  proof -
    from that obtain w where w: "w < length cts" "(i, v) \<in> set (waves ! w)"
      unfolding set_concat_nth len by blast
    from wave [OF w(1)] obtain qs where qs: "set (waves ! w) = set qs" "length qs = wave_size cfg cts w"
      "\<forall>k < length qs. wave_packet w cfg sdrill cid oid hdr (k, chunks ?m (cts ! w) ! k) = Ok (qs ! k)" by blast
    from w(2) qs(1) obtain k where k: "k < length qs" "qs ! k = (i, v)" by (metis in_set_conv_nth)
    with qs(3) have pk': "wave_packet w cfg sdrill cid oid hdr (k, chunks ?m (cts ! w) ! k) = Ok (i, v)" by metis
    have "k < ?p" using k(1) qs(2) wave_size_cases(2) [OF d w(1)] by simp
    then have "w = ?w" "k = ?k" using pk' p by (auto simp: wave_packet_Ok)
    with pk pk' j show ?thesis by simp
  qed
  ultimately have "map_of (collect_map (concat waves)) i = Some c"
    unfolding map_of_collect by (rule map_of_rev_unique)
  with pk j show ?thesis by (auto simp: wave_packet_Ok packet_body_def)
qed

section \<open>Transfer\<close>

text \<open>
  The packet with number \<open>i\<close> of the sender arrives at time \<open>now\<close>: the receiver finds its number from the
  wave and the ports and cuts the header off.
\<close>

definition arrive ::
    "group_sender \<Rightarrow> entropy_bank \<Rightarrow> nat \<Rightarrow> nat \<times> nat \<Rightarrow> (nat \<times> nat \<times> u32 \<times> bytes) option" where
  "arrive dev scramble_drill header_len = (\<lambda>(now, i). do {
     c \<leftarrow> map_of (packets_in_ram dev) i;
     let v = pc_vector c;
     true_sequence \<leftarrow> generate_packet_coordinates_inv (pv_wave_id v) (pv_local_port v)
                        (pv_remote_port v) scramble_drill;
     Some (now, true_sequence, pv_wave_id v, drop header_len (pc_packet c))
   })"

definition transfer_group ::
    "group_receiver \<Rightarrow> u64 \<Rightarrow> pqc \<times> entropy_bank \<Rightarrow> group_sender \<Rightarrow> entropy_bank \<Rightarrow> nat \<Rightarrow> (nat \<times> nat) list \<Rightarrow>
     (group_receiver_status list \<times> group_receiver, crypt_error) result" where
  "transfer_group rcv group_id pd dev scramble_drill header_len order =
     rbind (unwrap (those (map (arrive dev scramble_drill header_len) order)))
       (receive_group rcv group_id pd)"

lemma those_map_Some: "(\<And>x. x \<in> set xs \<Longrightarrow> f x = Some (g x)) \<Longrightarrow> those (map f xs) = Some (map g xs)"
  by (induction xs) auto

lemma packet_coordinates:
  assumes m: "valid_mapping (scramble_mappings drill)" and i: "i div PORT_RANGE < 2 ^ 32"
    and v: "generate_packet_vector i g drill = Ok v"
  shows "generate_packet_coordinates_inv (pv_wave_id v) (pv_local_port v) (pv_remote_port v) drill = Some i"
    and "pv_wave_id v = word_of_nat (i div PORT_RANGE)"
proof -
  have ports: "distinct (scramble_mappings drill)" "length (scramble_mappings drill) = PORT_RANGE" "0 < PORT_RANGE"
    using m by (simp_all add: valid_mapping_def PORT_RANGE_def)
  obtain s l where sl: "scramble_mappings drill ! (i mod PORT_RANGE) = (s, l)" by fastforce
  with v ports have "v = \<lparr>pv_group_id = g, pv_wave_id = word_of_nat (i div PORT_RANGE), pv_local_port = s,
      pv_remote_port = l, pv_true_sequence = i\<rparr>"
    by (simp add: generate_packet_vector_def get_multiport_width_def Let_def)
  moreover have "find_ports 0 (scramble_mappings drill) s l = Some (i mod PORT_RANGE)"
    using ports sl by (simp add: find_ports_Some)
  moreover have "unat (word_of_nat (i div PORT_RANGE) :: u32) = i div PORT_RANGE"
    using i by (simp add: unat_of_nat)
  ultimately show "generate_packet_coordinates_inv (pv_wave_id v) (pv_local_port v) (pv_remote_port v) drill = Some i"
    and "pv_wave_id v = word_of_nat (i div PORT_RANGE)"
    using ports by (simp_all add: generate_packet_coordinates_inv_def)
qed

lemma nth_statuses_of:
  "k < length is \<Longrightarrow> statuses_of cfg cts S is ! k = status_of cfg cts (S \<union> set (take k is)) (is ! k)"
  by (induction "is" arbitrary: S k) (auto simp: less_Suc_eq_0_disj)

lemma length_statuses_of [simp]: "length (statuses_of cfg cts S is) = length is"
  by (induction "is" arbitrary: S) auto

lemma group_complete_iff:
  assumes d: "describes cfg cts plain" and "i < gc_packets_needed cfg"
  shows "(\<exists>w. status_of cfg cts S i = GROUP_COMPLETE w) \<longleftrightarrow>
     i \<notin> S \<and> {..<gc_packets_needed cfg} \<subseteq> insert i S"
  using packet_wave(1) [OF assms] all_done_iff [OF d, of "insert i S"]
  by (auto simp: status_of_def Let_def all_done_def)

lemma transfer_arrivals:
  assumes d: "describes cfg cts plain" and cfg: "gc_max_packets_per_wave cfg = PORT_RANGE"
    and run: "sender_run rs shuffle cfg plain pd sdrill cid oid hdr cts waves"
    and perm: "\<And>xs. mset (shuffle xs) = mset xs" and m: "valid_mapping (scramble_mappings sdrill)"
    and hdr: "\<And>v. length (hdr v sdrill oid cid) = hl" and i: "i < gc_packets_needed cfg"
  shows "arrive (group_sender_new now cfg (collect_map (concat waves))) sdrill hl (t, i) =
     Some (arrival cfg cts (t, i))"
proof -
  from sender_packets [OF d run perm i] obtain v where
    v: "generate_packet_vector i (gc_group_id cfg) sdrill = Ok v"
      "map_of (collect_map (concat waves)) i =
         Some \<lparr>pc_packet = hdr v sdrill oid cid @ packet_body cfg cts i, pc_vector = v\<rparr>" by blast
  have "i div PORT_RANGE < 2 ^ 32"
    using packet_wave(1) [OF d i] d by (simp add: cfg describes_def)
  note pc = packet_coordinates [OF m this v(1)]
  show ?thesis
    using v(2) pc hdr by (simp add: arrive_def arrival_def group_sender_new_def cfg Let_def)
qed

lemma transfer_complete:
  assumes d: "describes cfg cts plain" and dec: "decrypts cfg cts plain gid pd"
    and arrivals: "\<And>t i. (t, i) \<in> set order \<Longrightarrow> i < gc_packets_needed cfg \<and>
      arrive dev sdrill hl (t, i) = Some (arrival cfg cts (t, i))"
  shows "\<exists>statuses final.
     transfer_group (group_receiver_new t0 cfg wt gt) gid pd dev sdrill hl order = Ok (statuses, final) \<and>
     length statuses = length order \<and>
     (\<forall>k < length order. (\<exists>w. statuses ! k = GROUP_COMPLETE w) \<longleftrightarrow>
        snd (order ! k) \<notin> set (take k (map snd order)) \<and>
        {..<gc_packets_needed cfg} \<subseteq> set (take (Suc k) (map snd order))) \<and>
     ({..<gc_packets_needed cfg} \<subseteq> set (map snd order) \<longrightarrow> finalize final = plain)"
proof -
  let ?is = "map snd order"
  have ok: "\<forall>(now, i) \<in> set order. i < gc_packets_needed cfg" using arrivals by auto
  have "those (map (arrive dev sdrill hl) order) = Some (map (arrival cfg cts) order)"
    using arrivals by (intro those_map_Some) auto
  moreover from receive_group_run [OF d dec initial_inv [OF d] ok] obtain final where
    run: "receive_group (group_receiver_new t0 cfg wt gt) gid pd (map (arrival cfg cts) order) =
       Ok (statuses_of cfg cts {} ?is, final)"
    and inv: "recv_inv cfg cts plain ({} \<union> snd ` set order) final" by blast
  ultimately have "transfer_group (group_receiver_new t0 cfg wt gt) gid pd dev sdrill hl order =
      Ok (statuses_of cfg cts {} ?is, final)"
    by (simp add: transfer_group_def)
  moreover have "(\<exists>w. statuses_of cfg cts {} ?is ! k = GROUP_COMPLETE w) \<longleftrightarrow>
      snd (order ! k) \<notin> set (take k ?is) \<and> {..<gc_packets_needed cfg} \<subseteq> set (take (Suc k) ?is)"
    if k: "k < length order" for k
  proof -
    have "?is ! k < gc_packets_needed cfg" using ok k by (metis case_prod_beta nth_map nth_mem)
    from group_complete_iff [OF d this] show ?thesis
      using k by (simp add: nth_statuses_of take_Suc_conv_app_nth)
  qed
  moreover have "finalize final = plain" if "{..<gc_packets_needed cfg} \<subseteq> set ?is"
    using slab_complete [OF d inv] that by simp
  ultimately show ?thesis by (intro exI conjI) (assumption | simp)+
qed

section \<open>A concrete group\<close>

definition demo_header :: header_inscriber where
  "demo_header v drill oid cid = [9]"

definition demo_send :: "bytes \<Rightarrow> (group_sender, crypt_error) result" where
  "demo_send plain = par_scramble_encrypt_group 0 (\<lambda>n. n) (\<lambda>w i. 0) rev 0 1 plain Standard
     (demo_node Alice, demo_bank) demo_bank 1 3 4 5 demo_header"

lemma demo_encrypt: "bank_encrypt r demo_bank v (demo_node Alice) x = Ok (x @ replicate 16 0)"
  using length_get_nonce [of demo_bank v]
  by (simp add: bank_encrypt_def encrypt_custom_nonce_def pqc_encrypt_def demo_node_def get_encryption_key_def
      aead_encrypt_def aes_module_def demo_lib_def) (simp add: demo_bank_def)

lemma demo_width: "get_multiport_width demo_bank = PORT_RANGE"
  using demo_bank_valid by (simp add: get_multiport_width_def valid_mapping_def)

lemma demo_send_Ok:
  "\<exists>dev. demo_send [1, 2, 3] = Ok dev \<and> gc_packets_needed (gs_receiver_config dev) = 1"
proof -
  let ?cfg = "new_refresh 5 1 [1, 2, 3] 496 0 1 WAVE_BYTES 3 PORT_RANGE 19"
  have meta: "generate_scrambler_metadata 0 (\<lambda>n. n) demo_bank [1, 2, 3] 1 Standard 5 AES_GCM_256_SIV = Ok ?cfg"
    by (subst metadata_partial) (simp_all add: demo_width WAVE_BYTES_def)
  have fields: "gc_max_plaintext_wave_length ?cfg = WAVE_BYTES" "gc_max_payload_size ?cfg = 496"
    by (simp_all add: new_refresh_def Let_def)
  have one: "chunks WAVE_BYTES [1, 2, 3 :: u8] = [[1, 2, 3]]"
    by (simp add: WAVE_BYTES_def chunks_step)
  have c: "chunks 496 ([1, 2, 3 :: u8] @ replicate 16 0) = [[1, 2, 3] @ replicate 16 0]"
    by (simp add: chunks_step)
  have vec: "\<exists>v. generate_packet_vector n g demo_bank = Ok v" for n g
    by (simp add: generate_packet_vector_def demo_width PORT_RANGE_def case_prod_beta Let_def)
  obtain v where v: "generate_packet_vector 0 (gc_group_id ?cfg) demo_bank = Ok v" using vec by blast
  let ?wave = "[(0, \<lparr>pc_packet = demo_header v demo_bank 4 3 @ [1, 2, 3] @ replicate 16 0, pc_vector = v\<rparr>)]"
  have wave: "scramble_encrypt_wave (\<lambda>i. 0) rev 0 [1, 2, 3] ?cfg demo_bank (demo_node Alice) demo_bank 3 4
      demo_header = Ok ?wave"
    using v unfolding scramble_encrypt_wave_def demo_encrypt fields
    by (simp add: c [simplified] wave_packet_def Let_def)
  have alg: "encryption_algorithm (pq_params (demo_node Alice)) = AES_GCM_256_SIV"
    by (simp add: demo_node_def default_crypto_parameters_def)
  have "demo_send [1, 2, 3] = Ok (group_sender_new 0 ?cfg (collect_map (concat [?wave])))"
    unfolding demo_send_def par_scramble_encrypt_group_def
    by (simp add: alg meta fields one wave del: One_nat_def)
  then show ?thesis
    by (simp add: group_sender_new_def new_refresh_def Let_def div_ceil_def)
qed

section \<open>Properties\<close>

text \<open>
  C1: A group sent with a symmetric cipher is reassembled whatever the network does to the order of
  its packets. For a plaintext that does not fill its waves exactly, the packets the sender made, as
  they arrive in any order and with any repetitions, never make the receiver panic; the receiver
  reports \<open>GROUP_COMPLETE\<close> exactly at the first arrival that completes the set of packets; and once all
  have arrived the result is the plaintext.
\<close>

theorem group_transfer_reassembles:
  assumes sent: "par_scramble_encrypt_group sb ct rs shuffle now hl plain level (pqc_a, drill) sdrill hs cid
      oid gid hdr = Ok dev"
    and alg: "encryption_algorithm (pq_params pqc_a) \<noteq> Kyber"
    and wf: "pqc_wf lib pqc_a" and tags: "tagged_ciphers lib" and opens: "pqc_opens pqc_a pqc_b"
    and ports: "get_multiport_width drill = PORT_RANGE" "valid_mapping (scramble_mappings sdrill)"
    and perm: "\<And>xs. mset (shuffle xs) = mset xs" and header: "\<And>v. length (hdr v sdrill oid cid) = hl"
    and part: "length plain mod WAVE_BYTES \<noteq> 0" and few: "length plain < 2 ^ 32"
    and order: "\<forall>i \<in> set (map snd order). i < gc_packets_needed (gs_receiver_config dev)"
  shows "\<exists>statuses final.
     transfer_group (group_receiver_new t0 (gs_receiver_config dev) wt gt) gid (pqc_b, drill) dev sdrill hl order =
       Ok (statuses, final) \<and> length statuses = length order \<and>
     (\<forall>k < length order. (\<exists>w. statuses ! k = GROUP_COMPLETE w) \<longleftrightarrow>
        snd (order ! k) \<notin> set (take k (map snd order)) \<and>
        {..<gc_packets_needed (gs_receiver_config dev)} \<subseteq> set (take (Suc k) (map snd order))) \<and>
     ({..<gc_packets_needed (gs_receiver_config dev)} \<subseteq> set (map snd order) \<longrightarrow> finalize final = plain)"
proof -
  have "encryption_algorithm (pq_params (fst (pqc_a, drill))) \<noteq> Kyber" using alg by simp
  with sent obtain cfg cts waves where
    meta: "generate_scrambler_metadata sb ct drill plain hs level gid (encryption_algorithm (pq_params pqc_a)) = Ok cfg"
    and dev: "dev = group_sender_new now cfg (collect_map (concat waves))"
    and run: "sender_run rs shuffle cfg plain (pqc_a, drill) sdrill cid oid hdr cts waves"
    by (auto elim: sender_runs)
  from meta have cfg: "cfg = new_refresh gid hs plain 496 (length plain div WAVE_BYTES) 1 WAVE_BYTES
      (length plain mod WAVE_BYTES) PORT_RANGE (length plain mod WAVE_BYTES + 16)"
    by (simp add: metadata_partial [OF alg ports(1) part])
  have fields: "gc_max_plaintext_wave_length cfg = WAVE_BYTES" "gc_max_packets_per_wave cfg = PORT_RANGE"
    "gc_group_id cfg = gid" by (simp_all add: cfg new_refresh_def Let_def)
  have enc: "bank_encrypt (rs w) drill (calculate_nonce_version (word_of_nat w) gid) pqc_a (wave_text cfg plain w) =
      Ok (cts ! w)" and count: "length cts = length (chunks WAVE_BYTES plain)" if "w < length cts" for w
    using run that by (simp_all add: sender_run_def fields)
  have len: "length (cts ! w) = length (wave_text cfg plain w) + 16" if "w < length cts" for w
    using bank_encrypt_length [OF tags wf alg enc [OF that]] .
  have n: "length cts = length (chunks WAVE_BYTES plain)" using run by (simp add: sender_run_def fields)
  have W: "0 < WAVE_BYTES" by (simp add: WAVE_BYTES_def)
  have d: "describes cfg cts plain"
    unfolding cfg using part n len few
    by (intro metadata_describes) (auto simp: wave_text_def fields WAVE_BYTES_def)
  have "length (cts ! w) < 2 ^ 64" if "w < length cts" for w
  proof -
    have "length (wave_text cfg plain w) \<le> WAVE_BYTES"
      using length_nth_chunks [OF W, of w plain] that n by (simp add: wave_text_def fields)
    with len [OF that] show ?thesis by (simp add: WAVE_BYTES_def)
  qed
  then have dec: "decrypts cfg cts plain gid (pqc_b, drill)"
    using bank_decrypt_encrypted [OF opens enc] by (simp add: decrypts_def)
  have rc: "gs_receiver_config dev = cfg" by (simp add: dev group_sender_new_def)
  have "i < gc_packets_needed cfg \<and> arrive dev sdrill hl (t, i) = Some (arrival cfg cts (t, i))"
    if "(t, i) \<in> set order" for t i
  proof -
    from that have "i \<in> set (map snd order)" by force
    with order have i: "i < gc_packets_needed cfg" by (simp only: rc)
    with transfer_arrivals [OF d fields(2) run perm ports(2) header i] show ?thesis by (simp add: dev)
  qed
  from transfer_complete [OF d dec this] show ?thesis unfolding rc by blast
qed

theorem group_transfer_reassembles_witness:
  "\<exists>dev statuses final. demo_send [1, 2, 3] = Ok dev \<and>
     transfer_group (group_receiver_new 0 (gs_receiver_config dev) 0 0) 5 (demo_node Bob, demo_bank) dev
       demo_bank 1 [(7, 0), (8, 0)] = Ok (statuses, final) \<and>
     (\<exists>w. statuses ! 0 = GROUP_COMPLETE w) \<and> finalize final = [1, 2, 3]"
proof -
  obtain dev where dev: "demo_send [1, 2, 3] = Ok dev" "gc_packets_needed (gs_receiver_config dev) = 1"
    using demo_send_Ok by blast
  have wf: "pqc_wf demo_lib (demo_node Alice)"
    by (simp add: pqc_wf_def demo_node_def keys_to_aead_store_def default_crypto_parameters_def)
  have op: "pqc_opens (demo_node Alice) (demo_node Bob)"
    using demo_channel by (simp add: channel_run_def)
  have alg: "encryption_algorithm (pq_params (demo_node Alice)) \<noteq> Kyber"
    by (simp add: demo_node_def default_crypto_parameters_def)
  have tags: "tagged_ciphers demo_lib" by (auto simp: tagged_ciphers_def demo_lib_def)
  have small: "length [1, 2, 3 :: u8] mod WAVE_BYTES \<noteq> 0" "length [1, 2, 3 :: u8] < 2 ^ 32"
    by (simp_all add: WAVE_BYTES_def)
  have perm: "mset (rev xs) = mset xs" for xs :: "(nat \<times> packet_coordinate) list" by simp
  have header: "length (demo_header v demo_bank 4 3) = 1" for v by (simp add: demo_header_def)
  let ?o = "[(7, 0), (8, 0)] :: (nat \<times> nat) list"
  have ord: "\<forall>i \<in> set (map snd ?o). i < gc_packets_needed (gs_receiver_config dev)"
    using dev(2) by simp
  from group_transfer_reassembles [OF dev(1) [unfolded demo_send_def] alg wf tags op demo_width demo_bank_valid
      perm header small ord, where ?t0.0 = 0 and wt = 0 and gt = 0]
  obtain statuses final where run: "transfer_group (group_receiver_new 0 (gs_receiver_config dev) 0 0) 5
      (demo_node Bob, demo_bank) dev demo_bank 1 [(7, 0), (8, 0)] = Ok (statuses, final)"
    and st: "\<forall>k < length ?o. (\<exists>w. statuses ! k = GROUP_COMPLETE w) \<longleftrightarrow>
        snd (?o ! k) \<notin> set (take k (map snd ?o)) \<and>
        {..<gc_packets_needed (gs_receiver_config dev)} \<subseteq> set (take (Suc k) (map snd ?o))"
    and fin: "{..<gc_packets_needed (gs_receiver_config dev)} \<subseteq> set (map snd ?o) \<longrightarrow>
        finalize final = [1, 2, 3]"
    by (elim exE conjE) (rule that)
  have "\<exists>w. statuses ! 0 = GROUP_COMPLETE w" using st [rule_format, of 0] dev(2) by auto
  moreover have "finalize final = [1, 2, 3]" using fin dev(2) by auto
  ultimately show ?thesis using dev(1) run by blast
qed

text \<open>
  C26: A plaintext that fills its waves exactly breaks the receiver. The metadata then claim no packets
  for the last wave, the receiver allocates room for a single packet, and every packet of the last wave
  but the first and the very last one makes it panic on arrival.
\<close>

theorem exact_fill_receiver_panics:
  assumes "enx \<noteq> Kyber" and "get_multiport_width drill = PORT_RANGE"
    and "length plain = q * WAVE_BYTES" and "0 < q" and "q < 2 ^ 32"
    and "generate_scrambler_metadata sb ct drill plain hs level gid enx = Ok cfg"
    and "0 < k" and "k < PORT_RANGE - 1"
  shows "on_packet_received now (group_receiver_new t cfg wt gt) gid ((q - 1) * PORT_RANGE + k)
     (word_of_nat (q - 1)) pd packet = Panic"
proof -
  have cfg: "cfg = new_refresh gid hs plain 496 q 0 WAVE_BYTES WAVE_BYTES PORT_RANGE 0"
    using assms(6) by (simp add: metadata_exact [OF assms(1-4)])
  obtain p where q: "q = Suc p" using assms(4) gr0_implies_Suc by blast
  have p: "unat (word_of_nat p :: u32) = p" using assms(5) by (simp add: q unat_of_nat)
  let ?self = "group_receiver_new t cfg wt gt" and ?i = "p * PORT_RANGE + k"
  have k: "0 < k" "k < 13" using assms(7,8) by (simp_all add: PORT_RANGE_def)
  have order: "?i < length (packets_received_order ?self)" "\<not> packets_received_order ?self ! ?i"
    using k by (simp_all add: group_receiver_new_def cfg new_refresh_def Let_def q PORT_RANGE_def)
  have store: "map_of (temp_wave_store ?self) p = Some (wave_store_new t cfg p)"
    unfolding initial_store by (simp add: cfg new_refresh_def Let_def q)
  have buf: "length (ciphertext_buffer (wave_store_new t cfg p)) = 496"
    by (simp add: wave_store_new_def Let_def get_packet_count_in_wave_def cfg new_refresh_def q)
  have "store_packet now (?self\<lparr>packets_received_order := o'\<rparr>) ?i (wave_store_new t cfg p) packet = Panic" for o'
    using k by (simp add: store_packet_def get_ciphertext_insertion_range_def group_receiver_new_def Let_def
        slice_def buf) (simp add: cfg new_refresh_def Let_def q PORT_RANGE_def)
  with order store show ?thesis
    by (simp add: q on_packet_received_def Let_def p not_le)
qed

theorem exact_fill_receiver_panics_witness:
  "\<exists>cfg. generate_scrambler_metadata 0 (\<lambda>n. n) demo_bank (replicate WAVE_BYTES 0) 1 Standard 5 AES_GCM_256_SIV =
      Ok cfg \<and>
     on_packet_received 0 (group_receiver_new 0 cfg 0 0) 5 ((1 - 1) * PORT_RANGE + 1) (word_of_nat (1 - 1))
       (demo_node Bob, demo_bank) [0] = Panic"
proof -
  have meta: "generate_scrambler_metadata 0 (\<lambda>n. n) demo_bank (replicate WAVE_BYTES 0) 1 Standard 5 AES_GCM_256_SIV =
      Ok (new_refresh 5 1 (replicate WAVE_BYTES 0) 496 1 0 WAVE_BYTES WAVE_BYTES PORT_RANGE 0)"
    by (rule metadata_exact) (simp_all add: demo_width)
  show ?thesis
    by (rule exI, rule conjI [OF meta], rule exact_fill_receiver_panics [OF _ demo_width _ _ _ meta])
      (simp_all add: PORT_RANGE_def)
qed

end
