(* ===== verification/Thin_Ratchet.thy ===== *)
theory Thin_Ratchet
  imports Scrambler
begin

text \<open>
  The compact ratchet of \<open>citadel_crypt/src/fcm/fcm_ratchet.rs\<close>: one container and one entropy bank, and
  the constructor that Alice and Bob drive through the key exchange. The random bytes of each call and
  the bincode codec of the bank (\<open>ser\<close>, \<open>de\<close>) are arguments. A method that returns an \<open>Option\<close> has \<open>Err ()\<close>
  for \<open>None\<close>.
\<close>

section \<open>Randomness of a bank\<close>

text \<open>The random bytes and the two shuffles one call of \<open>EntropyBank::new\<close> draws.\<close>

type_synonym bank_rnd = "rnd \<times> (nat list \<Rightarrow> nat list) \<times> (nat list \<Rightarrow> nat list)"

fun new_bank :: "bank_rnd \<Rightarrow> u64 \<Rightarrow> u32 \<Rightarrow> encryption_algorithm \<Rightarrow> (entropy_bank, crypt_error) result" where
  "new_bank (r, sin, sout) cid version alg = entropy_bank_new r sin sout cid version alg"

section \<open>The ratchet\<close>

record thin_ratchet =
  tr_drill :: entropy_bank
  tr_pqc :: pqc

definition thin_decrypt_custom :: "thin_ratchet \<Rightarrow> u32 \<Rightarrow> u64 \<Rightarrow> bytes \<Rightarrow> (bytes, crypt_error) result" where
  "thin_decrypt_custom self wave_id group_id contents =
     bank_decrypt (tr_drill self) (calculate_nonce_version (ucast wave_id) group_id) (tr_pqc self) contents"

definition thin_encrypt_custom ::
    "rnd \<Rightarrow> thin_ratchet \<Rightarrow> u32 \<Rightarrow> u64 \<Rightarrow> bytes \<Rightarrow> (bytes, crypt_error) result" where
  "thin_encrypt_custom r self wave_id group_id contents =
     bank_encrypt r (tr_drill self) (calculate_nonce_version (ucast wave_id) group_id) (tr_pqc self) contents"

definition thin_get_cid :: "thin_ratchet \<Rightarrow> u64" where
  "thin_get_cid self = eb_cid (tr_drill self)"

definition thin_version :: "thin_ratchet \<Rightarrow> u32" where
  "thin_version self = eb_version (tr_drill self)"

definition thin_has_verified_packets :: "thin_ratchet \<Rightarrow> bool" where
  "thin_has_verified_packets self = has_verified_packets (tr_pqc self)"

definition thin_reset_ara :: "thin_ratchet \<Rightarrow> thin_ratchet" where
  "thin_reset_ara self = self\<lparr>tr_pqc := reset_counters (tr_pqc self)\<rparr>"

definition thin_get_next_constructor_opts :: "thin_ratchet \<Rightarrow> (constructor_opts list, unit) result" where
  "thin_get_next_constructor_opts self =
     rbind (unwrap (ok (get_chain (tr_pqc self)))) (\<lambda>chain.
       Ok [opts_new_from_previous (Some (pq_params (tr_pqc self))) chain])"

definition thin_protect_message_packet ::
    "rnd \<Rightarrow> thin_ratchet \<Rightarrow> nat \<Rightarrow> bytes \<Rightarrow> (bytes, crypt_error) result \<times> thin_ratchet" where
  "thin_protect_message_packet r self header_len_bytes packet =
     (let (res, p) = protect_packet r (tr_drill self) (tr_pqc self) header_len_bytes packet
      in (res, self\<lparr>tr_pqc := p\<rparr>))"

definition thin_validate_message_packet ::
    "thin_ratchet \<Rightarrow> bytes \<Rightarrow> bytes \<Rightarrow> (bytes, crypt_error) result \<times> thin_ratchet" where
  "thin_validate_message_packet self header packet =
     (let (res, p) = validate_packet_in_place_split (tr_drill self) (tr_pqc self) header packet
      in (res, self\<lparr>tr_pqc := p\<rparr>))"

section \<open>The constructor\<close>

record thin_ctor =
  tc_params :: crypto_parameters
  tc_pqc :: pqc
  tc_drill :: "entropy_bank option"
  tc_nonce :: bytes
  tc_cid :: u64
  tc_version :: u32

record fcm_alice_to_bob =
  fa_transfer_params :: alice_to_bob_params
  fa_params :: crypto_parameters
  fa_nonce :: bytes
  fa_cid :: u64
  fa_version :: u32

record fcm_bob_to_alice =
  fb_params_tx :: bob_to_alice_params
  fb_encrypted_drill_bytes :: bytes

definition thin_new_alice ::
    "crypto_lib \<Rightarrow> rnd \<Rightarrow> rnd \<Rightarrow> u64 \<Rightarrow> u32 \<Rightarrow> constructor_opts \<Rightarrow> (thin_ctor, unit) result" where
  "thin_new_alice lib r rn cid version opts =
     (let params = opts_params opts in
      rbind (discard_err (pqc_new_alice lib r opts)) (\<lambda>p.
      Ok \<lparr>tc_params = params, tc_pqc = p, tc_drill = None,
          tc_nonce = generate_public_nonce rn (encryption_algorithm params),
          tc_cid = cid, tc_version = version\<rparr>))"

definition thin_new_bob ::
    "crypto_lib \<Rightarrow> rnd \<Rightarrow> bank_rnd \<Rightarrow> constructor_opts \<Rightarrow> fcm_alice_to_bob \<Rightarrow> (thin_ctor, unit) result" where
  "thin_new_bob lib r br opts transfer =
     (let params = fa_params transfer in
      rbind (discard_err (pqc_new_bob lib r opts (fa_transfer_params transfer))) (\<lambda>p.
      rbind (discard_err (new_bank br (fa_cid transfer) (fa_version transfer) (encryption_algorithm params)))
        (\<lambda>drill.
      Ok \<lparr>tc_params = params, tc_pqc = p, tc_drill = Some drill, tc_nonce = fa_nonce transfer,
          tc_cid = fa_cid transfer, tc_version = fa_version transfer\<rparr>)))"

definition thin_stage0_alice :: "crypto_lib \<Rightarrow> rnd \<Rightarrow> thin_ctor \<Rightarrow> (fcm_alice_to_bob, unit) result" where
  "thin_stage0_alice lib r self =
     rbind (discard_err (generate_alice_to_bob_transfer lib r (tc_pqc self))) (\<lambda>pk.
     Ok \<lparr>fa_transfer_params = pk, fa_params = tc_params self, fa_nonce = tc_nonce self,
         fa_cid = tc_cid self, fa_version = tc_version self\<rparr>)"

definition thin_stage0_bob ::
    "crypto_lib \<Rightarrow> (entropy_bank \<Rightarrow> (bytes, string) result) \<Rightarrow> rnd \<Rightarrow> rnd \<Rightarrow> thin_ctor \<Rightarrow>
     (fcm_bob_to_alice, unit) result" where
  "thin_stage0_bob lib ser r re self =
     rbind (discard_err (generate_bob_to_alice_transfer lib r (tc_pqc self))) (\<lambda>tx.
     rbind (ok_or () (tc_drill self)) (\<lambda>drill.
     rbind (discard_err (bank_serialize_to_vec ser drill)) (\<lambda>plain.
     rbind (discard_err (pqc_encrypt re (tc_pqc self) plain (tc_nonce self))) (\<lambda>c.
     Ok \<lparr>fb_params_tx = tx, fb_encrypted_drill_bytes = c\<rparr>))))"

definition drill_err :: "('a, pq_error) result \<Rightarrow> ('a, crypt_error) result" where
  "drill_err = map_err (\<lambda>err. DrillUpdateError (pq_error_to_string err))"

lemma drill_err_simps [simp]: "drill_err (Ok x) = Ok x" "drill_err Panic = Panic"
  "drill_err m = Ok x \<longleftrightarrow> m = Ok x"
  by (simp_all add: drill_err_def)

text \<open>
  \<open>stage1_alice\<close> works on \<open>&mut self\<close>; its callers drop the constructor after an error, so only a
  success returns it.
\<close>

definition thin_stage1_alice ::
    "crypto_lib \<Rightarrow> (bytes \<Rightarrow> (entropy_bank, string) result) \<Rightarrow> fcm_bob_to_alice \<Rightarrow> thin_ctor \<Rightarrow>
     (thin_ctor, crypt_error) result" where
  "thin_stage1_alice lib de transfer self =
     rbind (drill_err (alice_on_receive_ciphertext lib (fb_params_tx transfer) (tc_pqc self))) (\<lambda>p.
     rbind (drill_err (pqc_decrypt p (fb_encrypted_drill_bytes transfer) (tc_nonce self))) (\<lambda>bytes.
     rbind (bank_deserialize_from de bytes) (\<lambda>drill.
     Ok (self\<lparr>tc_pqc := p, tc_drill := Some drill\<rparr>))))"

definition thin_update_version :: "u32 \<Rightarrow> thin_ctor \<Rightarrow> (thin_ctor, unit) result" where
  "thin_update_version version self =
     rbind (ok_or () (tc_drill self)) (\<lambda>drill.
     Ok (self\<lparr>tc_version := version, tc_drill := Some (drill\<lparr>eb_version := version\<rparr>)\<rparr>))"

definition thin_finish :: "thin_ctor \<Rightarrow> (thin_ratchet, unit) result" where
  "thin_finish self =
     rbind (ok_or () (tc_drill self)) (\<lambda>drill. Ok \<lparr>tr_drill = drill, tr_pqc = tc_pqc self\<rparr>)"

definition thin_finish_with_custom_cid :: "u64 \<Rightarrow> thin_ctor \<Rightarrow> (thin_ratchet, unit) result" where
  "thin_finish_with_custom_cid cid self =
     rbind (ok_or () (tc_drill self)) (\<lambda>drill.
     thin_finish (self\<lparr>tc_cid := cid, tc_drill := Some (drill\<lparr>eb_cid := cid\<rparr>)\<rparr>))"

end
