(* ===== verification/Stacked_Ratchet.thy ===== *)
theory Stacked_Ratchet
  imports Thin_Ratchet
begin

text \<open>
  The stacked ratchet of \<open>citadel_crypt/src/stacked_ratchet.rs\<close>: one container and bank per layer of the
  security level and one for scrambling, the operations on packets that run through the layers, and the
  constructor of the key exchange. The random bytes of the \<open>i\<close>-th call inside an operation are \<open>rs i\<close>, the
  bincode codec of a bank is \<open>ser\<close> and \<open>de\<close>. The containers are behind shared references with interior
  mutability, so operations that move the anti-replay counters return the updated ratchet.
\<close>

section \<open>The ratchet\<close>

record ratchet_keys =
  rk_drill :: entropy_bank
  rk_pqc :: pqc

record stacked_ratchet =
  sr_message :: "ratchet_keys list"
  sr_scramble :: ratchet_keys
  sr_default_security_level :: security_level

definition get_layer :: "stacked_ratchet \<Rightarrow> nat option \<Rightarrow> (ratchet_keys, 'e) result" where
  "get_layer self idx =
     (let i = (case idx of Some i \<Rightarrow> i | None \<Rightarrow> 0) in
      if i < length (sr_message self) then Ok (sr_message self ! i) else Panic)"

definition sr_reset_ara :: "stacked_ratchet \<Rightarrow> stacked_ratchet" where
  "sr_reset_ara self =
     self\<lparr>sr_message := map (\<lambda>k. k\<lparr>rk_pqc := reset_counters (rk_pqc k)\<rparr>) (sr_message self),
          sr_scramble := (sr_scramble self)\<lparr>rk_pqc := reset_counters (rk_pqc (sr_scramble self))\<rparr>\<rparr>"

text \<open>This is documented to panic when a layer has not finished its exchange.\<close>

definition get_next_constructor_opts ::
    "crypto_lib \<Rightarrow> stacked_ratchet \<Rightarrow> (constructor_opts list, unit) result" where
  "get_next_constructor_opts lib self =
     rbind (rmap (\<lambda>k. unwrap (ok (get_chain (rk_pqc k)))) (sr_message self)) (\<lambda>chains.
     let meta_chain = lib_sha3_256 lib (concat (map rc_chain chains)) in
     rmap (\<lambda>k. rbind (unwrap (ok (get_chain (rk_pqc k)))) (\<lambda>prev_chain.
               rbind (unwrap (recursive_chain_new meta_chain (rc_alice prev_chain) (rc_bob prev_chain) False))
                 (\<lambda>next_chain. Ok (opts_new_from_previous (Some (pq_params (rk_pqc k))) next_chain))))
       (sr_message self))"

definition sr_has_verified_packets :: "stacked_ratchet \<Rightarrow> bool" where
  "sr_has_verified_packets self =
     (list_ex (\<lambda>k. has_verified_packets (rk_pqc k)) (sr_message self) \<or>
      has_verified_packets (rk_pqc (sr_scramble self)))"

definition verify_level :: "stacked_ratchet \<Rightarrow> security_level option \<Rightarrow> (nat, crypt_error) result" where
  "verify_level self security_level =
     (let level = (case security_level of Some l \<Rightarrow> l | None \<Rightarrow> Standard) in
      if length (sr_message self) \<le> unat (level_value level) then Err OutOfBoundsError
      else Ok (unat (level_value level)))"

fun protect_layers ::
    "(nat \<Rightarrow> rnd) \<Rightarrow> nat \<Rightarrow> ratchet_keys list \<Rightarrow> bytes \<Rightarrow> (bytes, crypt_error) result \<times> ratchet_keys list" where
  "protect_layers rs header_len [] packet = (Ok packet, [])"
| "protect_layers rs header_len (k # ks) packet =
     (let (res, p) = protect_packet (rs 0) (rk_drill k) (rk_pqc k) header_len packet;
          k' = k\<lparr>rk_pqc := p\<rparr>
      in case res of
           Ok packet' \<Rightarrow>
             let (res', ks') = protect_layers (\<lambda>i. rs (Suc i)) header_len ks packet' in (res', k' # ks')
         | Err e \<Rightarrow> (Err e, k' # ks)
         | Panic \<Rightarrow> (Panic, k' # ks))"

definition protect_message_packet ::
    "(nat \<Rightarrow> rnd) \<Rightarrow> stacked_ratchet \<Rightarrow> security_level option \<Rightarrow> nat \<Rightarrow> bytes \<Rightarrow>
     (bytes, crypt_error) result \<times> stacked_ratchet" where
  "protect_message_packet rs self security_level header_len packet =
     (case verify_level self security_level of
        Ok idx \<Rightarrow>
          let (res, ks) = protect_layers rs header_len (take (Suc idx) (sr_message self)) packet
          in (res, self\<lparr>sr_message := ks @ drop (Suc idx) (sr_message self)\<rparr>)
      | Err e \<Rightarrow> (Err e, self)
      | Panic \<Rightarrow> (Panic, self))"

text \<open>Validation goes through the layers from the outermost one down; the layers come in that order.\<close>

fun validate_layers ::
    "bytes \<Rightarrow> ratchet_keys list \<Rightarrow> bytes \<Rightarrow> (bytes, crypt_error) result \<times> ratchet_keys list" where
  "validate_layers header [] packet = (Ok packet, [])"
| "validate_layers header (k # ks) packet =
     (let (res, p) = validate_packet_in_place_split (rk_drill k) (rk_pqc k) header packet;
          k' = k\<lparr>rk_pqc := p\<rparr>
      in case res of
           Ok packet' \<Rightarrow> let (res', ks') = validate_layers header ks packet' in (res', k' # ks')
         | Err e \<Rightarrow> (Err e, k' # ks)
         | Panic \<Rightarrow> (Panic, k' # ks))"

definition validate_message_packet ::
    "stacked_ratchet \<Rightarrow> security_level option \<Rightarrow> bytes \<Rightarrow> bytes \<Rightarrow>
     (bytes, crypt_error) result \<times> stacked_ratchet" where
  "validate_message_packet self security_level header packet =
     (case verify_level self security_level of
        Ok idx \<Rightarrow>
          let (res, ks) = validate_layers header (rev (take (Suc idx) (sr_message self))) packet
          in (res, self\<lparr>sr_message := rev ks @ drop (Suc idx) (sr_message self)\<rparr>)
      | Err e \<Rightarrow> (Err e, self)
      | Panic \<Rightarrow> (Panic, self))"

definition sr_encrypt_custom ::
    "rnd \<Rightarrow> stacked_ratchet \<Rightarrow> u32 \<Rightarrow> u64 \<Rightarrow> bytes \<Rightarrow> (bytes, crypt_error) result" where
  "sr_encrypt_custom r self wave_id group_id contents =
     rbind (get_layer self None) (\<lambda>k.
     bank_encrypt r (rk_drill k) (calculate_nonce_version (ucast wave_id) group_id) (rk_pqc k) contents)"

definition sr_decrypt_custom ::
    "stacked_ratchet \<Rightarrow> u32 \<Rightarrow> u64 \<Rightarrow> bytes \<Rightarrow> (bytes, crypt_error) result" where
  "sr_decrypt_custom self wave_id group_id contents =
     rbind (get_layer self None) (\<lambda>k.
     bank_decrypt (rk_drill k) (calculate_nonce_version (ucast wave_id) group_id) (rk_pqc k) contents)"

definition sr_encrypt :: "rnd \<Rightarrow> stacked_ratchet \<Rightarrow> bytes \<Rightarrow> (bytes, crypt_error) result" where
  "sr_encrypt r self contents = sr_encrypt_custom r self 0 0 contents"

definition sr_decrypt :: "stacked_ratchet \<Rightarrow> bytes \<Rightarrow> (bytes, crypt_error) result" where
  "sr_decrypt self contents = sr_decrypt_custom self 0 0 contents"

definition sr_encrypt_custom_scrambler ::
    "rnd \<Rightarrow> stacked_ratchet \<Rightarrow> u32 \<Rightarrow> u64 \<Rightarrow> bytes \<Rightarrow> (bytes, crypt_error) result" where
  "sr_encrypt_custom_scrambler r self wave_id group_id contents =
     bank_encrypt r (rk_drill (sr_scramble self)) (calculate_nonce_version (ucast wave_id) group_id)
       (rk_pqc (sr_scramble self)) contents"

definition sr_decrypt_custom_scrambler ::
    "stacked_ratchet \<Rightarrow> u32 \<Rightarrow> u64 \<Rightarrow> bytes \<Rightarrow> (bytes, crypt_error) result" where
  "sr_decrypt_custom_scrambler self wave_id group_id contents =
     bank_decrypt (rk_drill (sr_scramble self)) (calculate_nonce_version (ucast wave_id) group_id)
       (rk_pqc (sr_scramble self)) contents"

definition sr_version :: "stacked_ratchet \<Rightarrow> (u32, 'e) result" where
  "sr_version self = rbind (get_layer self None) (\<lambda>k. Ok (eb_version (rk_drill k)))"

definition sr_get_cid :: "stacked_ratchet \<Rightarrow> (u64, 'e) result" where
  "sr_get_cid self = rbind (get_layer self None) (\<lambda>k. Ok (eb_cid (rk_drill k)))"

section \<open>The constructor\<close>

record ctor_keys =
  ck_drill :: "entropy_bank option"
  ck_pqc :: pqc

record stacked_ctor =
  sc_message :: "ctor_keys list"
  sc_scramble :: ctor_keys
  sc_nonce_message :: bytes
  sc_nonce_scramble :: bytes
  sc_cid :: u64
  sc_new_version :: u32
  sc_security_level :: security_level
  sc_params :: crypto_parameters

record alice_to_bob_transfer =
  at_params :: crypto_parameters
  at_params_txs :: "alice_to_bob_params list"
  at_scramble_alice_params :: alice_to_bob_params
  at_scramble_nonce :: bytes
  at_msg_nonce :: bytes
  at_security_level :: security_level
  at_cid :: u64
  at_new_version :: u32

record bob_to_alice_transfer =
  bt_msg_bob_params_txs :: "bob_to_alice_params list"
  bt_scramble_bob_params_tx :: bob_to_alice_params
  bt_encrypted_msg_drills :: "bytes list"
  bt_encrypted_scramble_drill :: bytes
  bt_security_level :: security_level

datatype alice_to_bob_transfer_type = A2B_Default alice_to_bob_transfer | A2B_Fcm fcm_alice_to_bob

datatype bob_to_alice_transfer_type = B2A_Default bob_to_alice_transfer | B2A_Fcm fcm_bob_to_alice

fun get_declared_new_version :: "alice_to_bob_transfer_type \<Rightarrow> u32" where
  "get_declared_new_version (A2B_Default tx) = at_new_version tx"
| "get_declared_new_version (A2B_Fcm tx) = fa_version tx"

definition sr_new_alice ::
    "crypto_lib \<Rightarrow> (nat \<Rightarrow> rnd) \<Rightarrow> constructor_opts list \<Rightarrow> u64 \<Rightarrow> u32 \<Rightarrow> security_level option \<Rightarrow>
     (stacked_ctor, unit) result" where
  "sr_new_alice lib rs opts cid new_version security_level =
     (if opts = [] then Panic
      else
        let level = (case security_level of Some l \<Rightarrow> l | None \<Rightarrow> Standard);
            len = length opts; params = opts_params (hd opts) in
        rbind (filter_map_ok (\<lambda>(i, opt).
                 rbind (pqc_new_alice lib (rs i) opt) (\<lambda>p. Ok \<lparr>ck_drill = None, ck_pqc = p\<rparr>))
                 (enumerate 0 opts)) (\<lambda>keys.
        if length keys \<noteq> len then Err ()
        else
          rbind (discard_err (pqc_new_alice lib (rs len) (opts_new_init (Some params)))) (\<lambda>scramble.
          Ok \<lparr>sc_message = keys, sc_scramble = \<lparr>ck_drill = None, ck_pqc = scramble\<rparr>,
              sc_nonce_message = generate_public_nonce (rs (len + 1)) (encryption_algorithm params),
              sc_nonce_scramble = generate_public_nonce (rs (len + 2)) (encryption_algorithm params),
              sc_cid = cid, sc_new_version = new_version, sc_security_level = level,
              sc_params = params\<rparr>)))"

text \<open>One key pair of Bob: a fresh bank, then the container that answers Alice's public key.\<close>

definition new_bob_keys ::
    "crypto_lib \<Rightarrow> rnd \<Rightarrow> bank_rnd \<Rightarrow> u64 \<Rightarrow> u32 \<Rightarrow> encryption_algorithm \<Rightarrow> alice_to_bob_params \<Rightarrow>
     constructor_opts \<Rightarrow> (ctor_keys, unit) result" where
  "new_bob_keys lib r br cid version alg params_tx opts =
     rbind (discard_err (new_bank br cid version alg)) (\<lambda>drill.
     rbind (discard_err (pqc_new_bob lib r opts params_tx)) (\<lambda>p.
     Ok \<lparr>ck_drill = Some drill, ck_pqc = p\<rparr>))"

definition sr_new_bob ::
    "crypto_lib \<Rightarrow> (nat \<Rightarrow> rnd) \<Rightarrow> (nat \<Rightarrow> bank_rnd) \<Rightarrow> u64 \<Rightarrow> u32 \<Rightarrow> constructor_opts list \<Rightarrow>
     alice_to_bob_transfer \<Rightarrow> (stacked_ctor, unit) result" where
  "sr_new_bob lib rs brs cid new_drill_vers opts transfer =
     (let count = unat (level_value (at_security_level transfer)) + 1;
          params = at_params transfer; alg = encryption_algorithm params in
      rbind (filter_map_ok (\<lambda>(i, params_tx, opt). new_bob_keys lib (rs i) (brs i) cid new_drill_vers alg params_tx opt)
               (enumerate 0 (zip (at_params_txs transfer) opts))) (\<lambda>keys.
      if length keys \<noteq> count then Err ()
      else
        rbind (new_bob_keys lib (rs count) (brs count) cid new_drill_vers alg
                 (at_scramble_alice_params transfer) (opts_new_init (Some params))) (\<lambda>scramble.
        Ok \<lparr>sc_message = keys, sc_scramble = scramble, sc_nonce_message = at_msg_nonce transfer,
            sc_nonce_scramble = at_scramble_nonce transfer, sc_cid = cid,
            sc_new_version = new_drill_vers, sc_security_level = at_security_level transfer,
            sc_params = params\<rparr>)))"

definition sr_stage0_alice ::
    "crypto_lib \<Rightarrow> (nat \<Rightarrow> rnd) \<Rightarrow> stacked_ctor \<Rightarrow> (alice_to_bob_transfer, unit) result" where
  "sr_stage0_alice lib rs self =
     rbind (filter_map_ok (\<lambda>(i, inner). generate_alice_to_bob_transfer lib (rs i) (ck_pqc inner))
              (enumerate 0 (sc_message self))) (\<lambda>pks.
     if length pks \<noteq> length (sc_message self) then Err ()
     else
       rbind (discard_err (generate_alice_to_bob_transfer lib (rs (length pks)) (ck_pqc (sc_scramble self))))
         (\<lambda>scramble_alice_pk.
       Ok \<lparr>at_params = sc_params self, at_params_txs = pks, at_scramble_alice_params = scramble_alice_pk,
           at_scramble_nonce = sc_nonce_scramble self, at_msg_nonce = sc_nonce_message self,
           at_security_level = sc_security_level self, at_cid = sc_cid self,
           at_new_version = sc_new_version self\<rparr>))"

definition seal_drill ::
    "(entropy_bank \<Rightarrow> (bytes, string) result) \<Rightarrow> rnd \<Rightarrow> ctor_keys \<Rightarrow> bytes \<Rightarrow> (bytes, unit) result" where
  "seal_drill ser r keys nonce =
     rbind (ok_or () (ck_drill keys)) (\<lambda>drill.
     rbind (discard_err (bank_serialize_to_vec ser drill)) (\<lambda>plain.
     discard_err (pqc_encrypt r (ck_pqc keys) plain nonce)))"

definition sr_stage0_bob ::
    "crypto_lib \<Rightarrow> (entropy_bank \<Rightarrow> (bytes, string) result) \<Rightarrow> (nat \<Rightarrow> rnd) \<Rightarrow> (nat \<Rightarrow> rnd) \<Rightarrow> stacked_ctor \<Rightarrow>
     (bob_to_alice_transfer, unit) result" where
  "sr_stage0_bob lib ser rs res self =
     (let expected_count = length (sc_message self) in
      rbind (filter_map_ok (\<lambda>(i, inner). generate_bob_to_alice_transfer lib (rs i) (ck_pqc inner))
               (enumerate 0 (sc_message self))) (\<lambda>msg_bob_cts.
      if length msg_bob_cts \<noteq> expected_count then Err ()
      else
        rbind (discard_err (generate_bob_to_alice_transfer lib (rs expected_count) (ck_pqc (sc_scramble self))))
          (\<lambda>scramble_bob_ct.
        rbind (filter_map_ok (\<lambda>(i, inner). seal_drill ser (res i) inner (sc_nonce_message self))
                 (enumerate 0 (sc_message self))) (\<lambda>encrypted_msg_drills.
        if length encrypted_msg_drills \<noteq> expected_count then Err ()
        else
          rbind (seal_drill ser (res expected_count) (sc_scramble self) (sc_nonce_scramble self))
            (\<lambda>encrypted_scramble_drill.
          Ok \<lparr>bt_msg_bob_params_txs = msg_bob_cts, bt_scramble_bob_params_tx = scramble_bob_ct,
              bt_encrypted_msg_drills = encrypted_msg_drills,
              bt_encrypted_scramble_drill = encrypted_scramble_drill,
              bt_security_level = sc_security_level self\<rparr>)))))"

text \<open>Alice's containers take the ciphertexts pairwise; a container without one is left as it is.\<close>

fun receive_ciphertexts ::
    "crypto_lib \<Rightarrow> ctor_keys list \<Rightarrow> bob_to_alice_params list \<Rightarrow> (ctor_keys list, crypt_error) result" where
  "receive_ciphertexts lib (k # ks) (tx # txs) =
     rbind (drill_err (alice_on_receive_ciphertext lib tx (ck_pqc k))) (\<lambda>p.
     rbind (receive_ciphertexts lib ks txs) (\<lambda>ks'. Ok (k\<lparr>ck_pqc := p\<rparr> # ks')))"
| "receive_ciphertexts lib ks txs = Ok ks"

definition open_drill ::
    "(bytes \<Rightarrow> (entropy_bank, string) result) \<Rightarrow> ctor_keys \<Rightarrow> bytes \<Rightarrow> bytes \<Rightarrow> (ctor_keys, crypt_error) result" where
  "open_drill de keys sealed nonce =
     rbind (drill_err (pqc_decrypt (ck_pqc keys) sealed nonce)) (\<lambda>plain.
     rbind (bank_deserialize_from de plain) (\<lambda>drill. Ok (keys\<lparr>ck_drill := Some drill\<rparr>)))"

definition no_drill :: crypt_error where
  "no_drill = DrillUpdateError ''Unable to get encrypted_msg_drills''"

fun sr_stage1_alice ::
    "crypto_lib \<Rightarrow> (bytes \<Rightarrow> (entropy_bank, string) result) \<Rightarrow> bob_to_alice_transfer_type \<Rightarrow> stacked_ctor \<Rightarrow>
     (stacked_ctor, crypt_error) result" where
  "sr_stage1_alice lib de (B2A_Default transfer) self =
     rbind (receive_ciphertexts lib (sc_message self) (bt_msg_bob_params_txs transfer)) (\<lambda>received.
     rbind (rmap (\<lambda>(idx, container).
                    if idx < length (bt_encrypted_msg_drills transfer)
                    then open_drill de container (bt_encrypted_msg_drills transfer ! idx) (sc_nonce_message self)
                    else Err no_drill)
              (enumerate 0 received)) (\<lambda>message.
     rbind (drill_err (alice_on_receive_ciphertext lib (bt_scramble_bob_params_tx transfer)
              (ck_pqc (sc_scramble self)))) (\<lambda>p.
     rbind (open_drill de ((sc_scramble self)\<lparr>ck_pqc := p\<rparr>) (bt_encrypted_scramble_drill transfer)
              (sc_nonce_scramble self)) (\<lambda>scramble.
     rbind (ok_or no_drill (ck_drill scramble)) (\<lambda>scramble_drill.
     if message = [] then Panic
     else
       rbind (ok_or no_drill (ck_drill (hd message))) (\<lambda>message_drill.
       if eb_version scramble_drill \<noteq> eb_version message_drill then
         Err (DrillUpdateError ''Message drill version != scramble drill version'')
       else if eb_cid scramble_drill \<noteq> eb_cid message_drill then
         Err (DrillUpdateError ''Message drill cid != scramble drill cid'')
       else Ok (self\<lparr>sc_message := message, sc_scramble := scramble\<rparr>)))))))"
| "sr_stage1_alice lib de (B2A_Fcm transfer) self =
     Err (DrillUpdateError ''Incompatible Ratchet Type passed! [X-40]'')"

definition on_drill :: "(entropy_bank \<Rightarrow> entropy_bank) \<Rightarrow> ctor_keys \<Rightarrow> (ctor_keys, unit) result" where
  "on_drill f keys = rbind (ok_or () (ck_drill keys)) (\<lambda>drill. Ok (keys\<lparr>ck_drill := Some (f drill)\<rparr>))"

definition sr_update_version :: "u32 \<Rightarrow> stacked_ctor \<Rightarrow> (stacked_ctor, unit) result" where
  "sr_update_version proposed_version self =
     rbind (rmap (on_drill (\<lambda>d. d\<lparr>eb_version := proposed_version\<rparr>)) (sc_message self)) (\<lambda>message.
     rbind (on_drill (\<lambda>d. d\<lparr>eb_version := proposed_version\<rparr>) (sc_scramble self)) (\<lambda>scramble.
     Ok (self\<lparr>sc_new_version := proposed_version, sc_message := message, sc_scramble := scramble\<rparr>)))"

text \<open>\<open>TryFrom<StackedRatchetConstructor> for StackedRatchet\<close>; the length less one wraps around for none.\<close>

definition finish_keys :: "entropy_bank \<Rightarrow> ctor_keys \<Rightarrow> (ratchet_keys, unit) result" where
  "finish_keys scramble_drill container =
     rbind (discard_err (get_shared_secret (pq_data (ck_pqc container)))) (\<lambda>_.
     rbind (ok_or () (ck_drill container)) (\<lambda>message_drill.
     if eb_version message_drill \<noteq> eb_version scramble_drill \<or> eb_cid message_drill \<noteq> eb_cid scramble_drill
     then Err () else Ok \<lparr>rk_drill = message_drill, rk_pqc = ck_pqc container\<rparr>))"

definition sr_finish :: "stacked_ctor \<Rightarrow> (stacked_ratchet, unit) result" where
  "sr_finish self =
     rbind (ok_or () (level_for_value (usize_sub (length (sc_message self)) 1))) (\<lambda>level.
     rbind (discard_err (get_shared_secret (pq_data (ck_pqc (sc_scramble self))))) (\<lambda>_.
     rbind (ok_or () (ck_drill (sc_scramble self))) (\<lambda>scramble_drill.
     rbind (rmap (finish_keys scramble_drill) (sc_message self)) (\<lambda>inner.
     Ok \<lparr>sr_message = inner, sr_scramble = \<lparr>rk_drill = scramble_drill, rk_pqc = ck_pqc (sc_scramble self)\<rparr>,
         sr_default_security_level = level\<rparr>))))"

definition sr_finish_with_custom_cid :: "u64 \<Rightarrow> stacked_ctor \<Rightarrow> (stacked_ratchet, unit) result" where
  "sr_finish_with_custom_cid cid self =
     rbind (rmap (on_drill (\<lambda>d. d\<lparr>eb_cid := cid\<rparr>)) (sc_message self)) (\<lambda>message.
     rbind (on_drill (\<lambda>d. d\<lparr>eb_cid := cid\<rparr>) (sc_scramble self)) (\<lambda>scramble.
     sr_finish (self\<lparr>sc_message := message, sc_scramble := scramble\<rparr>)))"

definition sr_next_alice_constructor ::
    "crypto_lib \<Rightarrow> (nat \<Rightarrow> rnd) \<Rightarrow> stacked_ratchet \<Rightarrow> (stacked_ctor, unit) result" where
  "sr_next_alice_constructor lib rs self =
     rbind (get_next_constructor_opts lib self) (\<lambda>opts.
     rbind (sr_get_cid self) (\<lambda>cid.
     rbind (sr_version self) (\<lambda>version.
     sr_new_alice lib rs opts cid (version + 1) (Some (sr_default_security_level self)))))"

end
