(* ===== verification/Ratchet_Handshake.thy ===== *)
theory Ratchet_Handshake
  imports Stacked_Ratchet
begin

text \<open>
  The key exchange of stacked ratchets. Two constructors that went through it hold, layer by layer,
  containers that agree and the same banks; finishing them always succeeds and gives ratchets that
  agree. Two ratchets that agree derive the same options for the next exchange.
\<close>

section \<open>Agreement\<close>

text \<open>Banks that differ in the owner only.\<close>

definition same_bank :: "entropy_bank \<Rightarrow> entropy_bank \<Rightarrow> bool" where
  "same_bank a b \<longleftrightarrow> a\<lparr>eb_cid := eb_cid b\<rparr> = b"

text \<open>The recursive chain is made of arrays of 32 bytes.\<close>

definition chain32 :: "recursive_chain option \<Rightarrow> bool" where
  "chain32 c \<longleftrightarrow> (\<exists>ch. c = Some ch \<and> length (rc_chain ch) = 32 \<and> length (rc_alice ch) = 32 \<and> length (rc_bob ch) = 32)"

definition keys_agree :: "ratchet_keys \<Rightarrow> ratchet_keys \<Rightarrow> bool" where
  "keys_agree a b \<longleftrightarrow>
     pqc_agree (rk_pqc a) (rk_pqc b) \<and> chain32 (pq_chain (rk_pqc b)) \<and> same_bank (rk_drill a) (rk_drill b)"

definition ratchet_agree :: "stacked_ratchet \<Rightarrow> stacked_ratchet \<Rightarrow> bool" where
  "ratchet_agree a b \<longleftrightarrow>
     sr_message a \<noteq> [] \<and> list_all2 keys_agree (sr_message a) (sr_message b) \<and>
     keys_agree (sr_scramble a) (sr_scramble b) \<and>
     sr_default_security_level a = sr_default_security_level b"

text \<open>Every bank of the ratchet has this version and this owner.\<close>

definition ratchet_id :: "u32 \<Rightarrow> u64 \<Rightarrow> stacked_ratchet \<Rightarrow> bool" where
  "ratchet_id v c r \<longleftrightarrow>
     sr_message r \<noteq> [] \<and> length (sr_message r) \<le> 256 \<and>
     (\<forall>k \<in> insert (sr_scramble r) (set (sr_message r)). eb_version (rk_drill k) = v \<and> eb_cid (rk_drill k) = c) \<and>
     sr_default_security_level r = level_from_u8 (word_of_nat (length (sr_message r) - 1))"

lemma ratchet_id_version: "ratchet_id v c r \<Longrightarrow> sr_version r = Ok v \<and> sr_get_cid r = Ok c"
  by (auto simp: ratchet_id_def sr_version_def sr_get_cid_def get_layer_def)

section \<open>Finishing a constructor\<close>

definition loaded :: "pqc \<Rightarrow> bool" where
  "loaded p \<longleftrightarrow> (\<exists>ss. get_shared_secret (pq_data p) = Ok ss)"

definition ready :: "u32 \<Rightarrow> ctor_keys \<Rightarrow> bool" where
  "ready v k \<longleftrightarrow> (\<exists>d. ck_drill k = Some d \<and> eb_version d = v) \<and> loaded (ck_pqc k)"

definition ctor_ready :: "u32 \<Rightarrow> stacked_ctor \<Rightarrow> bool" where
  "ctor_ready v self \<longleftrightarrow>
     sc_message self \<noteq> [] \<and> length (sc_message self) \<le> 256 \<and>
     (\<forall>k \<in> set (sc_message self). ready v k) \<and> ready v (sc_scramble self)"

definition owned_keys :: "u64 \<Rightarrow> ctor_keys \<Rightarrow> ratchet_keys" where
  "owned_keys c k = \<lparr>rk_drill = (the (ck_drill k))\<lparr>eb_cid := c\<rparr>, rk_pqc = ck_pqc k\<rparr>"

definition finished :: "u64 \<Rightarrow> stacked_ctor \<Rightarrow> stacked_ratchet" where
  "finished c self =
     \<lparr>sr_message = map (owned_keys c) (sc_message self), sr_scramble = owned_keys c (sc_scramble self),
      sr_default_security_level = level_from_u8 (word_of_nat (length (sc_message self) - 1))\<rparr>"

lemma finish_ready:
  assumes "ctor_ready v self"
  shows "sr_finish_with_custom_cid c self = Ok (finished c self)"
proof -
  let ?own = "\<lambda>k. k\<lparr>ck_drill := Some ((the (ck_drill k))\<lparr>eb_cid := c\<rparr>)\<rparr>"
  have own: "on_drill (\<lambda>d. d\<lparr>eb_cid := c\<rparr>) k = Ok (?own k)" if "ready v k" for k
    using that by (auto simp: ready_def on_drill_def)
  have fin: "finish_keys ((the (ck_drill (sc_scramble self)))\<lparr>eb_cid := c\<rparr>) (?own k) = Ok (owned_keys c k)"
    if "ready v k" for k
    using that assms by (auto simp: ready_def ctor_ready_def finish_keys_def owned_keys_def loaded_def)
  have keys: "\<And>k. k \<in> set (sc_message self) \<Longrightarrow> ready v k" "ready v (sc_scramble self)"
    and len: "0 < length (sc_message self)" "length (sc_message self) \<le> 256"
    using assms by (auto simp: ctor_ready_def)
  have "level_for_value (usize_sub (length (sc_message self)) 1) =
      Some (level_from_u8 (word_of_nat (length (sc_message self) - 1)))"
    using len by (simp add: level_for_value_def Suc_le_eq)
  then show ?thesis
    using keys
    by (auto simp: sr_finish_with_custom_cid_def sr_finish_def rmap_Ok_map [where g = ?own] own rmap_map
        rmap_Ok_map [where g = "owned_keys c"] fin finished_def ready_def loaded_def owned_keys_def)
qed

definition with_version :: "u32 \<Rightarrow> ctor_keys \<Rightarrow> ctor_keys" where
  "with_version v k = k\<lparr>ck_drill := map_option (\<lambda>d. d\<lparr>eb_version := v\<rparr>) (ck_drill k)\<rparr>"

definition ctor_with_version :: "u32 \<Rightarrow> stacked_ctor \<Rightarrow> stacked_ctor" where
  "ctor_with_version v self = self\<lparr>sc_new_version := v, sc_message := map (with_version v) (sc_message self),
     sc_scramble := with_version v (sc_scramble self)\<rparr>"

lemma update_version_ready:
  assumes "ctor_ready w self"
  shows "sr_update_version v self = Ok (ctor_with_version v self)" and "ctor_ready v (ctor_with_version v self)"
proof -
  have up: "on_drill (\<lambda>d. d\<lparr>eb_version := v\<rparr>) k = Ok (with_version v k)" "ready v (with_version v k)"
    if "ready w k" for k
    using that by (auto simp: ready_def on_drill_def with_version_def)
  have keys: "\<And>k. k \<in> set (sc_message self) \<Longrightarrow> ready w k" "ready w (sc_scramble self)"
    using assms by (auto simp: ctor_ready_def)
  then show "sr_update_version v self = Ok (ctor_with_version v self)" "ctor_ready v (ctor_with_version v self)"
    using assms
    by (auto simp: sr_update_version_def up rmap_Ok_map [where g = "with_version v"] ctor_ready_def
        ctor_with_version_def)
qed

lemma finished_id: "ctor_ready v self \<Longrightarrow> ratchet_id v c (finished c self)"
  by (auto simp: ratchet_id_def finished_def ctor_ready_def ready_def owned_keys_def)

section \<open>The exchange\<close>

definition ctor_keys_agree :: "ctor_keys \<Rightarrow> ctor_keys \<Rightarrow> bool" where
  "ctor_keys_agree a b \<longleftrightarrow>
     pqc_agree (ck_pqc a) (ck_pqc b) \<and> chain32 (pq_chain (ck_pqc b)) \<and> ck_drill a = ck_drill b"

definition ctor_agree :: "stacked_ctor \<Rightarrow> stacked_ctor \<Rightarrow> bool" where
  "ctor_agree a b \<longleftrightarrow>
     list_all2 ctor_keys_agree (sc_message a) (sc_message b) \<and>
     ctor_keys_agree (sc_scramble a) (sc_scramble b)"

lemma owned_keys_agree: "ctor_keys_agree a b \<Longrightarrow> keys_agree (owned_keys c a) (owned_keys d b)"
  by (simp add: ctor_keys_agree_def keys_agree_def owned_keys_def same_bank_def)

lemma finished_agree:
  assumes "ctor_agree a b" and "sc_message a \<noteq> []"
  shows "ratchet_agree (finished c a) (finished d b)"
  using assms list_all2_lengthD [of ctor_keys_agree "sc_message a" "sc_message b"]
  by (auto simp: ctor_agree_def ratchet_agree_def finished_def owned_keys_agree list_all2_map1 list_all2_map2
      elim!: list_all2_mono)

text \<open>The bincode codec of a bank reads back what it wrote.\<close>

definition sound_bank_codec ::
    "(entropy_bank \<Rightarrow> (bytes, string) result) \<Rightarrow> (bytes \<Rightarrow> (entropy_bank, string) result) \<Rightarrow> bool" where
  "sound_bank_codec ser de \<longleftrightarrow> (\<forall>b c. ser b = Ok c \<longrightarrow> de c = Ok b)"

text \<open>Options of the two ends that lead to the same keys.\<close>

definition same_opts :: "constructor_opts \<Rightarrow> constructor_opts \<Rightarrow> bool" where
  "same_opts a b \<longleftrightarrow> opts_params a = opts_params b \<and> co_chain a = co_chain b"

lemma open_sealed_drill:
  assumes "sound_bank_codec ser de" and "pqc_agree p (ck_pqc b)" and "seal_drill ser r b nonce = Ok c"
    and "length c < 2 ^ 64"
  shows "open_drill de \<lparr>ck_drill = x, ck_pqc = p\<rparr> c nonce = Ok \<lparr>ck_drill = ck_drill b, ck_pqc = p\<rparr>"
proof -
  from assms(3) obtain d plain where d: "ck_drill b = Some d" "ser d = Ok plain"
    "pqc_encrypt r (ck_pqc b) plain nonce = Ok c"
    by (auto simp: seal_drill_def bank_serialize_to_vec_def)
  have "pqc_decrypt p c nonce = Ok plain"
    using assms(2,4) d(3)
    by (auto simp: pqc_agree_def pqc_opens_def pqc_encrypt_def pqc_decrypt_def aead_encrypt_def
        aead_decrypt_def aead_pair_def)
  then show ?thesis
    using assms(1) d(1,2) by (auto simp: open_drill_def bank_deserialize_from_def sound_bank_codec_def)
qed

lemma receive_ciphertexts_nth:
  assumes "length txs = length ks" and "length ps = length ks"
    and "\<And>i. i < length ks \<Longrightarrow> alice_on_receive_ciphertext lib (txs ! i) (ck_pqc (ks ! i)) = Ok (ps ! i)"
  shows "receive_ciphertexts lib ks txs = Ok (map2 (\<lambda>k p. k\<lparr>ck_pqc := p\<rparr>) ks ps)"
  using assms
proof (induction lib ks txs arbitrary: ps rule: receive_ciphertexts.induct)
  case (1 lib k ks tx txs)
  then obtain p ps' where ps: "ps = p # ps'" by (cases ps) auto
  have "receive_ciphertexts lib ks txs = Ok (map2 (\<lambda>k p. k\<lparr>ck_pqc := p\<rparr>) ks ps')"
    using 1(2-3) 1(4) [of "Suc _"] ps by (intro 1(1)) auto
  moreover have "alice_on_receive_ciphertext lib tx (ck_pqc k) = Ok p"
    using 1(4) [of 0] ps by simp
  ultimately show ?case by (simp add: ps)
qed auto

lemma exchange_loaded:
  "alice_on_receive_ciphertext lib m p = Ok p' \<Longrightarrow> loaded p'"
  "pqc_new_bob lib r opts tx = Ok bob \<Longrightarrow> loaded bob"
  by (auto simp: loaded_def alice_on_receive_ciphertext_def load_symmetric_keys_def
      elim!: pqc_new_bob_OkE)

lemma new_bob_chain: "pqc_new_bob lib r opts tx = Ok bob \<Longrightarrow> chain32 (pq_chain bob)"
  by (auto elim!: pqc_new_bob_OkE simp: chain32_def generate_recursive_keystore_def recursive_chain_new_def
      Let_def split: prod.splits if_splits)

text \<open>One layer of the exchange, up to the bank that Bob seals.\<close>

lemma layer_exchange:
  assumes "sound_lib lib" and "sound_bank_codec ser de"
    and "\<exists>p. pqc_new_alice lib ra oa = Ok p \<and> a = \<lparr>ck_drill = None, ck_pqc = p\<rparr>"
    and "generate_alice_to_bob_transfer lib r1 (ck_pqc a) = Ok tx"
    and "pqc_new_bob lib rb ob tx = Ok (ck_pqc b)" and "same_opts oa ob"
    and "generate_bob_to_alice_transfer lib r2 (ck_pqc b) = Ok ct"
    and "seal_drill ser r3 b nonce = Ok c" and "length c < 2 ^ 64"
  shows "\<exists>p. alice_on_receive_ciphertext lib ct (ck_pqc a) = Ok p \<and> pqc_agree p (ck_pqc b) \<and> loaded p \<and>
     open_drill de (a\<lparr>ck_pqc := p\<rparr>) c nonce = Ok \<lparr>ck_drill = ck_drill b, ck_pqc = p\<rparr>"
proof -
  from assms(3) obtain p0 where p0: "pqc_new_alice lib ra oa = Ok p0" "a = \<lparr>ck_drill = None, ck_pqc = p0\<rparr>"
    by blast
  then have tx: "generate_alice_to_bob_transfer lib r1 p0 = Ok tx" using assms(4) by simp
  from pqc_exchange [OF assms(1) p0(1) tx assms(5,7)] assms(6) obtain p where
    p: "alice_on_receive_ciphertext lib ct p0 = Ok p" "pqc_agree p (ck_pqc b)"
    by (auto simp: same_opts_def)
  with exchange_loaded(1) [OF p(1)] open_sealed_drill [OF assms(2) p(2) assms(8,9)] p0(2) show ?thesis
    by auto
qed

lemma new_bob_keys_OkE:
  assumes "new_bob_keys lib r br cid v alg tx opts = Ok k"
  obtains d where "ck_drill k = Some d" "eb_version d = v" "eb_cid d = cid" "eb_algorithm d = alg"
    "pqc_new_bob lib r opts tx = Ok (ck_pqc k)"
  using assms by (cases br) (auto simp: new_bob_keys_def entropy_bank_new_def)

definition level_or_standard :: "security_level option \<Rightarrow> security_level" where
  "level_or_standard l = (case l of Some l \<Rightarrow> l | None \<Rightarrow> Standard)"

text \<open>What the first three messages leave behind, layer by layer.\<close>

lemma new_alice_facts:
  assumes "sr_new_alice lib rs opts cid v level = Ok alice"
  shows "length (sc_message alice) = length opts" and "opts \<noteq> []"
    and "\<And>i. i < length opts \<Longrightarrow> \<exists>p. pqc_new_alice lib (rs i) (opts ! i) = Ok p \<and>
           sc_message alice ! i = \<lparr>ck_drill = None, ck_pqc = p\<rparr>"
    and "\<exists>p. pqc_new_alice lib (rs (length opts)) (opts_new_init (Some (sc_params alice))) = Ok p \<and>
           sc_scramble alice = \<lparr>ck_drill = None, ck_pqc = p\<rparr>"
    and "sc_security_level alice = level_or_standard level"
    and "sc_params alice = opts_params (hd opts)" "sc_cid alice = cid" "sc_new_version alice = v"
proof -
  let ?f = "\<lambda>(i, opt). rbind (pqc_new_alice lib (rs i) opt) (\<lambda>p. Ok \<lparr>ck_drill = None, ck_pqc = p\<rparr>)"
  have ne: "opts \<noteq> []" using assms by (auto simp: sr_new_alice_def)
  with assms obtain keys where keys: "filter_map_ok ?f (enumerate 0 opts) = (Ok keys :: (_, unit) result)"
    "length keys = length opts" "sc_message alice = keys"
    "\<exists>p. pqc_new_alice lib (rs (length opts)) (opts_new_init (Some (sc_params alice))) = Ok p \<and>
           sc_scramble alice = \<lparr>ck_drill = None, ck_pqc = p\<rparr>"
    "sc_security_level alice = level_or_standard level"
    "sc_params alice = opts_params (hd opts)" "sc_cid alice = cid" "sc_new_version alice = v"
    by (auto simp: sr_new_alice_def Let_def level_or_standard_def split: if_splits)
  with filter_map_ok_enumerate [of ?f opts keys, where ?'b = unit]
  have nth: "i < length opts \<Longrightarrow> ?f (i, opts ! i) = Ok (keys ! i)" for i by blast
  show "length (sc_message alice) = length opts" "opts \<noteq> []"
    "sc_security_level alice = level_or_standard level"
    "sc_params alice = opts_params (hd opts)" "sc_cid alice = cid" "sc_new_version alice = v"
    "\<exists>p. pqc_new_alice lib (rs (length opts)) (opts_new_init (Some (sc_params alice))) = Ok p \<and>
           sc_scramble alice = \<lparr>ck_drill = None, ck_pqc = p\<rparr>"
    using keys ne by auto
  show "\<exists>p. pqc_new_alice lib (rs i) (opts ! i) = Ok p \<and> sc_message alice ! i = \<lparr>ck_drill = None, ck_pqc = p\<rparr>"
    if "i < length opts" for i
    using nth [OF that] keys(3) by auto
qed

lemma stage0_alice_facts:
  assumes "sr_stage0_alice lib rs alice = Ok tx"
  shows "length (at_params_txs tx) = length (sc_message alice)"
    and "\<And>i. i < length (sc_message alice) \<Longrightarrow>
           generate_alice_to_bob_transfer lib (rs i) (ck_pqc (sc_message alice ! i)) = Ok (at_params_txs tx ! i)"
    and "generate_alice_to_bob_transfer lib (rs (length (sc_message alice))) (ck_pqc (sc_scramble alice)) =
           Ok (at_scramble_alice_params tx)"
    and "at_params tx = sc_params alice" "at_msg_nonce tx = sc_nonce_message alice"
      "at_scramble_nonce tx = sc_nonce_scramble alice" "at_security_level tx = sc_security_level alice"
      "at_new_version tx = sc_new_version alice"
proof -
  let ?f = "\<lambda>(i, inner). generate_alice_to_bob_transfer lib (rs i) (ck_pqc inner)"
  from assms obtain pks where pks: "filter_map_ok ?f (enumerate 0 (sc_message alice)) = (Ok pks :: (_, unit) result)"
    "length pks = length (sc_message alice)" "at_params_txs tx = pks"
    and rest: "generate_alice_to_bob_transfer lib (rs (length (sc_message alice))) (ck_pqc (sc_scramble alice)) =
           Ok (at_scramble_alice_params tx)" "at_params tx = sc_params alice" "at_msg_nonce tx = sc_nonce_message alice"
      "at_scramble_nonce tx = sc_nonce_scramble alice" "at_security_level tx = sc_security_level alice"
      "at_new_version tx = sc_new_version alice"
    by (auto simp: sr_stage0_alice_def split: if_splits)
  with filter_map_ok_enumerate [of ?f "sc_message alice" pks, where ?'b = unit]
  show "length (at_params_txs tx) = length (sc_message alice)"
    "\<And>i. i < length (sc_message alice) \<Longrightarrow>
       generate_alice_to_bob_transfer lib (rs i) (ck_pqc (sc_message alice ! i)) = Ok (at_params_txs tx ! i)"
    by auto
  show "generate_alice_to_bob_transfer lib (rs (length (sc_message alice))) (ck_pqc (sc_scramble alice)) =
           Ok (at_scramble_alice_params tx)" "at_params tx = sc_params alice" "at_msg_nonce tx = sc_nonce_message alice"
      "at_scramble_nonce tx = sc_nonce_scramble alice" "at_security_level tx = sc_security_level alice"
      "at_new_version tx = sc_new_version alice"
    by (rule rest)+
qed

lemma new_bob_facts:
  assumes "sr_new_bob lib rs brs cid v opts tx = Ok bob"
    and "length (at_params_txs tx) = n" and "length opts = n"
    and "n = Suc (unat (level_value (at_security_level tx)))"
  shows "length (sc_message bob) = n"
    and "\<And>i. i < n \<Longrightarrow> new_bob_keys lib (rs i) (brs i) cid v (encryption_algorithm (at_params tx))
           (at_params_txs tx ! i) (opts ! i) = Ok (sc_message bob ! i)"
    and "new_bob_keys lib (rs n) (brs n) cid v (encryption_algorithm (at_params tx))
           (at_scramble_alice_params tx) (opts_new_init (Some (at_params tx))) = Ok (sc_scramble bob)"
    and "sc_nonce_message bob = at_msg_nonce tx" "sc_nonce_scramble bob = at_scramble_nonce tx"
      "sc_params bob = at_params tx" "sc_new_version bob = v"
proof -
  let ?alg = "encryption_algorithm (at_params tx)" and ?z = "zip (at_params_txs tx) opts"
  let ?f = "\<lambda>(i, params_tx, opt). new_bob_keys lib (rs i) (brs i) cid v ?alg params_tx opt"
  from assms obtain keys where keys: "filter_map_ok ?f (enumerate 0 ?z) = (Ok keys :: (_, unit) result)"
    "length keys = n" "sc_message bob = keys"
    and rest: "new_bob_keys lib (rs n) (brs n) cid v ?alg
           (at_scramble_alice_params tx) (opts_new_init (Some (at_params tx))) = Ok (sc_scramble bob)"
      "sc_nonce_message bob = at_msg_nonce tx" "sc_nonce_scramble bob = at_scramble_nonce tx"
      "sc_params bob = at_params tx" "sc_new_version bob = v"
    by (auto simp: sr_new_bob_def Let_def split: if_splits)
  with filter_map_ok_enumerate [of ?f ?z keys, where ?'b = unit] assms(2,3)
  show "length (sc_message bob) = n"
    "\<And>i. i < n \<Longrightarrow> new_bob_keys lib (rs i) (brs i) cid v ?alg (at_params_txs tx ! i) (opts ! i) =
       Ok (sc_message bob ! i)"
    by auto
  show "new_bob_keys lib (rs n) (brs n) cid v ?alg
           (at_scramble_alice_params tx) (opts_new_init (Some (at_params tx))) = Ok (sc_scramble bob)"
      "sc_nonce_message bob = at_msg_nonce tx" "sc_nonce_scramble bob = at_scramble_nonce tx"
      "sc_params bob = at_params tx" "sc_new_version bob = v"
    by (rule rest)+
qed

lemma stage0_bob_facts:
  assumes "sr_stage0_bob lib ser rs res bob = Ok reply"
  shows "length (bt_msg_bob_params_txs reply) = length (sc_message bob)"
    and "length (bt_encrypted_msg_drills reply) = length (sc_message bob)"
    and "\<And>i. i < length (sc_message bob) \<Longrightarrow>
           generate_bob_to_alice_transfer lib (rs i) (ck_pqc (sc_message bob ! i)) =
             Ok (bt_msg_bob_params_txs reply ! i)"
    and "\<And>i. i < length (sc_message bob) \<Longrightarrow>
           seal_drill ser (res i) (sc_message bob ! i) (sc_nonce_message bob) =
             Ok (bt_encrypted_msg_drills reply ! i)"
    and "generate_bob_to_alice_transfer lib (rs (length (sc_message bob))) (ck_pqc (sc_scramble bob)) =
           Ok (bt_scramble_bob_params_tx reply)"
    and "seal_drill ser (res (length (sc_message bob))) (sc_scramble bob) (sc_nonce_scramble bob) =
           Ok (bt_encrypted_scramble_drill reply)"
proof -
  let ?f = "\<lambda>(i, inner). generate_bob_to_alice_transfer lib (rs i) (ck_pqc inner)"
  let ?g = "\<lambda>(i, inner). seal_drill ser (res i) inner (sc_nonce_message bob)"
  from assms obtain cts ds where lists:
    "filter_map_ok ?f (enumerate 0 (sc_message bob)) = (Ok cts :: (_, unit) result)"
    "length cts = length (sc_message bob)" "bt_msg_bob_params_txs reply = cts"
    "filter_map_ok ?g (enumerate 0 (sc_message bob)) = (Ok ds :: (_, unit) result)"
    "length ds = length (sc_message bob)" "bt_encrypted_msg_drills reply = ds"
    and rest: "generate_bob_to_alice_transfer lib (rs (length (sc_message bob))) (ck_pqc (sc_scramble bob)) =
           Ok (bt_scramble_bob_params_tx reply)"
     "seal_drill ser (res (length (sc_message bob))) (sc_scramble bob) (sc_nonce_scramble bob) =
           Ok (bt_encrypted_scramble_drill reply)"
    by (auto simp: sr_stage0_bob_def Let_def split: if_splits)
  with filter_map_ok_enumerate [of ?f "sc_message bob" cts, where ?'b = unit]
    filter_map_ok_enumerate [of ?g "sc_message bob" ds, where ?'b = unit]
  show "length (bt_msg_bob_params_txs reply) = length (sc_message bob)"
    "length (bt_encrypted_msg_drills reply) = length (sc_message bob)"
    "\<And>i. i < length (sc_message bob) \<Longrightarrow>
           generate_bob_to_alice_transfer lib (rs i) (ck_pqc (sc_message bob ! i)) =
             Ok (bt_msg_bob_params_txs reply ! i)"
    "\<And>i. i < length (sc_message bob) \<Longrightarrow>
           seal_drill ser (res i) (sc_message bob ! i) (sc_nonce_message bob) =
             Ok (bt_encrypted_msg_drills reply ! i)"
    by auto
  show "generate_bob_to_alice_transfer lib (rs (length (sc_message bob))) (ck_pqc (sc_scramble bob)) =
           Ok (bt_scramble_bob_params_tx reply)"
     "seal_drill ser (res (length (sc_message bob))) (sc_scramble bob) (sc_nonce_scramble bob) =
           Ok (bt_encrypted_scramble_drill reply)"
    by (rule rest)+
qed

lemma stage1_alice_Ok:
  assumes n: "length (bt_msg_bob_params_txs reply) = length (sc_message alice)"
      "length (bt_encrypted_msg_drills reply) = length (sc_message alice)"
      "length ps = length (sc_message alice)" "length ks = length (sc_message alice)" "sc_message alice \<noteq> []"
    and layers: "\<And>i. i < length (sc_message alice) \<Longrightarrow>
        alice_on_receive_ciphertext lib (bt_msg_bob_params_txs reply ! i) (ck_pqc (sc_message alice ! i)) = Ok (ps ! i) \<and>
        open_drill de ((sc_message alice ! i)\<lparr>ck_pqc := ps ! i\<rparr>) (bt_encrypted_msg_drills reply ! i)
          (sc_nonce_message alice) = Ok (ks ! i)"
    and scramble: "alice_on_receive_ciphertext lib (bt_scramble_bob_params_tx reply) (ck_pqc (sc_scramble alice)) = Ok p"
      "open_drill de ((sc_scramble alice)\<lparr>ck_pqc := p\<rparr>) (bt_encrypted_scramble_drill reply)
          (sc_nonce_scramble alice) = Ok k"
    and drills: "ck_drill k = Some d" "ck_drill (ks ! 0) = Some d0"
      "eb_version d = eb_version d0" "eb_cid d = eb_cid d0"
  shows "sr_stage1_alice lib de (B2A_Default reply) alice = Ok (alice\<lparr>sc_message := ks, sc_scramble := k\<rparr>)"
proof -
  let ?recv = "map2 (\<lambda>k p. k\<lparr>ck_pqc := p\<rparr>) (sc_message alice) ps"
  have recv: "receive_ciphertexts lib (sc_message alice) (bt_msg_bob_params_txs reply) = Ok ?recv"
    using n layers by (intro receive_ciphertexts_nth) auto
  have "rmap (\<lambda>(idx, container).
          if idx < length (bt_encrypted_msg_drills reply)
          then open_drill de container (bt_encrypted_msg_drills reply ! idx) (sc_nonce_message alice)
          else Err no_drill) (enumerate 0 ?recv) = Ok ks"
    using n layers by (simp add: rmap_nth nth_enumerate_eq)
  moreover have ne: "ks \<noteq> []" using n by (metis length_0_conv)
  moreover have "hd ks = ks ! 0" using ne by (rule hd_conv_nth)
  ultimately show ?thesis
    using recv scramble drills by simp
qed

lemma bob_keys_ready:
  "new_bob_keys lib r br cid v alg tx opts = Ok k \<Longrightarrow> ready v k"
  by (auto elim!: new_bob_keys_OkE simp: ready_def intro: exchange_loaded(2))

lemma new_bob_ready:
  assumes "sr_new_bob lib rs brs cid v opts tx = Ok bob"
    and "length (at_params_txs tx) = n" and "length opts = n"
    and "n = Suc (unat (level_value (at_security_level tx)))"
  shows "ctor_ready v bob"
proof -
  have "unat (level_value (at_security_level tx)) < 256"
    using unsigned_less [of "level_value (at_security_level tx)"] by simp
  moreover have "ready v k" if "k \<in> set (sc_message bob)" for k
    using that new_bob_facts(1,2) [OF assms] bob_keys_ready by (metis in_set_conv_nth)
  moreover have "ready v (sc_scramble bob)"
    using new_bob_facts(3) [OF assms] by (rule bob_keys_ready)
  ultimately show ?thesis
    using new_bob_facts(1) [OF assms] assms(4) by (auto simp: ctor_ready_def)
qed

text \<open>Bob's side once he has set the version, seen from what Alice sent.\<close>

lemma bob_layers:
  assumes bob: "sr_new_bob lib rb brs cid v opts tx = Ok bob"
    and dims: "length (at_params_txs tx) = n" "length opts = n" "n = Suc (unat (level_value (at_security_level tx)))"
    and version: "sr_update_version w bob = Ok bob1"
  shows "ctor_ready w bob1" and "length (sc_message bob1) = n"
    and "\<And>i. i < n \<Longrightarrow> pqc_new_bob lib (rb i) (opts ! i) (at_params_txs tx ! i) = Ok (ck_pqc (sc_message bob1 ! i))"
    and "pqc_new_bob lib (rb n) (opts_new_init (Some (at_params tx))) (at_scramble_alice_params tx) =
           Ok (ck_pqc (sc_scramble bob1))"
    and "\<And>k. k \<in> insert (sc_scramble bob1) (set (sc_message bob1)) \<Longrightarrow>
           \<exists>d. ck_drill k = Some d \<and> eb_version d = w \<and> eb_cid d = cid"
    and "sc_nonce_message bob1 = at_msg_nonce tx" "sc_nonce_scramble bob1 = at_scramble_nonce tx"
proof -
  note B = new_bob_facts [OF bob dims]
  have up: "bob1 = ctor_with_version w bob" "ctor_ready w bob1"
    using update_version_ready [OF new_bob_ready [OF bob dims], of w] version by simp_all
  then show "ctor_ready w bob1" "length (sc_message bob1) = n" "sc_nonce_message bob1 = at_msg_nonce tx"
    "sc_nonce_scramble bob1 = at_scramble_nonce tx"
    using B(1,4,5) by (simp_all add: ctor_with_version_def)
  show "pqc_new_bob lib (rb i) (opts ! i) (at_params_txs tx ! i) = Ok (ck_pqc (sc_message bob1 ! i))"
    if "i < n" for i
    using that B(1) by (auto simp: up(1) ctor_with_version_def with_version_def intro: new_bob_keys_OkE [OF B(2) [OF that]])
  show "pqc_new_bob lib (rb n) (opts_new_init (Some (at_params tx))) (at_scramble_alice_params tx) =
      Ok (ck_pqc (sc_scramble bob1))"
    by (auto simp: up(1) ctor_with_version_def with_version_def intro: new_bob_keys_OkE [OF B(3)])
  have msg: "\<exists>d. ck_drill k = Some d \<and> eb_cid d = cid" if k: "k \<in> set (sc_message bob)" for k
  proof -
    from k B(1) obtain i where i: "i < n" "k = sc_message bob ! i" by (auto simp: in_set_conv_nth)
    show ?thesis using i(2) by (auto intro: new_bob_keys_OkE [OF B(2) [OF i(1)]])
  qed
  have drill: "\<exists>d. ck_drill (with_version w k) = Some d \<and> eb_version d = w \<and> eb_cid d = cid"
    if "\<exists>d. ck_drill k = Some d \<and> eb_cid d = cid" for k
    using that by (auto simp: with_version_def)
  have scr: "\<exists>d. ck_drill (sc_scramble bob) = Some d \<and> eb_cid d = cid"
    by (auto intro: new_bob_keys_OkE [OF B(3)])
  show "\<exists>d. ck_drill k = Some d \<and> eb_version d = w \<and> eb_cid d = cid"
    if "k \<in> insert (sc_scramble bob1) (set (sc_message bob1))" for k
    using that msg scr drill by (auto simp: up(1) ctor_with_version_def)
qed

lemma stacked_exchange:
  assumes lib: "sound_lib lib" and codec: "sound_bank_codec ser de"
    and alice: "sr_new_alice lib ra opts_a cid_a v level = Ok alice"
    and layers: "length opts_a = Suc (unat (level_value (level_or_standard level)))"
    and a2b: "sr_stage0_alice lib r1 alice = Ok tx"
    and bob: "sr_new_bob lib rb brs cid_b v_b opts_b tx = Ok bob"
    and same: "list_all2 same_opts opts_a opts_b"
    and version: "sr_update_version w bob = Ok bob1"
    and b2a: "sr_stage0_bob lib ser r2 r3 bob1 = Ok reply"
    and small: "\<And>c. c \<in> insert (bt_encrypted_scramble_drill reply) (set (bt_encrypted_msg_drills reply)) \<Longrightarrow>
        length c < 2 ^ 64"
  shows "\<exists>alice'. sr_stage1_alice lib de (B2A_Default reply) alice = Ok alice' \<and>
     ctor_agree alice' bob1 \<and> ctor_ready w alice' \<and> ctor_ready w bob1"
proof -
  define n where "n = length opts_a"
  note A = new_alice_facts [OF alice] and T = stage0_alice_facts [OF a2b] and R = stage0_bob_facts [OF b2a]
  have dims: "length (at_params_txs tx) = n" "length opts_b = n"
    "n = Suc (unat (level_value (at_security_level tx)))" "length (sc_message alice) = n" "0 < n"
    using A(1,2,5) T(1,7) same layers by (auto simp: n_def list_all2_lengthD)
  note B = bob_layers [OF bob dims(1-3) version]
  let ?ok = "\<lambda>ka kb ct c nonce p. alice_on_receive_ciphertext lib ct (ck_pqc ka) = Ok p \<and>
      pqc_agree p (ck_pqc kb) \<and> loaded p \<and>
      open_drill de (ka\<lparr>ck_pqc := p\<rparr>) c nonce = Ok \<lparr>ck_drill = ck_drill kb, ck_pqc = p\<rparr>"
  have "\<exists>p. ?ok (sc_message alice ! i) (sc_message bob1 ! i) (bt_msg_bob_params_txs reply ! i)
      (bt_encrypted_msg_drills reply ! i) (sc_nonce_message bob1) p" if "i < n" for i
  proof (rule layer_exchange [OF lib codec A(3) T(2) B(3) _ R(3,4)])
    show "same_opts (opts_a ! i) (opts_b ! i)" using same that by (simp add: n_def list_all2_conv_all_nth)
    show "length (bt_encrypted_msg_drills reply ! i) < 2 ^ 64" by (rule small) (use that R(2) B(2) in simp)
  qed (use that B(2) dims(4) in \<open>simp_all add: n_def\<close>)
  then obtain P where P: "\<And>i. i < n \<Longrightarrow> ?ok (sc_message alice ! i) (sc_message bob1 ! i)
      (bt_msg_bob_params_txs reply ! i) (bt_encrypted_msg_drills reply ! i) (sc_nonce_message alice) (P i)"
    unfolding B(6) T(5) by metis
  have "\<exists>p. ?ok (sc_scramble alice) (sc_scramble bob1) (bt_scramble_bob_params_tx reply)
      (bt_encrypted_scramble_drill reply) (sc_nonce_scramble bob1) p"
    by (rule layer_exchange [OF lib codec A(4) T(3) B(4) _ R(5,6)])
      (use small in \<open>auto simp: same_opts_def T(4)\<close>)
  then obtain S where S: "?ok (sc_scramble alice) (sc_scramble bob1) (bt_scramble_bob_params_tx reply)
      (bt_encrypted_scramble_drill reply) (sc_nonce_scramble alice) S"
    unfolding B(7) T(6) by blast
  define ks where "ks = map (\<lambda>i. \<lparr>ck_drill = ck_drill (sc_message bob1 ! i), ck_pqc = P i\<rparr>) [0..<n]"
  define k where "k = \<lparr>ck_drill = ck_drill (sc_scramble bob1), ck_pqc = S\<rparr>"
  have "sc_message bob1 ! 0 \<in> set (sc_message bob1)" using dims(5) B(2) by simp
  with B(5) obtain d d0 where d: "ck_drill (sc_scramble bob1) = Some d" "ck_drill (sc_message bob1 ! 0) = Some d0"
    "eb_version d = eb_version d0" "eb_cid d = eb_cid d0"
    by (metis insertCI)
  have "sr_stage1_alice lib de (B2A_Default reply) alice = Ok (alice\<lparr>sc_message := ks, sc_scramble := k\<rparr>)"
    by (rule stage1_alice_Ok [where ps = "map P [0..<n]" and p = S and d = d and ?d0.0 = d0])
      (use dims(4,5) B(2) R(1,2) P S d in \<open>auto simp: ks_def k_def\<close>)
  moreover have "ctor_agree (alice\<lparr>sc_message := ks, sc_scramble := k\<rparr>) bob1"
    using P S B(2) new_bob_chain [OF B(3)] new_bob_chain [OF B(4)]
    by (auto simp: ctor_agree_def ctor_keys_agree_def list_all2_conv_all_nth ks_def k_def)
  moreover have "ctor_ready w (alice\<lparr>sc_message := ks, sc_scramble := k\<rparr>)"
    using P S B(1,2) dims(5) by (auto simp: ctor_ready_def ready_def ks_def k_def)
  ultimately show ?thesis using B(1) by blast
qed

section \<open>The next exchange\<close>

text \<open>Ratchets that agree derive options that lead to the same keys.\<close>

lemma next_opts_agree:
  assumes "sound_hash lib" and "ratchet_agree a b"
  shows "\<exists>oa ob. get_next_constructor_opts lib a = Ok oa \<and> get_next_constructor_opts lib b = Ok ob \<and>
     list_all2 same_opts oa ob \<and> length oa = length (sr_message a)"
proof -
  let ?chain = "\<lambda>k. the (pq_chain (rk_pqc k))"
  let ?next = "\<lambda>x k. opts_new_from_previous (Some (pq_params (rk_pqc k)))
      \<lparr>rc_chain = x, rc_alice = rc_alice (?chain k), rc_bob = rc_bob (?chain k), rc_first = False\<rparr>"
  let ?meta = "\<lambda>r. lib_sha3_256 lib (concat (map (\<lambda>k. rc_chain (?chain k)) (sr_message r)))"
  have ok: "get_next_constructor_opts lib r = Ok (map (?next (?meta r)) (sr_message r))"
    if "\<And>k. k \<in> set (sr_message r) \<Longrightarrow> chain32 (pq_chain (rk_pqc k))" for r
  proof -
    have get: "unwrap (ok (get_chain (rk_pqc k))) = (Ok (?chain k) :: (_, unit) result)"
      and new: "recursive_chain_new (?meta r) (rc_alice (?chain k)) (rc_bob (?chain k)) False =
        Some \<lparr>rc_chain = ?meta r, rc_alice = rc_alice (?chain k), rc_bob = rc_bob (?chain k), rc_first = False\<rparr>"
      if "k \<in> set (sr_message r)" for k
      using \<open>\<And>k. k \<in> set (sr_message r) \<Longrightarrow> _\<close> [OF that] assms(1)
      by (auto simp: chain32_def get_chain_def recursive_chain_new_def sound_hash_def)
    show ?thesis
      unfolding get_next_constructor_opts_def
      by (simp add: rmap_Ok_map [where g = ?chain] get comp_def)
        (rule rmap_Ok_map, simp add: get new)
  qed
  have lists: "list_all2 keys_agree (sr_message a) (sr_message b)"
    using assms(2) by (simp add: ratchet_agree_def)
  have same: "pq_chain (rk_pqc x) = pq_chain (rk_pqc y) \<and> pq_params (rk_pqc x) = pq_params (rk_pqc y) \<and>
      chain32 (pq_chain (rk_pqc y))" if "keys_agree x y" for x y
    using that by (simp add: keys_agree_def pqc_agree_def)
  have meta: "map (\<lambda>k. rc_chain (?chain k)) (sr_message a) = map (\<lambda>k. rc_chain (?chain k)) (sr_message b)"
    using lists by (auto simp: list_all2_conv_all_nth same intro!: nth_equalityI)
  have chains: "chain32 (pq_chain (rk_pqc k))" if "k \<in> set (sr_message a) \<union> set (sr_message b)" for k
    using that lists same by (auto simp: list_all2_conv_all_nth in_set_conv_nth)
  have "list_all2 same_opts (map (?next (?meta a)) (sr_message a)) (map (?next (?meta b)) (sr_message b))"
    using lists unfolding meta
    by (auto simp: list_all2_map1 list_all2_map2 same_opts_def opts_new_from_previous_def opts_params_def same
        elim!: list_all2_mono)
  with ok [of a] ok [of b] chains show ?thesis by auto
qed

lemma with_version_ready: "ready v k \<Longrightarrow> with_version v k = k"
  by (auto simp: ready_def with_version_def)

lemma ctor_with_version_ready:
  "ctor_ready v self \<Longrightarrow> ctor_with_version v self = self\<lparr>sc_new_version := v\<rparr>"
  by (simp add: ctor_with_version_def ctor_ready_def with_version_ready map_idI)

lemma stacked_finish:
  assumes "ctor_agree alice' bob1" and "ctor_ready w alice'" and "ctor_ready w bob1"
  shows "\<exists>alice'' ra rb. sr_update_version w alice' = Ok alice'' \<and>
     sr_finish_with_custom_cid ca alice'' = Ok ra \<and> sr_finish_with_custom_cid cb bob1 = Ok rb \<and>
     ratchet_agree ra rb \<and> ratchet_id w ca ra \<and> ratchet_id w cb rb"
proof -
  let ?a = "alice'\<lparr>sc_new_version := w\<rparr>"
  have up: "sr_update_version w alice' = Ok ?a" "ctor_ready w ?a"
    using update_version_ready [OF assms(2), of w] ctor_with_version_ready [OF assms(2)] by simp_all
  have "ctor_agree ?a bob1" "sc_message ?a \<noteq> []"
    using assms(1,2) by (simp_all add: ctor_agree_def ctor_ready_def)
  then have "ratchet_agree (finished ca ?a) (finished cb bob1)" by (rule finished_agree)
  with up finish_ready [OF up(2)] finish_ready [OF assms(3)] finished_id [OF up(2)] finished_id [OF assms(3)]
  show ?thesis by blast
qed

section \<open>A concrete exchange\<close>

definition demo_bank_rnd :: bank_rnd where "demo_bank_rnd = (\<lambda>_. 0, \<lambda>xs. xs, \<lambda>xs. xs)"

definition demo_new_bank :: "u64 \<Rightarrow> u32 \<Rightarrow> entropy_bank" where
  "demo_new_bank cid v =
     \<lparr>eb_algorithm = AES_GCM_256_SIV, eb_version = v, eb_cid = cid, entropy = random_bytes (\<lambda>_. 0) BYTES_PER_STORE,
      scramble_mappings = create_port_mapping (\<lambda>xs. xs) (\<lambda>xs. xs)\<rparr>"

definition demo_ser :: "entropy_bank \<Rightarrow> entropy_bank \<Rightarrow> (bytes, string) result" where
  "demo_ser bank b = (if b = bank then Ok [1] else Err ''unknown bank'')"

definition demo_de :: "entropy_bank \<Rightarrow> bytes \<Rightarrow> (entropy_bank, string) result" where
  "demo_de bank c = (if c = [1] then Ok bank else Err ''unknown bytes'')"

lemma demo_bank_codec: "sound_bank_codec (demo_ser bank) (demo_de bank)"
  by (simp add: sound_bank_codec_def demo_ser_def demo_de_def)

definition aes_opts :: "constructor_opts \<Rightarrow> bool" where
  "aes_opts opts \<longleftrightarrow> opts_params opts = default_crypto_parameters"

lemma demo_new_alice:
  assumes "aes_opts opts"
  shows "\<exists>a k. pqc_new_alice demo_lib r opts = Ok a \<and> pq_data a = PureSymmetricEncryption k"
  using assms
  by (simp add: aes_opts_def pqc_new_alice_def validate_crypto_params_def default_crypto_parameters_def
      meta_new_alice_def demo_lib_def)

lemma demo_new_bob:
  assumes "aes_opts opts"
  shows "\<exists>b k key. pqc_new_bob demo_lib r opts (A2B_PureSymmetric pk kem) = Ok b \<and>
     pq_data b = PureSymmetricEncryption k \<and> kx_ciphertext k \<noteq> None \<and>
     get_encryption_key b = Some (aes_module demo_lib key)"
proof -
  obtain k where k: "meta_new_bob demo_lib r (A2B_PureSymmetric pk kem) = Ok (PureSymmetricEncryption k)"
    "kx_ciphertext k \<noteq> None" "\<exists>ss. kx_shared_secret k = Some ss"
    by (simp add: meta_new_bob_def demo_lib_def)
  then obtain ss where ss: "kx_shared_secret k = Some ss" by blast
  let ?c = "derived_chain demo_lib ss (co_chain opts)" and ?p = default_crypto_parameters
  have "keys_to_aead_store demo_lib (rc_alice ?c) (rc_bob ?c) k ?p None Bob =
      Ok (Some (aes_module demo_lib (rc_alice ?c)), Some (aes_module demo_lib (rc_bob ?c)))"
    by (simp add: keys_to_aead_store_def default_crypto_parameters_def)
  then obtain ks where ks: "generate_recursive_keystore demo_lib Bob ?p None ss (co_chain opts) k = Ok (?c, ks)"
    "bob_module ks = Some (aes_module demo_lib (rc_bob ?c))"
    by (auto simp: generate_recursive_keystore_Ok [OF demo_lib_sound(2)])
  have "validate_crypto_params ?p = Ok ()" "opts_params opts = ?p"
    using assms by (simp_all add: validate_crypto_params_def default_crypto_parameters_def aes_opts_def)
  with k(1,2) ss ks show ?thesis
    by (auto simp: pqc_new_bob_def get_shared_secret_def get_encryption_key_def)
qed

definition pure_keys :: "ctor_keys \<Rightarrow> bool" where
  "pure_keys k \<longleftrightarrow> (\<exists>x. pq_data (ck_pqc k) = PureSymmetricEncryption x)"

definition sealing_keys :: "entropy_bank \<Rightarrow> ctor_keys \<Rightarrow> bool" where
  "sealing_keys bank k \<longleftrightarrow>
     ck_drill k = Some bank \<and> (\<exists>x. pq_data (ck_pqc k) = PureSymmetricEncryption x \<and> kx_ciphertext x \<noteq> None) \<and>
     (\<exists>key. get_encryption_key (ck_pqc k) = Some (aes_module demo_lib key))"

lemma demo_transfers:
  "pure_keys k \<Longrightarrow> \<exists>pk kem. generate_alice_to_bob_transfer demo_lib r (ck_pqc k) = Ok (A2B_PureSymmetric pk kem)"
  "sealing_keys bank k \<Longrightarrow> \<exists>tx. generate_bob_to_alice_transfer demo_lib r (ck_pqc k) = Ok tx"
  "sealing_keys bank k \<Longrightarrow> length nonce = 12 \<Longrightarrow> seal_drill (demo_ser bank) r k nonce = Ok (1 # replicate 16 0)"
  by (auto simp: pure_keys_def sealing_keys_def generate_alice_to_bob_transfer_def generate_bob_to_alice_transfer_def
      meta_generate_bob_to_alice_def get_ciphertext_def seal_drill_def bank_serialize_to_vec_def demo_ser_def
      pqc_encrypt_def aead_encrypt_def aes_module_def demo_lib_def nonce_len_defs)

lemma demo_bob_keys:
  assumes "aes_opts opts" and "tx = A2B_PureSymmetric pk kem"
  shows "\<exists>k. new_bob_keys demo_lib r demo_bank_rnd cid v AES_GCM_256_SIV tx opts = Ok k \<and>
     sealing_keys (demo_new_bank cid v) k"
  using demo_new_bob [OF assms(1), of r pk kem] assms(2)
  by (auto simp: new_bob_keys_def demo_bank_rnd_def entropy_bank_new_def demo_new_bank_def sealing_keys_def)

lemma demo_alice:
  assumes "opts \<noteq> []" and "list_all aes_opts opts"
  shows "\<exists>alice. sr_new_alice demo_lib rs opts cid v level = Ok alice"
proof -
  let ?f = "\<lambda>(i, opt). rbind (pqc_new_alice demo_lib (rs i) opt) (\<lambda>p. Ok \<lparr>ck_drill = None, ck_pqc = p\<rparr>)"
  have "\<exists>y. ?f (i, opts ! i) = Ok y \<and> True" if "i < length opts" for i
    using demo_new_alice [of "opts ! i" "rs i"] that assms(2) by (auto simp: list_all_length)
  from filter_map_ok_enumerate_total [of opts ?f "\<lambda>_. True", OF this] obtain keys where
    "filter_map_ok ?f (enumerate 0 opts) = (Ok keys :: (_, unit) result)" "length keys = length opts"
    by blast
  moreover have "aes_opts (opts_new_init (Some (opts_params (hd opts))))"
    using assms by (cases opts) (simp_all add: aes_opts_def)
  from demo_new_alice [OF this] obtain p where
    "pqc_new_alice demo_lib (rs (length opts)) (opts_new_init (Some (opts_params (hd opts)))) = Ok p" by blast
  ultimately show ?thesis using assms(1) by (auto simp: sr_new_alice_def Let_def)
qed

lemma demo_alice_pure:
  assumes "sr_new_alice demo_lib rs opts cid v level = Ok alice" and "list_all aes_opts opts"
  shows "list_all pure_keys (sc_message alice)" and "pure_keys (sc_scramble alice)"
    and "sc_params alice = default_crypto_parameters"
    and "length (sc_nonce_message alice) = 12" "length (sc_nonce_scramble alice) = 12"
proof -
  note A = new_alice_facts [OF assms(1)]
  have pure: "pure_keys \<lparr>ck_drill = None, ck_pqc = p\<rparr>" if "pqc_new_alice demo_lib r opt = Ok p" "aes_opts opt" for r opt p
    using demo_new_alice [OF that(2), of r] that(1) by (auto simp: pure_keys_def)
  show params: "sc_params alice = default_crypto_parameters"
    using A(2,6) assms(2) by (cases opts) (simp_all add: aes_opts_def)
  show "list_all pure_keys (sc_message alice)"
    using A(1,3) pure assms(2) by (metis list_all_length)
  have "aes_opts (opts_new_init (Some (sc_params alice)))" by (simp add: aes_opts_def params)
  with A(4) pure show "pure_keys (sc_scramble alice)" by metis
  show "length (sc_nonce_message alice) = 12" "length (sc_nonce_scramble alice) = 12"
    using assms(1) params
    by (auto simp: sr_new_alice_def Let_def generate_public_nonce_def default_crypto_parameters_def
        nonce_len_defs split: if_splits)
qed

definition pure_tx :: "alice_to_bob_params \<Rightarrow> bool" where
  "pure_tx t \<longleftrightarrow> (\<exists>pk kem. t = A2B_PureSymmetric pk kem)"

lemma demo_stage0_alice:
  assumes "list_all pure_keys (sc_message alice)" and "pure_keys (sc_scramble alice)"
  shows "\<exists>tx. sr_stage0_alice demo_lib rs alice = Ok tx \<and>
     list_all pure_tx (at_params_txs tx) \<and> pure_tx (at_scramble_alice_params tx)"
proof -
  let ?f = "\<lambda>(i, inner). generate_alice_to_bob_transfer demo_lib (rs i) (ck_pqc inner)"
  have tx: "\<exists>t. generate_alice_to_bob_transfer demo_lib r (ck_pqc k) = Ok t \<and> pure_tx t" if "pure_keys k" for k r
    using demo_transfers(1) [OF that, of r] by (auto simp: pure_tx_def)
  then have "\<exists>y. ?f (i, sc_message alice ! i) = Ok y \<and> pure_tx y" if "i < length (sc_message alice)" for i
    using that assms(1) by (simp add: list_all_length)
  from filter_map_ok_enumerate_total [of "sc_message alice" ?f pure_tx, OF this] obtain pks where
    "filter_map_ok ?f (enumerate 0 (sc_message alice)) = (Ok pks :: (_, unit) result)"
    "length pks = length (sc_message alice)" "list_all pure_tx pks" by blast
  moreover from tx [OF assms(2)] obtain t where "pure_tx t"
    "generate_alice_to_bob_transfer demo_lib (rs (length pks)) (ck_pqc (sc_scramble alice)) = Ok t" by blast
  ultimately show ?thesis by (simp add: sr_stage0_alice_def)
qed

lemma demo_bob:
  assumes "list_all pure_tx (at_params_txs tx)" and "pure_tx (at_scramble_alice_params tx)"
    and "list_all aes_opts opts" and "at_params tx = default_crypto_parameters"
    and "length (at_params_txs tx) = length opts"
    and "length opts = Suc (unat (level_value (at_security_level tx)))"
  shows "\<exists>bob. sr_new_bob demo_lib rs (\<lambda>_. demo_bank_rnd) cid v opts tx = Ok bob \<and>
     list_all (sealing_keys (demo_new_bank cid v)) (sc_message bob) \<and>
     sealing_keys (demo_new_bank cid v) (sc_scramble bob)"
proof -
  let ?z = "zip (at_params_txs tx) opts" and ?P = "sealing_keys (demo_new_bank cid v)"
  let ?f = "\<lambda>(i, params_tx, opt). new_bob_keys demo_lib (rs i) demo_bank_rnd cid v AES_GCM_256_SIV params_tx opt"
  have key: "\<exists>k. new_bob_keys demo_lib r demo_bank_rnd cid v AES_GCM_256_SIV t opt = Ok k \<and> ?P k"
    if "pure_tx t" "aes_opts opt" for r t opt
    using that demo_bob_keys [of opt t _ _ r cid v] by (auto simp: pure_tx_def)
  then have "\<exists>y. ?f (i, ?z ! i) = Ok y \<and> ?P y" if "i < length ?z" for i
    using that assms(1,3) by (simp add: list_all_length)
  from filter_map_ok_enumerate_total [of ?z ?f ?P, OF this] assms(5) obtain keys where
    "filter_map_ok ?f (enumerate 0 ?z) = (Ok keys :: (_, unit) result)" "length keys = length opts"
    "list_all ?P keys" by auto
  moreover from key [OF assms(2), of "opts_new_init (Some default_crypto_parameters)"] obtain k where
    "new_bob_keys demo_lib (rs (length opts)) demo_bank_rnd cid v AES_GCM_256_SIV (at_scramble_alice_params tx)
       (opts_new_init (Some default_crypto_parameters)) = Ok k" "?P k"
    by (auto simp: aes_opts_def)
  moreover have "encryption_algorithm default_crypto_parameters = AES_GCM_256_SIV"
    by (simp add: default_crypto_parameters_def)
  ultimately show ?thesis using assms(4,6) by (simp add: sr_new_bob_def Let_def)
qed

lemma demo_stage0_bob:
  assumes "list_all (sealing_keys bank) (sc_message bob)" and "sealing_keys bank (sc_scramble bob)"
    and "length (sc_nonce_message bob) = 12" and "length (sc_nonce_scramble bob) = 12"
  shows "\<exists>reply. sr_stage0_bob demo_lib (demo_ser bank) rs res bob = Ok reply \<and>
     (\<forall>c \<in> insert (bt_encrypted_scramble_drill reply) (set (bt_encrypted_msg_drills reply)). length c = 17)"
proof -
  let ?f = "\<lambda>(i, inner). generate_bob_to_alice_transfer demo_lib (rs i) (ck_pqc inner)"
  let ?g = "\<lambda>(i, inner). seal_drill (demo_ser bank) (res i) inner (sc_nonce_message bob)"
  have "\<exists>y. ?f (i, sc_message bob ! i) = Ok y \<and> True" "\<exists>y. ?g (i, sc_message bob ! i) = Ok y \<and> length y = 17"
    if "i < length (sc_message bob)" for i
    using that assms(1,3) demo_transfers(2,3) [of bank "sc_message bob ! i"] by (auto simp: list_all_length)
  from filter_map_ok_enumerate_total [of "sc_message bob" ?f "\<lambda>_. True", OF this(1)]
    filter_map_ok_enumerate_total [of "sc_message bob" ?g "\<lambda>y. length y = 17", OF this(2)] obtain cts ds where
    "filter_map_ok ?f (enumerate 0 (sc_message bob)) = (Ok cts :: (_, unit) result)"
    "length cts = length (sc_message bob)"
    "filter_map_ok ?g (enumerate 0 (sc_message bob)) = (Ok ds :: (_, unit) result)"
    "length ds = length (sc_message bob)" "list_all (\<lambda>y. length y = 17) ds" by blast
  moreover from demo_transfers(2) [OF assms(2)] obtain tx where
    "generate_bob_to_alice_transfer demo_lib (rs (length (sc_message bob))) (ck_pqc (sc_scramble bob)) = Ok tx" by blast
  ultimately show ?thesis
    using demo_transfers(3) [OF assms(2,4)] by (simp add: sr_stage0_bob_def Let_def list_all_iff)
qed

lemma demo_with_version:
  "sealing_keys (demo_new_bank c v) k \<Longrightarrow> sealing_keys (demo_new_bank c w) (with_version w k)"
  by (simp add: sealing_keys_def with_version_def demo_new_bank_def)

text \<open>With the concrete primitives every exchange with matching numbers of layers goes through.\<close>

lemma demo_stacked_run:
  assumes opts: "list_all aes_opts opts_a" "list_all aes_opts opts_b" "length opts_b = length opts_a"
    and layers: "length opts_a = Suc (unat (level_value (level_or_standard level)))"
  shows "\<exists>alice tx bob bob1 reply. sr_new_alice demo_lib ra opts_a cid_a v level = Ok alice \<and>
     sr_stage0_alice demo_lib r1 alice = Ok tx \<and> at_new_version tx = v \<and>
     sr_new_bob demo_lib rb (\<lambda>_. demo_bank_rnd) cid_b v_b opts_b tx = Ok bob \<and> sr_update_version w bob = Ok bob1 \<and>
     sr_stage0_bob demo_lib (demo_ser (demo_new_bank cid_b w)) r2 r3 bob1 = Ok reply \<and>
     (\<forall>c \<in> insert (bt_encrypted_scramble_drill reply) (set (bt_encrypted_msg_drills reply)). length c = 17)"
proof -
  have "opts_a \<noteq> []" using layers by auto
  from demo_alice [OF this opts(1)] obtain alice where
    alice: "sr_new_alice demo_lib ra opts_a cid_a v level = Ok alice" by blast
  note pure = demo_alice_pure [OF alice opts(1)] and A = new_alice_facts [OF alice]
  from demo_stage0_alice [OF pure(1,2), of r1] obtain tx where
    tx: "sr_stage0_alice demo_lib r1 alice = Ok tx" "list_all pure_tx (at_params_txs tx)"
    "pure_tx (at_scramble_alice_params tx)" by blast
  note T = stage0_alice_facts [OF tx(1)]
  have dims: "length (at_params_txs tx) = length opts_b"
    "length opts_b = Suc (unat (level_value (at_security_level tx)))"
    using T(1,7) A(1,5) opts(3) layers by simp_all
  have "at_params tx = default_crypto_parameters" using T(4) pure(3) by simp
  from demo_bob [OF tx(2,3) opts(2) this dims, of rb cid_b v_b] obtain bob where
    bob: "sr_new_bob demo_lib rb (\<lambda>_. demo_bank_rnd) cid_b v_b opts_b tx = Ok bob"
    "list_all (sealing_keys (demo_new_bank cid_b v_b)) (sc_message bob)"
    "sealing_keys (demo_new_bank cid_b v_b) (sc_scramble bob)" by blast
  let ?bob1 = "ctor_with_version w bob"
  have up: "sr_update_version w bob = Ok ?bob1"
    by (rule update_version_ready [OF new_bob_ready [OF bob(1) dims(1) refl dims(2)]])
  have "list_all (sealing_keys (demo_new_bank cid_b w)) (sc_message ?bob1)"
    "sealing_keys (demo_new_bank cid_b w) (sc_scramble ?bob1)"
    using bob(2,3) demo_with_version by (auto simp: ctor_with_version_def list_all_iff)
  moreover have "length (sc_nonce_message ?bob1) = 12" "length (sc_nonce_scramble ?bob1) = 12"
    using new_bob_facts(4,5) [OF bob(1) dims(1) refl dims(2)] T(5,6) pure(4,5) by (simp_all add: ctor_with_version_def)
  ultimately obtain reply where "sr_stage0_bob demo_lib (demo_ser (demo_new_bank cid_b w)) r2 r3 ?bob1 = Ok reply"
    "\<forall>c \<in> insert (bt_encrypted_scramble_drill reply) (set (bt_encrypted_msg_drills reply)). length c = 17"
    using demo_stage0_bob by blast
  with alice tx(1) bob(1) up T(8) A(8) show ?thesis by auto
qed

section \<open>Properties\<close>

text \<open>
  C27: The key exchange of stacked ratchets agrees, and can be repeated. Alice starts with one option per
  layer of the security level, Bob answers with options that lead to the same keys, sets the version \<open>w\<close>
  and sends his reply. Then Alice's last step succeeds, both constructors finish, under whatever owner
  each end wants, all banks have version \<open>w\<close>, the ratchets agree layer by layer, and both ends derive
  matching options for the next exchange.
\<close>

theorem stacked_handshake_agrees:
  assumes "sound_lib lib" and "sound_bank_codec ser de"
    and "sr_new_alice lib ra opts_a cid_a v level = Ok alice"
    and "length opts_a = Suc (unat (level_value (level_or_standard level)))"
    and "sr_stage0_alice lib r1 alice = Ok tx"
    and "sr_new_bob lib rb brs cid_b v_b opts_b tx = Ok bob"
    and "list_all2 same_opts opts_a opts_b"
    and "sr_update_version w bob = Ok bob1"
    and "sr_stage0_bob lib ser r2 r3 bob1 = Ok reply"
    and "\<And>c. c \<in> insert (bt_encrypted_scramble_drill reply) (set (bt_encrypted_msg_drills reply)) \<Longrightarrow>
        length c < 2 ^ 64"
  shows "\<exists>alice' alice'' hr_a hr_b oa ob. sr_stage1_alice lib de (B2A_Default reply) alice = Ok alice' \<and>
     sr_update_version w alice' = Ok alice'' \<and> sr_finish_with_custom_cid ca alice'' = Ok hr_a \<and>
     sr_finish_with_custom_cid cb bob1 = Ok hr_b \<and>
     ratchet_agree hr_a hr_b \<and> ratchet_id w ca hr_a \<and> ratchet_id w cb hr_b \<and>
     get_next_constructor_opts lib hr_a = Ok oa \<and> get_next_constructor_opts lib hr_b = Ok ob \<and>
     list_all2 same_opts oa ob"
proof -
  from stacked_exchange [OF assms] obtain alice' where a: "sr_stage1_alice lib de (B2A_Default reply) alice = Ok alice'"
    "ctor_agree alice' bob1" "ctor_ready w alice'" "ctor_ready w bob1" by blast
  from stacked_finish [OF a(2-4), of ca cb] obtain alice'' hr_a hr_b where
    f: "sr_update_version w alice' = Ok alice''" "sr_finish_with_custom_cid ca alice'' = Ok hr_a"
     "sr_finish_with_custom_cid cb bob1 = Ok hr_b" "ratchet_agree hr_a hr_b"
     "ratchet_id w ca hr_a" "ratchet_id w cb hr_b" by blast
  from assms(1) have "sound_hash lib" by (simp add: sound_lib_def)
  from next_opts_agree [OF this f(4)] a(1) f show ?thesis by blast
qed

theorem stacked_handshake_agrees_witness:
  "\<exists>hr_a hr_b. ratchet_agree hr_a hr_b \<and> ratchet_id 1 7 hr_a \<and> ratchet_id 1 7 hr_b"
proof -
  let ?opts = "[opts_new_init None, opts_new_init None]" and ?bank = "demo_new_bank 7 1"
  have aes: "list_all aes_opts ?opts" and same: "list_all2 same_opts ?opts ?opts"
    and n: "length ?opts = Suc (unat (level_value (level_or_standard (Some Reinforced))))"
    by (simp_all add: aes_opts_def opts_params_def opts_new_init_def same_opts_def level_or_standard_def)
  from demo_stacked_run [OF aes aes refl n, of "\<lambda>_ _. 0" 7 1 "\<lambda>_ _. 0" "\<lambda>_ _. 0" 7 1 1 "\<lambda>_ _. 0" "\<lambda>_ _. 0"]
  obtain alice tx bob bob1 reply where
    run: "sr_new_alice demo_lib (\<lambda>_ _. 0) ?opts 7 1 (Some Reinforced) = Ok alice"
     "sr_stage0_alice demo_lib (\<lambda>_ _. 0) alice = Ok tx"
     "sr_new_bob demo_lib (\<lambda>_ _. 0) (\<lambda>_. demo_bank_rnd) 7 1 ?opts tx = Ok bob" "sr_update_version 1 bob = Ok bob1"
     "sr_stage0_bob demo_lib (demo_ser ?bank) (\<lambda>_ _. 0) (\<lambda>_ _. 0) bob1 = Ok reply"
    and small: "\<forall>c \<in> insert (bt_encrypted_scramble_drill reply) (set (bt_encrypted_msg_drills reply)). length c = 17"
    by (elim exE conjE) (rule that)
  have "length c < 2 ^ 64" if "c \<in> insert (bt_encrypted_scramble_drill reply) (set (bt_encrypted_msg_drills reply))" for c
    using small that by auto
  from stacked_handshake_agrees [OF demo_sound_lib demo_bank_codec run(1) n run(2,3) same run(4,5) this, of 7 7]
  show ?thesis by blast
qed

end
