(* ===== verification/Stacked_Channel.thy ===== *)
theory Stacked_Channel
  imports Ratchet_Handshake
begin

text \<open>
  The packet channel of stacked ratchets. Every layer of the security level of a packet numbers and
  seals it, so a packet carries one packet identifier per layer. The receiver is shown to run one
  anti-replay history per layer, outermost layer first, and from the histories the delivery guarantees
  follow for packets of any mix of security levels, in any order of arrival.
\<close>

section \<open>Sending and receiving\<close>

type_synonym stacked_message = "(nat \<Rightarrow> rnd) \<times> security_level option \<times> bytes \<times> bytes"
type_synonym stacked_packet = "security_level option \<times> bytes \<times> bytes"

fun sm_level :: "stacked_message \<Rightarrow> nat" where
  "sm_level (rs, level, header, payload) = unat (level_value (level_or_standard level))"

fun sm_header :: "stacked_message \<Rightarrow> bytes" where "sm_header (rs, level, header, payload) = header"

fun sm_payload :: "stacked_message \<Rightarrow> bytes" where "sm_payload (rs, level, header, payload) = payload"

fun stacked_protect :: "stacked_ratchet \<Rightarrow> stacked_message \<Rightarrow> (bytes, crypt_error) result \<times> stacked_ratchet" where
  "stacked_protect self (rs, level, header, payload) =
     protect_message_packet rs self level (length header) (header @ payload)"

fun stacked_validate :: "stacked_ratchet \<Rightarrow> stacked_packet \<Rightarrow> (bytes, crypt_error) result \<times> stacked_ratchet" where
  "stacked_validate self (level, header, sealed) = validate_message_packet self level header sealed"

fun stacked_wire :: "stacked_message \<Rightarrow> bytes \<Rightarrow> stacked_packet" where
  "stacked_wire (rs, level, header, payload) packet = (level, header, drop (length header) packet)"

definition stacked_replayed :: "(bytes, crypt_error) result" where
  "stacked_replayed = crypt_err replayed"

lemma verify_level_Ok:
  "verify_level self level = Ok i \<longleftrightarrow>
     i = unat (level_value (level_or_standard level)) \<and> i < length (sr_message self)"
  by (auto simp: verify_level_def level_or_standard_def Let_def)

section \<open>What a sealed packet contains\<close>

text \<open>The layers of the receiver peel a packet, outermost first; each finds its packet identifier.\<close>

fun opens_to :: "ratchet_keys list \<Rightarrow> bytes \<Rightarrow> u64 list \<Rightarrow> bytes \<Rightarrow> bytes \<Rightarrow> bool" where
  "opens_to [] header [] sealed payload \<longleftrightarrow> sealed = payload"
| "opens_to (k # ks) header (p # ps) sealed payload \<longleftrightarrow>
     (\<exists>d plain. get_decryption_key (rk_pqc k) = Some d \<and>
        decrypt_in_place d InPlaceBuffer (get_nonce (rk_drill k) 0) header sealed = Ok (plain @ u64_to_be p) \<and>
        opens_to ks header ps plain payload)"
| "opens_to ks header ps sealed payload \<longleftrightarrow> False"

lemma opens_to_append:
  "opens_to ks header ps sealed mid \<Longrightarrow> opens_to ls header qs mid payload \<Longrightarrow>
   opens_to (ks @ ls) header (ps @ qs) sealed payload"
  by (induction ks header ps sealed mid rule: opens_to.induct) auto

definition pqc_grows :: "pqc \<Rightarrow> bool" where
  "pqc_grows p \<longleftrightarrow> (\<forall>e r nonce ad x c. get_encryption_key p = Some e \<longrightarrow>
     encrypt_in_place e r nonce ad x = Ok c \<longrightarrow> length x \<le> length c)"

definition layer_opens :: "ratchet_keys \<Rightarrow> ratchet_keys \<Rightarrow> bool" where
  "layer_opens a b \<longleftrightarrow>
     pqc_opens (rk_pqc a) (rk_pqc b) \<and> pqc_grows (rk_pqc a) \<and>
     get_nonce (rk_drill a) 0 = get_nonce (rk_drill b) 0"

definition with_ara :: "anti_replay \<Rightarrow> ratchet_keys \<Rightarrow> ratchet_keys" where
  "with_ara a k = k\<lparr>rk_pqc := (rk_pqc k)\<lparr>pq_ara := a\<rparr>\<rparr>"

lemma with_ara_frame [simp]:
  "get_encryption_key (rk_pqc (with_ara a k)) = get_encryption_key (rk_pqc k)"
  "get_decryption_key (rk_pqc (with_ara a k)) = get_decryption_key (rk_pqc k)"
  "rk_drill (with_ara a k) = rk_drill k" "pq_ara (rk_pqc (with_ara a k)) = a"
  "with_ara a (with_ara b k) = with_ara a k"
  by (simp_all add: with_ara_def)

definition layer_ara :: "ratchet_keys \<Rightarrow> anti_replay" where
  "layer_ara k = pq_ara (rk_pqc k)"

lemma protect_layer_Ok:
  assumes "layer_opens k r" and "protect_packet rnd (rk_drill k) (rk_pqc k) (length header) (header @ payload) = (Ok out, p)"
  shows "\<exists>sealed. out = header @ sealed \<and> length payload \<le> length sealed \<and>
     p = (rk_pqc k)\<lparr>pq_ara := snd (get_next_pid (layer_ara k))\<rparr> \<and>
     (length out < 2 ^ 64 \<longrightarrow> opens_to [r] header [fst (get_next_pid (layer_ara k))] sealed payload)"
proof -
  let ?pid = "fst (get_next_pid (layer_ara k))" and ?n = "get_nonce (rk_drill k) 0"
  from assms(1) obtain e d where e: "get_encryption_key (rk_pqc k) = Some e"
    and d: "get_decryption_key (rk_pqc r) = Some d" and pair: "aead_pair e d"
    and n: "?n = get_nonce (rk_drill r) 0"
    and grow: "\<And>rnd nonce ad x c. encrypt_in_place e rnd nonce ad x = Ok c \<Longrightarrow> length x \<le> length c"
    by (auto simp: layer_opens_def pqc_opens_def pqc_grows_def)
  from assms(2) obtain sealed where s: "out = header @ sealed"
    "encrypt_in_place e rnd ?n header (payload @ u64_to_be ?pid) = Ok sealed"
    and p: "p = (rk_pqc k)\<lparr>pq_ara := snd (get_next_pid (layer_ara k))\<rparr>"
    by (auto simp: protect_packet_def protect_packet_in_place_def e Let_def case_prod_beta layer_ara_def)
  have "length sealed < 2 ^ 64 \<longrightarrow>
      decrypt_in_place d InPlaceBuffer (get_nonce (rk_drill r) 0) header sealed = Ok (payload @ u64_to_be ?pid)"
    using pair s(2) n by (auto simp: aead_pair_def)
  with s(1) grow [OF s(2)] p d show ?thesis by auto
qed

lemma protect_layers_Ok:
  assumes "list_all2 layer_opens ks rs"
    and "protect_layers rnd (length header) ks (header @ payload) = (Ok out, ks')" and "length out < 2 ^ 64"
  shows "\<exists>sealed. out = header @ sealed \<and> length payload \<le> length sealed \<and>
     ks' = map (\<lambda>k. with_ara (snd (get_next_pid (layer_ara k))) k) ks \<and>
     opens_to (rev rs) header (rev (map (\<lambda>k. fst (get_next_pid (layer_ara k))) ks)) sealed payload"
  using assms
proof (induction ks arbitrary: rs rnd payload ks')
  case (Cons k ks)
  from Cons.prems(1) obtain r rs' where rs: "rs = r # rs'" "layer_opens k r" "list_all2 layer_opens ks rs'"
    by (auto simp: list_all2_Cons1)
  from Cons.prems(2) obtain mid p ks1 where mid:
    "protect_packet (rnd 0) (rk_drill k) (rk_pqc k) (length header) (header @ payload) = (Ok mid, p)"
    "protect_layers (\<lambda>i. rnd (Suc i)) (length header) ks mid = (Ok out, ks1)" "ks' = k\<lparr>rk_pqc := p\<rparr> # ks1"
    by (auto simp: Let_def split: prod.splits result.splits)
  from protect_layer_Ok [OF rs(2) mid(1)] obtain sealed where s: "mid = header @ sealed"
    "length payload \<le> length sealed" "p = (rk_pqc k)\<lparr>pq_ara := snd (get_next_pid (layer_ara k))\<rparr>"
    "length mid < 2 ^ 64 \<longrightarrow> opens_to [r] header [fst (get_next_pid (layer_ara k))] sealed payload" by blast
  from Cons.IH [OF rs(3) mid(2) [unfolded s(1)] Cons.prems(3)] obtain sealed' where s': "out = header @ sealed'"
    "length sealed \<le> length sealed'" "ks1 = map (\<lambda>k. with_ara (snd (get_next_pid (layer_ara k))) k) ks"
    "opens_to (rev rs') header (rev (map (\<lambda>k. fst (get_next_pid (layer_ara k))) ks)) sealed' sealed" by blast
  have "length mid < 2 ^ 64" using s(1) s'(1,2) Cons.prems(3) by simp
  with s(4) have "opens_to [r] header [fst (get_next_pid (layer_ara k))] sealed payload" by blast
  from opens_to_append [OF s'(4) this] show ?case
    using s s' mid(3) by (auto simp: rs(1) with_ara_def)
qed auto

section \<open>The receiver keeps one history per layer\<close>

text \<open>Packet identifiers arriving at a list of layers, the outermost first; a refusal stops the walk.\<close>

fun arrive_layers :: "u64 list list \<Rightarrow> u64 list \<Rightarrow> bool \<times> u64 list list" where
  "arrive_layers (h # hs) (p # ps) =
     (if fst (on_pid_received (after_arrivals h) p)
      then let (fresh, hs') = arrive_layers hs ps in (fresh, (h @ [p]) # hs')
      else (False, (h @ [p]) # hs))"
| "arrive_layers hs ps = (True, hs)"

lemma validate_layers_arrive:
  assumes "opens_to ks header ps sealed payload" and "length hs = length ks"
  shows "validate_layers header (map2 (\<lambda>k h. with_ara (after_arrivals h) k) ks hs) sealed =
     (if fst (arrive_layers hs ps) then Ok payload else stacked_replayed,
      map2 (\<lambda>k h. with_ara (after_arrivals h) k) ks (snd (arrive_layers hs ps)))"
  using assms
proof (induction ks header ps sealed payload arbitrary: hs rule: opens_to.induct)
  case (2 k ks header p ps sealed payload)
  from 2(3) obtain h hs' where hs: "hs = h # hs'" "length hs' = length ks" by (cases hs) auto
  from 2(2) obtain d plain where d: "get_decryption_key (rk_pqc k) = Some d"
    "decrypt_in_place d InPlaceBuffer (get_nonce (rk_drill k) 0) header sealed = Ok (plain @ u64_to_be p)"
    "opens_to ks header ps plain payload" by auto
  have v: "validate_packet_in_place_split (rk_drill k) (rk_pqc (with_ara (after_arrivals h) k)) header sealed =
      (if fst (on_pid_received (after_arrivals h) p) then Ok plain else stacked_replayed,
       rk_pqc (with_ara (after_arrivals (h @ [p])) k))"
    using d(1,2)
    by (simp add: validate_packet_in_place_split_def validate_packet_in_place_def with_ara_def Let_def
        case_prod_beta arrivals_snoc stacked_replayed_def replayed_def be64.dec_enc)
  have k: "with_ara (after_arrivals h) k\<lparr>rk_pqc := rk_pqc (with_ara (after_arrivals (h @ [p])) k)\<rparr> =
      with_ara (after_arrivals (h @ [p])) k"
    by (simp add: with_ara_def)
  from 2(1) [OF d(3) hs(2)] v k show ?case
    by (simp add: hs(1) Let_def case_prod_beta stacked_replayed_def replayed_def crypt_err_def)
qed auto


definition with_histories :: "stacked_ratchet \<Rightarrow> u64 list list \<Rightarrow> stacked_ratchet" where
  "with_histories b hs = b\<lparr>sr_message := map2 (\<lambda>k h. with_ara (after_arrivals h) k) (sr_message b) hs\<rparr>"

fun hist_step :: "u64 list list \<Rightarrow> nat \<times> u64 list \<Rightarrow> bool \<times> u64 list list" where
  "hist_step hs (i, ps) =
     (let (fresh, hs') = arrive_layers (rev (take (Suc i) hs)) ps in (fresh, rev hs' @ drop (Suc i) hs))"

lemma length_arrive_layers [simp]: "length (snd (arrive_layers hs ps)) = length hs"
  by (induction hs ps rule: arrive_layers.induct) (auto simp: Let_def case_prod_beta)

lemma length_hist_step [simp]: "length (snd (hist_step hs e)) = length hs"
  by (cases e) (simp add: Let_def case_prod_beta)

definition opens_packet :: "stacked_ratchet \<Rightarrow> stacked_message \<Rightarrow> bytes \<Rightarrow> u64 list \<Rightarrow> bool" where
  "opens_packet b m packet ps \<longleftrightarrow>
     sm_level m < length (sr_message b) \<and>
     opens_to (rev (take (Suc (sm_level m)) (sr_message b))) (sm_header m) ps
       (drop (length (sm_header m)) packet) (sm_payload m)"

lemma map2_append:
  "length xs = length us \<Longrightarrow> map2 f (xs @ ys) (us @ vs) = map2 f xs us @ map2 f ys vs"
  by simp

lemma stacked_validate_hist:
  assumes "opens_packet b m packet ps" and "length hs = length (sr_message b)"
  shows "stacked_validate (with_histories b hs) (stacked_wire m packet) =
     (if fst (hist_step hs (sm_level m, ps)) then Ok (sm_payload m) else stacked_replayed,
      with_histories b (snd (hist_step hs (sm_level m, ps))))"
proof -
  obtain rs level header payload where m: "m = (rs, level, header, payload)" by (cases m)
  let ?i = "sm_level m" and ?f = "\<lambda>k h. with_ara (after_arrivals h) k" and ?ks = "sr_message b"
  have i: "?i < length ?ks" and open_it: "opens_to (rev (take (Suc ?i) ?ks)) header ps (drop (length header) packet) payload"
    using assms(1) by (simp_all add: opens_packet_def m)
  have lvl: "verify_level (with_histories b hs) level = Ok ?i"
    using i assms(2) by (simp add: verify_level_Ok m with_histories_def)
  have cut: "rev (take (Suc ?i) (map2 ?f ?ks hs)) = map2 ?f (rev (take (Suc ?i) ?ks)) (rev (take (Suc ?i) hs))"
    using assms(2) by (simp add: take_map take_zip rev_map zip_rev)
  obtain fresh hs' where a: "arrive_layers (rev (take (Suc ?i) hs)) ps = (fresh, hs')" by fastforce
  have len: "length hs' = Suc ?i" using length_arrive_layers [of "rev (take (Suc ?i) hs)" ps] a i assms(2) by simp
  have v: "validate_layers header (rev (take (Suc ?i) (map2 ?f ?ks hs))) (drop (length header) packet) =
      (if fresh then Ok payload else stacked_replayed, map2 ?f (rev (take (Suc ?i) ?ks)) hs')"
    unfolding cut using validate_layers_arrive [OF open_it, of "rev (take (Suc ?i) hs)"] assms(2) a by simp
  have join: "rev (map2 ?f (rev (take (Suc ?i) ?ks)) hs') @ drop (Suc ?i) (map2 ?f ?ks hs) =
      map2 ?f ?ks (rev hs' @ drop (Suc ?i) hs)"
  proof -
    have "rev (map2 ?f (rev (take (Suc ?i) ?ks)) hs') = map2 ?f (take (Suc ?i) ?ks) (rev hs')"
      using i len by (simp add: rev_map flip: zip_rev)
    moreover have "map2 ?f (take (Suc ?i) ?ks @ drop (Suc ?i) ?ks) (rev hs' @ drop (Suc ?i) hs) =
        map2 ?f (take (Suc ?i) ?ks) (rev hs') @ map2 ?f (drop (Suc ?i) ?ks) (drop (Suc ?i) hs)"
      by (rule map2_append) (use i len in simp)
    ultimately show ?thesis by (simp add: drop_map drop_zip)
  qed
  have step: "hist_step hs (?i, ps) = (fresh, rev hs' @ drop (Suc ?i) hs)" by (simp add: a)
  have msg: "sr_message (with_histories b hs) = map2 ?f ?ks hs" by (simp add: with_histories_def)
  have "stacked_validate (with_histories b hs) (stacked_wire m packet) =
      validate_message_packet (with_histories b hs) level header (drop (length header) packet)"
    by (simp add: m)
  also have "\<dots> = (if fresh then Ok payload else stacked_replayed,
      (with_histories b hs)\<lparr>sr_message := map2 ?f ?ks (rev hs' @ drop (Suc ?i) hs)\<rparr>)"
    unfolding validate_message_packet_def lvl msg by (simp only: result.case v Let_def prod.case join)
  finally show ?thesis by (simp only: step fst_conv snd_conv) (simp add: m with_histories_def)
qed

interpretation stacked: simulation
  "\<lambda>self j. stacked_validate self (stacked_wire (msgs ! j) (packets ! j))" hist_step "with_histories b"
  "\<lambda>j. (sm_level (msgs ! j), pids j)"
  "\<lambda>j fresh. if fresh then Ok (sm_payload (msgs ! j)) else stacked_replayed"
  "\<lambda>hs. length hs = length (sr_message b)" "\<lambda>j. opens_packet b (msgs ! j) (packets ! j) (pids j)"
  for b msgs packets pids
  by unfold_locales (simp_all add: stacked_validate_hist del: hist_step.simps)

section \<open>The identifiers the sender uses\<close>

definition with_counters :: "stacked_ratchet \<Rightarrow> (nat \<Rightarrow> nat) \<Rightarrow> stacked_ratchet" where
  "with_counters a c = a\<lparr>sr_message :=
     map (\<lambda>(n, k). with_ara (ara_default\<lparr>counter_out := word_of_nat (c n)\<rparr>) k) (enumerate 0 (sr_message a))\<rparr>"

definition layer_pid :: "stacked_message list \<Rightarrow> nat \<Rightarrow> nat \<Rightarrow> nat" where
  "layer_pid msgs j n = length (filter (\<lambda>m. n \<le> sm_level m) (take j msgs))"

definition layer_pids :: "(nat \<Rightarrow> nat) \<Rightarrow> nat \<Rightarrow> u64 list" where
  "layer_pids c i = rev (map (\<lambda>n. word_of_nat (c n)) [0..<Suc i])"

lemma layer_ara_counters [simp]:
  "layer_ara (with_ara (ara_default\<lparr>counter_out := w\<rparr>) k) = ara_default\<lparr>counter_out := w\<rparr>"
  by (simp add: layer_ara_def)

lemma next_pid_counters [simp]:
  "get_next_pid (ara_default\<lparr>counter_out := w\<rparr>) = (w, ara_default\<lparr>counter_out := w + 1\<rparr>)"
  by (simp add: get_next_pid_def)

lemma layer_opens_with_ara [simp]: "layer_opens (with_ara a k) r = layer_opens k r"
  by (simp add: layer_opens_def pqc_opens_def pqc_grows_def)

lemma counters_layers:
  "sr_message (with_counters a c) =
     map (\<lambda>n. with_ara (ara_default\<lparr>counter_out := word_of_nat (c n)\<rparr>) (sr_message a ! n)) [0..<length (sr_message a)]"
  by (auto simp: with_counters_def nth_enumerate_eq intro!: nth_equalityI)

lemma stacked_protect_counters:
  assumes opens: "list_all2 layer_opens (sr_message a) (sr_message b)"
    and sent: "stacked_protect (with_counters a c) m = (Ok packet, a')" and small: "length packet < 2 ^ 64"
  shows "opens_packet b m packet (layer_pids c (sm_level m))"
    and "a' = with_counters a (\<lambda>n. c n + (if n \<le> sm_level m then 1 else 0))"
proof -
  obtain rs level header payload where m: "m = (rs, level, header, payload)" by (cases m)
  define i where "i = sm_level m"
  let ?ks = "sr_message (with_counters a c)"
  obtain j where lvl: "verify_level (with_counters a c) level = Ok j"
    using sent by (cases "verify_level (with_counters a c) level") (simp_all add: m protect_message_packet_def)
  then have i: "i < length (sr_message a)" "j = i"
    by (simp_all add: verify_level_Ok counters_layers i_def m)
  obtain ks1 where run: "protect_layers rs (length header) (take (Suc i) ?ks) (header @ payload) = (Ok packet, ks1)"
    and a': "a' = (with_counters a c)\<lparr>sr_message := ks1 @ drop (Suc i) ?ks\<rparr>"
    using sent lvl i(2) by (auto simp: m protect_message_packet_def Let_def split: prod.splits)
  have len: "length (sr_message b) = length (sr_message a)" using opens by (simp add: list_all2_lengthD)
  have "list_all2 layer_opens (take (Suc i) ?ks) (take (Suc i) (sr_message b))"
    using opens by (auto simp: counters_layers list_all2_conv_all_nth)
  from protect_layers_Ok [OF this run small] obtain sealed where s: "packet = header @ sealed"
    "ks1 = map (\<lambda>k. with_ara (snd (get_next_pid (layer_ara k))) k) (take (Suc i) ?ks)"
    "opens_to (rev (take (Suc i) (sr_message b))) header
       (rev (map (\<lambda>k. fst (get_next_pid (layer_ara k))) (take (Suc i) ?ks))) sealed payload" by blast
  have cut: "take (Suc i) ?ks = map (\<lambda>n. with_ara (ara_default\<lparr>counter_out := word_of_nat (c n)\<rparr>) (sr_message a ! n)) [0..<Suc i]"
    using i by (simp add: counters_layers take_map min_def del: upt_Suc)
  show "opens_packet b m packet (layer_pids c (sm_level m))"
    using s(1,3) i len unfolding cut
    by (simp add: opens_packet_def layer_pids_def comp_def i_def [symmetric] del: upt_Suc) (simp add: m)
  have "ks1 @ drop (Suc i) ?ks =
      sr_message (with_counters a (\<lambda>n. c n + (if n \<le> i then 1 else 0)))"
    using i unfolding s(2) cut
    by (auto simp: counters_layers nth_append comp_def simp del: upt_Suc intro!: nth_equalityI)
  then show "a' = with_counters a (\<lambda>n. c n + (if n \<le> sm_level m then 1 else 0))"
    by (simp add: a' with_counters_def i_def)
qed

lemma layer_pids_cong: "(\<And>n. c n = d n) \<Longrightarrow> layer_pids c i = layer_pids d i"
  by (simp add: layer_pids_def)

lemma stacked_protect_run:
  assumes opens: "list_all2 layer_opens (sr_message a) (sr_message b)"
    and sent: "fst (run stacked_protect (with_counters a c) msgs) = map Ok packets"
    and small: "\<And>p. p \<in> set packets \<Longrightarrow> length p < 2 ^ 64" and j: "j < length msgs"
  shows "opens_packet b (msgs ! j) (packets ! j)
     (layer_pids (\<lambda>n. c n + layer_pid msgs j n) (sm_level (msgs ! j)))"
  using sent small j
proof (induction msgs arbitrary: c packets j)
  case (Cons m msgs)
  from Cons.prems(1) obtain p ps a' where p: "packets = p # ps" "stacked_protect (with_counters a c) m = (Ok p, a')"
    "fst (run stacked_protect a' msgs) = map Ok ps"
    by (cases packets; cases "stacked_protect (with_counters a c) m") (auto simp: run_Cons_fst simp del: run.simps(2))
  have "length p < 2 ^ 64" using Cons.prems(2) p(1) by simp
  note step = stacked_protect_counters [OF opens p(2) this]
  show ?case
  proof (cases j)
    case 0
    then show ?thesis using step(1) by (simp add: p(1) layer_pid_def)
  next
    case (Suc i)
    have pid: "(\<lambda>n. c n + (if n \<le> sm_level m then 1 else 0) + layer_pid msgs i n) =
        (\<lambda>n. c n + layer_pid (m # msgs) (Suc i) n)"
      by (auto simp: layer_pid_def)
    from Cons.IH [OF p(3) [unfolded step(2)], of i] Cons.prems(2,3) p(1) Suc show ?thesis
      by (simp add: pid)
  qed
qed simp

section \<open>What the histories contain\<close>

declare hist_step.simps [simp del]

lemma arrive_layers_nth:
  assumes "length ps = length hs" and "n < length hs"
  shows "snd (arrive_layers hs ps) ! n = hs ! n \<or> snd (arrive_layers hs ps) ! n = hs ! n @ [ps ! n]"
    and "n = 0 \<Longrightarrow> snd (arrive_layers hs ps) ! n = hs ! n @ [ps ! n]"
  using assms
  by (induction hs ps arbitrary: n rule: arrive_layers.induct)
    (auto simp: Let_def case_prod_beta nth_Cons split: nat.splits)

lemma arrive_layers_fresh:
  "length ps = length hs \<Longrightarrow> fst (arrive_layers hs ps) \<longleftrightarrow>
     (\<forall>n < length hs. fst (on_pid_received (after_arrivals (hs ! n)) (ps ! n)))"
  by (induction hs ps rule: arrive_layers.induct)
    (auto simp: Let_def case_prod_beta nth_Cons split: nat.splits)

text \<open>
  The histories after the packets \<open>arrived\<close>: a layer has seen identifiers of packets that reach it, at
  least those of the packets it is the outermost layer of.
\<close>

definition hist_inv :: "(nat \<Rightarrow> nat) \<Rightarrow> (nat \<Rightarrow> nat \<Rightarrow> nat) \<Rightarrow> nat list \<Rightarrow> u64 list list \<Rightarrow> bool" where
  "hist_inv lvl pid arrived hs \<longleftrightarrow>
     (\<forall>n < length hs. length (hs ! n) \<le> length arrived \<and>
        set (hs ! n) \<subseteq> {word_of_nat (pid j n) | j. j \<in> set arrived \<and> n \<le> lvl j} \<and>
        (\<forall>j \<in> set arrived. lvl j = n \<longrightarrow> word_of_nat (pid j n) \<in> set (hs ! n)))"

lemma layers_rev_nth:
  assumes "i < length hs" and "n \<le> i"
  shows "rev (take (Suc i) hs) ! (i - n) = hs ! n" and "layer_pids c i ! (i - n) = word_of_nat (c n)"
proof -
  have "length (take (Suc i) hs) = Suc i" using assms(1) by simp
  then show "rev (take (Suc i) hs) ! (i - n) = hs ! n"
    using assms(2) by (simp add: rev_nth del: length_take)
  show "layer_pids c i ! (i - n) = word_of_nat (c n)"
    using assms(2) by (simp add: rev_nth layer_pids_def del: upt_Suc)
qed

lemma hist_step_nth:
  assumes "i < length hs" and "n < length hs"
  shows "snd (hist_step hs (i, layer_pids c i)) ! n = hs ! n \<or>
      n \<le> i \<and> snd (hist_step hs (i, layer_pids c i)) ! n = hs ! n @ [word_of_nat (c n)]"
    and "n = i \<Longrightarrow> snd (hist_step hs (i, layer_pids c i)) ! n = hs ! n @ [word_of_nat (c n)]"
proof -
  let ?r = "rev (take (Suc i) hs)" and ?ps = "layer_pids c i"
  have len: "length ?r = Suc i" "length ?ps = length ?r" using assms(1) by (simp_all add: layer_pids_def)
  have res: "snd (hist_step hs (i, ?ps)) ! n =
      (if n \<le> i then snd (arrive_layers ?r ?ps) ! (i - n) else hs ! n)"
    using assms len(1) by (simp add: hist_step.simps Let_def case_prod_beta nth_append rev_nth)
  show "snd (hist_step hs (i, ?ps)) ! n = hs ! n \<or>
      n \<le> i \<and> snd (hist_step hs (i, ?ps)) ! n = hs ! n @ [word_of_nat (c n)]"
    using arrive_layers_nth(1) [OF len(2), of "i - n", unfolded len(1)] layers_rev_nth [OF assms(1), of n]
    by (auto simp: res)
  show "n = i \<Longrightarrow> snd (hist_step hs (i, ?ps)) ! n = hs ! n @ [word_of_nat (c n)]"
    using arrive_layers_nth(2) [OF len(2), of 0, unfolded len(1)] layers_rev_nth [OF assms(1), of i] res by simp
qed

lemma hist_step_fresh:
  assumes "i < length hs"
  shows "fst (hist_step hs (i, layer_pids c i)) \<longleftrightarrow>
     (\<forall>n \<le> i. fst (on_pid_received (after_arrivals (hs ! n)) (word_of_nat (c n))))"
proof -
  let ?r = "rev (take (Suc i) hs)" and ?ps = "layer_pids c i"
  have len: "length ?r = Suc i" "length ?ps = length ?r" using assms by (simp_all add: layer_pids_def)
  have "fst (hist_step hs (i, ?ps)) \<longleftrightarrow>
      (\<forall>k < Suc i. fst (on_pid_received (after_arrivals (?r ! k)) (?ps ! k)))"
    using arrive_layers_fresh [OF len(2), unfolded len(1)] by (simp add: hist_step.simps Let_def case_prod_beta)
  also have "\<dots> \<longleftrightarrow> (\<forall>n \<le> i. fst (on_pid_received (after_arrivals (?r ! (i - n))) (?ps ! (i - n))))"
    by (metis diff_diff_cancel diff_le_self less_Suc_eq_le)
  finally show ?thesis using layers_rev_nth [OF assms] by simp
qed

lemma hist_inv_step:
  assumes inv: "hist_inv lvl pid arrived hs" and j: "lvl j < length hs"
  shows "hist_inv lvl pid (arrived @ [j]) (snd (hist_step hs (lvl j, layer_pids (pid j) (lvl j))))"
  unfolding hist_inv_def
proof (intro allI impI)
  fix n assume "n < length (snd (hist_step hs (lvl j, layer_pids (pid j) (lvl j))))"
  then have n: "n < length hs" by simp
  let ?h = "snd (hist_step hs (lvl j, layer_pids (pid j) (lvl j))) ! n"
  have J: "length (hs ! n) \<le> length arrived"
    "\<And>x. x \<in> set (hs ! n) \<Longrightarrow> \<exists>i. x = word_of_nat (pid i n) \<and> i \<in> set arrived \<and> n \<le> lvl i"
    "\<And>i. i \<in> set arrived \<Longrightarrow> lvl i = n \<Longrightarrow> word_of_nat (pid i n) \<in> set (hs ! n)"
    using inv n unfolding hist_inv_def by blast+
  show "length ?h \<le> length (arrived @ [j]) \<and>
        set ?h \<subseteq> {word_of_nat (pid i n) | i. i \<in> set (arrived @ [j]) \<and> n \<le> lvl i} \<and>
        (\<forall>i \<in> set (arrived @ [j]). lvl i = n \<longrightarrow> word_of_nat (pid i n) \<in> set ?h)"
    using hist_step_nth [OF j n, of "pid j"] J by (auto dest!: J(2))
qed

lemma hist_inv_run:
  assumes "\<And>j. j \<in> set order \<Longrightarrow> lvl j < L"
  shows "hist_inv lvl pid order
     (snd (run hist_step (replicate L []) (map (\<lambda>j. (lvl j, layer_pids (pid j) (lvl j))) order))) \<and>
     length (snd (run hist_step (replicate L []) (map (\<lambda>j. (lvl j, layer_pids (pid j) (lvl j))) order))) = L"
  using assms
proof (induction order rule: rev_induct)
  case Nil
  show ?case by (simp add: hist_inv_def)
next
  case (snoc j order)
  then show ?case by (simp add: run_append case_prod_beta hist_inv_step)
qed

lemma fresh_packet:
  assumes inv: "hist_inv lvl pid arrived hs" and j: "lvl j < length hs" "j \<notin> set arrived"
    and len: "length arrived < 2 ^ 64"
    and inj: "\<And>i n. i \<in> set arrived \<Longrightarrow> n \<le> lvl i \<Longrightarrow> n \<le> lvl j \<Longrightarrow>
        (word_of_nat (pid i n) :: u64) = word_of_nat (pid j n) \<Longrightarrow> i = j"
  shows "fst (hist_step hs (lvl j, layer_pids (pid j) (lvl j)))"
proof -
  have "fst (on_pid_received (after_arrivals (hs ! n)) (word_of_nat (pid j n)))" if n: "n \<le> lvl j" for n
  proof (rule fresh_pid_accepted)
    have n': "n < length hs" using n j(1) by simp
    then show "length (hs ! n) < 2 ^ 64" using inv len unfolding hist_inv_def by fastforce
    show "word_of_nat (pid j n) \<notin> set (hs ! n)"
    proof
      assume "word_of_nat (pid j n) \<in> set (hs ! n)"
      with inv n' obtain i where "i \<in> set arrived" "n \<le> lvl i" "(word_of_nat (pid i n) :: u64) = word_of_nat (pid j n)"
        unfolding hist_inv_def by fastforce
      with inj [of i n] n j(2) show False by blast
    qed
  qed
  then show ?thesis by (simp add: hist_step_fresh [OF j(1)])
qed

lemma replayed_packet:
  assumes inv: "hist_inv lvl pid arrived hs" and j: "lvl j < length hs" "j \<in> set arrived"
    and window: "card (set arrived) \<le> unat HISTORY_LEN"
  shows "\<not> fst (hist_step hs (lvl j, layer_pids (pid j) (lvl j)))"
proof -
  let ?h = "hs ! lvl j"
  have mem: "word_of_nat (pid j (lvl j)) \<in> set ?h"
    and sub: "set ?h \<subseteq> (\<lambda>i. word_of_nat (pid i (lvl j))) ` set arrived"
    using inv j unfolding hist_inv_def by fastforce+
  have "card (set ?h) \<le> card (set arrived)"
    by (rule order.trans [OF card_mono [OF _ sub]]) (simp_all add: card_image_le)
  then have "fset (queue_set (after_arrivals ?h)) = set ?h"
    using run_ideal [of ara_default ?h] window by (simp add: after_arrivals_def ara_default_def)
  with mem have "\<not> fst (on_pid_received (after_arrivals ?h) (word_of_nat (pid j (lvl j))))"
    by (simp add: on_pid_received_verdict)
  then show ?thesis using hist_step_fresh [OF j(1), of "pid j"] by blast
qed

section \<open>Delivery\<close>

definition stacked_run ::
    "stacked_ratchet \<Rightarrow> stacked_ratchet \<Rightarrow> stacked_message list \<Rightarrow> bytes list \<Rightarrow> nat list \<Rightarrow> bool" where
  "stacked_run a b msgs packets order \<longleftrightarrow>
     list_all2 layer_opens (sr_message a) (sr_message b) \<and>
     (\<forall>k \<in> set (sr_message a) \<union> set (sr_message b). layer_ara k = ara_default) \<and>
     fst (run stacked_protect a msgs) = map Ok packets \<and> (\<forall>p \<in> set packets. length p < 2 ^ 64) \<and>
     length msgs < 2 ^ 64 \<and> (\<forall>j \<in> set order. j < length msgs)"

definition stacked_deliver ::
    "stacked_ratchet \<Rightarrow> stacked_message list \<Rightarrow> bytes list \<Rightarrow> nat list \<Rightarrow> (bytes, crypt_error) result list" where
  "stacked_deliver b msgs packets order =
     fst (run stacked_validate b (map (\<lambda>j. stacked_wire (msgs ! j) (packets ! j)) order))"

lemma with_ara_same: "layer_ara k = a \<Longrightarrow> with_ara a k = k"
  by (auto simp: layer_ara_def with_ara_def)

lemma fresh_ratchet:
  assumes "\<forall>k \<in> set (sr_message b). layer_ara k = ara_default"
  shows "with_histories b (replicate (length (sr_message b)) []) = b" and "with_counters b (\<lambda>_. 0) = b"
proof -
  have "ara_default\<lparr>counter_out := 0\<rparr> = ara_default" "after_arrivals [] = ara_default"
    by (simp_all add: ara_default_def after_arrivals_def)
  then have "map2 (\<lambda>k h. with_ara (after_arrivals h) k) (sr_message b) (replicate (length (sr_message b)) []) = sr_message b"
    "sr_message (with_counters b (\<lambda>_. 0)) = sr_message b"
    using assms by (auto simp: counters_layers with_ara_same intro!: nth_equalityI)
  then show "with_histories b (replicate (length (sr_message b)) []) = b" "with_counters b (\<lambda>_. 0) = b"
    by (simp_all add: with_histories_def with_counters_def)
qed

lemma layer_pid_mono: "layer_pid msgs i n \<le> layer_pid msgs (i + k) n"
  by (simp add: layer_pid_def take_add)

lemma layer_pid_less:
  assumes "i < j" and "j \<le> length msgs" and "n \<le> sm_level (msgs ! i)"
  shows "layer_pid msgs i n < layer_pid msgs j n"
proof -
  have "layer_pid msgs (Suc i) n = Suc (layer_pid msgs i n)"
    using assms by (simp add: layer_pid_def take_Suc_conv_app_nth)
  with layer_pid_mono [of msgs "Suc i" n "j - Suc i"] assms(1) show ?thesis by simp
qed

lemma layer_pid_inject:
  assumes "i < length msgs" and "j < length msgs" and "length msgs < 2 ^ 64"
    and "n \<le> sm_level (msgs ! i)" and "n \<le> sm_level (msgs ! j)"
    and "(word_of_nat (layer_pid msgs i n) :: u64) = word_of_nat (layer_pid msgs j n)"
  shows "i = j"
proof -
  have "layer_pid msgs x n \<le> length msgs" for x
    unfolding layer_pid_def by (rule order.trans [OF length_filter_le]) simp
  then have small: "layer_pid msgs x n < 2 ^ 64" for x using assms(3) by (rule le_less_trans)
  have "layer_pid msgs i n = layer_pid msgs j n"
    using assms(6) small [of i] small [of j] by (simp add: word_of_nat_eq_iff take_bit_nat_eq_self)
  then show ?thesis
    using layer_pid_less [of i j msgs n] layer_pid_less [of j i msgs n] assms(1,2,4,5)
    by (cases i j rule: linorder_cases) auto
qed

lemma stacked_deliver_nth:
  assumes run: "stacked_run a b msgs packets order" and k: "k < length order"
  shows "\<exists>hs. hist_inv (\<lambda>j. sm_level (msgs ! j)) (layer_pid msgs) (take k order) hs \<and>
     length hs = length (sr_message b) \<and> sm_level (msgs ! (order ! k)) < length hs \<and>
     stacked_deliver b msgs packets order ! k =
       (if fst (hist_step hs (sm_level (msgs ! (order ! k)),
                  layer_pids (layer_pid msgs (order ! k)) (sm_level (msgs ! (order ! k)))))
        then Ok (sm_payload (msgs ! (order ! k))) else stacked_replayed)"
proof -
  let ?lvl = "\<lambda>j. sm_level (msgs ! j)" and ?L = "length (sr_message b)"
  let ?ps = "\<lambda>j. layer_pids (layer_pid msgs j) (?lvl j)"
  let ?ev = "map (\<lambda>j. (?lvl j, ?ps j))"
  define hs where "hs = snd (run hist_step (replicate ?L []) (?ev (take k order)))"
  have fresh: "with_counters a (\<lambda>_. 0) = a" "with_histories b (replicate ?L []) = b"
    using run fresh_ratchet [of a] fresh_ratchet [of b] by (auto simp: stacked_run_def)
  have adm: "opens_packet b (msgs ! j) (packets ! j) (?ps j)" if "j \<in> set order" for j
    using stacked_protect_run [of a b "\<lambda>_. 0" msgs packets j] run that by (simp add: stacked_run_def fresh)
  then have lvl: "?lvl j < ?L" if "j \<in> set order" for j using that by (simp add: opens_packet_def)
  have inv: "hist_inv ?lvl (layer_pid msgs) (take k order) hs \<and> length hs = ?L"
    unfolding hs_def by (rule hist_inv_run) (auto intro: lvl dest: in_set_takeD)
  have "stacked_deliver b msgs packets order =
      map2 (\<lambda>j fresh. if fresh then Ok (sm_payload (msgs ! j)) else stacked_replayed) order
        (fst (run hist_step (replicate ?L []) (?ev order)))"
    using stacked.run_simulates [where t = "replicate ?L []" and b = b and es = order and msgs = msgs and
        packets = packets and pids = ?ps] adm
    by (simp add: stacked_deliver_def run_map fresh list_all_iff)
  then have res: "stacked_deliver b msgs packets order ! k =
      (if fst (hist_step hs (?lvl (order ! k), ?ps (order ! k))) then Ok (sm_payload (msgs ! (order ! k))) else stacked_replayed)"
    using k by (simp add: nth_run hs_def take_map)
  have "?lvl (order ! k) < length hs" using inv lvl [of "order ! k"] k by simp
  with inv res show ?thesis by blast
qed

lemma stacked_deliver_verdict:
  assumes "stacked_run a b msgs packets order" and "length order < 2 ^ 64" and "k < length order"
  shows "order ! k \<notin> set (take k order) \<Longrightarrow>
       stacked_deliver b msgs packets order ! k = Ok (sm_payload (msgs ! (order ! k)))"
    and "order ! k \<in> set (take k order) \<Longrightarrow> card (set (take k order)) \<le> unat HISTORY_LEN \<Longrightarrow>
       stacked_deliver b msgs packets order ! k = stacked_replayed"
proof -
  from stacked_deliver_nth [OF assms(1,3)] obtain hs where
    inv: "hist_inv (\<lambda>j. sm_level (msgs ! j)) (layer_pid msgs) (take k order) hs"
    and lvl: "sm_level (msgs ! (order ! k)) < length hs"
    and res: "stacked_deliver b msgs packets order ! k =
       (if fst (hist_step hs (sm_level (msgs ! (order ! k)),
                  layer_pids (layer_pid msgs (order ! k)) (sm_level (msgs ! (order ! k)))))
        then Ok (sm_payload (msgs ! (order ! k))) else stacked_replayed)" by blast
  have len: "length msgs < 2 ^ 64" using assms(1) unfolding stacked_run_def by blast
  have ok: "j < length msgs" if "j \<in> set order" for j
    using assms(1) that unfolding stacked_run_def by blast
  have "fst (hist_step hs (sm_level (msgs ! (order ! k)),
      layer_pids (layer_pid msgs (order ! k)) (sm_level (msgs ! (order ! k)))))" if "order ! k \<notin> set (take k order)"
  proof (rule fresh_packet [OF inv lvl that])
    show "length (take k order) < 2 ^ 64" using assms(2,3) by simp
    show "i = order ! k" if "i \<in> set (take k order)" "n \<le> sm_level (msgs ! i)" "n \<le> sm_level (msgs ! (order ! k))"
      "(word_of_nat (layer_pid msgs i n) :: u64) = word_of_nat (layer_pid msgs (order ! k) n)" for i n
      using layer_pid_inject [OF ok ok len that(2-4)] in_set_takeD [OF that(1)] assms(3) by simp
  qed
  with res show "order ! k \<notin> set (take k order) \<Longrightarrow>
      stacked_deliver b msgs packets order ! k = Ok (sm_payload (msgs ! (order ! k)))" by presburger
  from replayed_packet [OF inv lvl] res
  show "order ! k \<in> set (take k order) \<Longrightarrow> card (set (take k order)) \<le> unat HISTORY_LEN \<Longrightarrow>
      stacked_deliver b msgs packets order ! k = stacked_replayed" by presburger
qed

text \<open>A stack of two layers, a packet through both and a packet through the first only.\<close>

definition demo_stack :: "pq_node \<Rightarrow> stacked_ratchet" where
  "demo_stack node =
     \<lparr>sr_message = replicate 2 \<lparr>rk_drill = demo_bank, rk_pqc = demo_node node\<rparr>,
      sr_scramble = \<lparr>rk_drill = demo_bank, rk_pqc = demo_node node\<rparr>, sr_default_security_level = Reinforced\<rparr>"

definition demo_stacked_msgs :: "stacked_message list" where
  "demo_stacked_msgs = [(\<lambda>_ _. 0, Some Reinforced, [1], [10]), (\<lambda>_ _. 0, None, [2], [20])]"

definition demo_stacked_packets :: "bytes list" where
  "demo_stacked_packets =
     [[1, 10] @ u64_to_be 0 @ replicate 16 0 @ u64_to_be 0 @ replicate 16 0, [2, 20] @ u64_to_be 1 @ replicate 16 0]"

lemma demo_protect:
  assumes "hl \<le> length packet"
  shows "protect_packet r demo_bank ((demo_node node)\<lparr>pq_ara := a\<rparr>) hl packet =
     (Ok (packet @ u64_to_be (counter_out a) @ replicate 16 0),
      (demo_node node)\<lparr>pq_ara := a\<lparr>counter_out := counter_out a + 1\<rparr>\<rparr>)"
  using assms length_get_nonce [of demo_bank 0]
  by (cases node)
    (simp_all add: protect_packet_def protect_packet_in_place_def Let_def get_next_pid_def get_encryption_key_def
      demo_node_def demo_bank_def aes_module_def demo_lib_def nonce_len_defs)

lemma demo_stacked_run_ok:
  "stacked_run (demo_stack Alice) (demo_stack Bob) demo_stacked_msgs demo_stacked_packets [1, 0, 1]"
proof -
  have ara: "(demo_node n)\<lparr>pq_ara := ara_default\<rparr> = demo_node n" for n by (simp add: demo_node_def)
  have "pqc_opens (demo_node Alice) (demo_node Bob)" using demo_channel by (simp add: channel_run_def)
  moreover have "pqc_grows (demo_node Alice)"
    by (auto simp: pqc_grows_def demo_node_def get_encryption_key_def aes_module_def demo_lib_def split: if_splits)
  moreover have "fst (run stacked_protect (demo_stack Alice) demo_stacked_msgs) = map Ok demo_stacked_packets"
    by (simp add: demo_stacked_msgs_def demo_stacked_packets_def protect_message_packet_def verify_level_def demo_stack_def
        numeral_2_eq_2 demo_protect demo_protect [where a = ara_default, unfolded ara])
      (simp add: ara_default_def)
  moreover have "\<forall>p \<in> set demo_stacked_packets. length p < 2 ^ 64" "\<forall>j \<in> set [1, 0, 1 :: nat]. j < length demo_stacked_msgs"
    "length demo_stacked_msgs < 2 ^ 64"
    by (simp_all add: demo_stacked_packets_def demo_stacked_msgs_def be64.length_enc)
  moreover have "\<forall>k \<in> set (sr_message (demo_stack Alice)) \<union> set (sr_message (demo_stack Bob)). layer_ara k = ara_default"
    by (simp add: demo_stack_def layer_ara_def demo_node_def)
  ultimately show ?thesis
    unfolding stacked_run_def by (simp add: demo_stack_def numeral_2_eq_2 layer_opens_def del: set_simps)
qed

section \<open>Properties\<close>

text \<open>
  C28: The channel of a stacked ratchet delivers every packet once, for packets of any mix of security
  levels. Whatever the network delivered before, in whatever order and with whatever repetitions, the
  first arrival of a packet gives its payload, although every layer of its level checks an identifier of
  its own; and while no more than \<open>HISTORY_LEN\<close> different packets have arrived, every further arrival is
  refused as a replay.
\<close>

theorem stacked_channel_exactly_once:
  assumes "stacked_run a b msgs packets order" and "length order < 2 ^ 64" and "k < length order"
  shows "(order ! k \<notin> set (take k order) \<longrightarrow>
       stacked_deliver b msgs packets order ! k = Ok (sm_payload (msgs ! (order ! k)))) \<and>
     (order ! k \<in> set (take k order) \<and> card (set (take k order)) \<le> unat HISTORY_LEN \<longrightarrow>
       stacked_deliver b msgs packets order ! k = stacked_replayed)"
  using stacked_deliver_verdict [OF assms] by blast

theorem stacked_channel_exactly_once_witness:
  "stacked_deliver (demo_stack Bob) demo_stacked_msgs demo_stacked_packets [1, 0, 1] ! 1 = Ok [10] \<and>
   stacked_deliver (demo_stack Bob) demo_stacked_msgs demo_stacked_packets [1, 0, 1] ! 2 = stacked_replayed"
  using stacked_channel_exactly_once [OF demo_stacked_run_ok, of 1]
    stacked_channel_exactly_once [OF demo_stacked_run_ok, of 2]
  by (simp add: demo_stacked_msgs_def HISTORY_LEN_def)

end
