(* ===== verification/Toolset.thy ===== *)
theory Toolset
  imports Ratchet_Handshake
begin

text \<open>
  The toolset of \<open>citadel_crypt/src/toolset.rs\<close>: the ratchets of the recent versions, newest first, under
  a number that wraps around at 32 bits. The toolset is generic in its ratchets: the record
  \<open>ratchet_trait\<close> holds the operations of the \<open>Ratchet\<close> and \<open>EndpointRatchetConstructor\<close> traits that its
  users call, and \<open>stacked_trait\<close> and \<open>thin_trait\<close> are the two implementations. A ratchet is a shared
  reference, so the toolset holds the reference and reads of it only what never changes: its version
  and its owner. The lemmas show that the window of versions is exact: a lookup gives the ratchet of the version
  asked for, and only versions outside the window are missing.
\<close>

section \<open>The ratchet traits\<close>

text \<open>
  The ratchet can be any type with these operations. An operation that returns an option in the code is
  \<^term>\<open>Err ()\<close> where the code returns none.
\<close>

record ('r, 'c) ratchet_trait =
  rt_get_cid :: "'r \<Rightarrow> (u64, unit) result"
  rt_version :: "'r \<Rightarrow> (u32, unit) result"
  rt_params :: "'r \<Rightarrow> (crypto_parameters, unit) result"
  rt_get_next_constructor_opts :: "'r \<Rightarrow> (constructor_opts list, unit) result"
  rt_next_alice_constructor :: "'r \<Rightarrow> ('c, unit) result"
  rt_new_bob :: "u64 \<Rightarrow> u32 \<Rightarrow> constructor_opts list \<Rightarrow> alice_to_bob_transfer_type \<Rightarrow> ('c, unit) result"
  rt_stage0_alice :: "'c \<Rightarrow> (alice_to_bob_transfer_type, unit) result"
  rt_stage0_bob :: "'c \<Rightarrow> (bob_to_alice_transfer_type, unit) result"
  rt_stage1_alice :: "bob_to_alice_transfer_type \<Rightarrow> 'c \<Rightarrow> ('c, crypt_error) result"
  rt_update_version :: "u32 \<Rightarrow> 'c \<Rightarrow> ('c, unit) result"
  rt_finish_with_custom_cid :: "u64 \<Rightarrow> 'c \<Rightarrow> ('r, unit) result"

text \<open>
  The randomness of one exchange: of the containers of Alice and of Bob, of Bob's banks, of the two transfers and of
  the sealed banks. The bincode codec of a bank is \<open>ser\<close> and \<open>de\<close>.
\<close>

record exchange_rnd =
  xr_alice :: "nat \<Rightarrow> rnd"
  xr_bob :: "nat \<Rightarrow> rnd"
  xr_banks :: "nat \<Rightarrow> bank_rnd"
  xr_stage0_alice :: "nat \<Rightarrow> rnd"
  xr_stage0_bob :: "nat \<Rightarrow> rnd"
  xr_seal :: "nat \<Rightarrow> rnd"

fun sr_new_bob_trait ::
    "crypto_lib \<Rightarrow> exchange_rnd \<Rightarrow> u64 \<Rightarrow> u32 \<Rightarrow> constructor_opts list \<Rightarrow> alice_to_bob_transfer_type \<Rightarrow>
     (stacked_ctor, unit) result" where
  "sr_new_bob_trait lib xr cid new_drill_vers opts (A2B_Default transfer) =
     sr_new_bob lib (xr_bob xr) (xr_banks xr) cid new_drill_vers opts transfer"
| "sr_new_bob_trait lib xr cid new_drill_vers opts (A2B_Fcm transfer) = Err ()"

definition stacked_trait ::
    "crypto_lib \<Rightarrow> (entropy_bank \<Rightarrow> (bytes, string) result) \<Rightarrow> (bytes \<Rightarrow> (entropy_bank, string) result) \<Rightarrow>
     exchange_rnd \<Rightarrow> (stacked_ratchet, stacked_ctor) ratchet_trait" where
  "stacked_trait lib ser de xr =
     \<lparr>rt_get_cid = sr_get_cid, rt_version = sr_version,
      rt_params = (\<lambda>r. rbind (get_layer r None) (\<lambda>k. Ok (pq_params (rk_pqc k)))),
      rt_get_next_constructor_opts = get_next_constructor_opts lib,
      rt_next_alice_constructor = sr_next_alice_constructor lib (xr_alice xr),
      rt_new_bob = sr_new_bob_trait lib xr,
      rt_stage0_alice = (\<lambda>c. rbind (sr_stage0_alice lib (xr_stage0_alice xr) c) (\<lambda>tx. Ok (A2B_Default tx))),
      rt_stage0_bob = (\<lambda>c. rbind (sr_stage0_bob lib ser (xr_stage0_bob xr) (xr_seal xr) c) (\<lambda>tx. Ok (B2A_Default tx))),
      rt_stage1_alice = sr_stage1_alice lib de,
      rt_update_version = sr_update_version,
      rt_finish_with_custom_cid = sr_finish_with_custom_cid\<rparr>"

fun thin_new_bob_trait ::
    "crypto_lib \<Rightarrow> exchange_rnd \<Rightarrow> u64 \<Rightarrow> u32 \<Rightarrow> constructor_opts list \<Rightarrow> alice_to_bob_transfer_type \<Rightarrow>
     (thin_ctor, unit) result" where
  "thin_new_bob_trait lib xr cid new_drill_vers opts (A2B_Fcm transfer) =
     (if opts = [] then Panic else thin_new_bob lib (xr_bob xr 0) (xr_banks xr 0) (hd opts) transfer)"
| "thin_new_bob_trait lib xr cid new_drill_vers opts (A2B_Default transfer) = Err ()"

fun thin_stage1_alice_trait ::
    "crypto_lib \<Rightarrow> (bytes \<Rightarrow> (entropy_bank, string) result) \<Rightarrow> bob_to_alice_transfer_type \<Rightarrow> thin_ctor \<Rightarrow>
     (thin_ctor, crypt_error) result" where
  "thin_stage1_alice_trait lib de (B2A_Fcm transfer) self = thin_stage1_alice lib de transfer self"
| "thin_stage1_alice_trait lib de (B2A_Default transfer) self =
     Err (DrillUpdateError ''Incompatible Ratchet Type passed! [X-44]'')"

definition thin_next_alice_constructor ::
    "crypto_lib \<Rightarrow> (nat \<Rightarrow> rnd) \<Rightarrow> thin_ratchet \<Rightarrow> (thin_ctor, unit) result" where
  "thin_next_alice_constructor lib rs self =
     rbind (thin_get_next_constructor_opts self) (\<lambda>opts.
     if opts = [] then Panic
     else thin_new_alice lib (rs 0) (rs 1) (thin_get_cid self) (thin_version self + 1) (hd opts))"

definition thin_trait ::
    "crypto_lib \<Rightarrow> (entropy_bank \<Rightarrow> (bytes, string) result) \<Rightarrow> (bytes \<Rightarrow> (entropy_bank, string) result) \<Rightarrow>
     exchange_rnd \<Rightarrow> (thin_ratchet, thin_ctor) ratchet_trait" where
  "thin_trait lib ser de xr =
     \<lparr>rt_get_cid = (\<lambda>r. Ok (thin_get_cid r)), rt_version = (\<lambda>r. Ok (thin_version r)),
      rt_params = (\<lambda>r. Ok (pq_params (tr_pqc r))),
      rt_get_next_constructor_opts = thin_get_next_constructor_opts,
      rt_next_alice_constructor = thin_next_alice_constructor lib (xr_alice xr),
      rt_new_bob = thin_new_bob_trait lib xr,
      rt_stage0_alice = (\<lambda>c. rbind (thin_stage0_alice lib (xr_stage0_alice xr 0) c) (\<lambda>tx. Ok (A2B_Fcm tx))),
      rt_stage0_bob = (\<lambda>c. rbind (thin_stage0_bob lib ser (xr_stage0_bob xr 0) (xr_seal xr 0) c) (\<lambda>tx. Ok (B2A_Fcm tx))),
      rt_stage1_alice = thin_stage1_alice_trait lib de,
      rt_update_version = thin_update_version,
      rt_finish_with_custom_cid = thin_finish_with_custom_cid\<rparr>"

section \<open>The toolset\<close>

definition MAX_HYPER_RATCHETS_IN_MEMORY :: nat where
  "MAX_HYPER_RATCHETS_IN_MEMORY = 128"

text \<open>The front of the deque is the head of the list.\<close>

record 'r toolset =
  ts_cid :: u64
  most_recent_hyper_ratchet_version :: u32
  oldest_hyper_ratchet_version :: u32
  ts_map :: "'r list"
  static_auxiliary_hyper_ratchet :: 'r

datatype update_status = Committed u32 | CommittedNeedsSynchronization u32 u32

definition toolset_new_debug :: "u64 \<Rightarrow> 'r \<Rightarrow> u32 \<Rightarrow> u32 \<Rightarrow> 'r toolset" where
  "toolset_new_debug cid hyper_ratchet most_recent oldest =
     \<lparr>ts_cid = cid, most_recent_hyper_ratchet_version = most_recent, oldest_hyper_ratchet_version = oldest,
      ts_map = [hyper_ratchet], static_auxiliary_hyper_ratchet = hyper_ratchet\<rparr>"

definition toolset_new :: "u64 \<Rightarrow> 'r \<Rightarrow> 'r toolset" where
  "toolset_new cid hyper_ratchet =
     \<lparr>ts_cid = cid, most_recent_hyper_ratchet_version = 0, oldest_hyper_ratchet_version = 0,
      ts_map = [hyper_ratchet], static_auxiliary_hyper_ratchet = hyper_ratchet\<rparr>"

definition append_hyper_ratchet ::
    "('r, 'c) ratchet_trait \<Rightarrow> 'r toolset \<Rightarrow> 'r \<Rightarrow> (update_status \<times> 'r toolset, unit) result" where
  "append_hyper_ratchet rt self hyper_ratchet =
     rbind (rt_version rt hyper_ratchet) (\<lambda>new_version.
     let self' = self\<lparr>ts_map := hyper_ratchet # ts_map self\<rparr> in
     Ok (if MAX_HYPER_RATCHETS_IN_MEMORY < length (ts_map self')
         then CommittedNeedsSynchronization new_version (oldest_hyper_ratchet_version self')
         else Committed new_version, self'))"

fun status_new_version :: "update_status \<Rightarrow> u32" where
  "status_new_version (Committed new_version) = new_version"
| "status_new_version (CommittedNeedsSynchronization new_version old_version) = new_version"

definition update_from ::
    "('r, 'c) ratchet_trait \<Rightarrow> 'r toolset \<Rightarrow> 'r \<Rightarrow> (update_status \<times> 'r toolset, unit) result" where
  "update_from rt self new_hyper_ratchet =
     rbind (rt_get_cid rt new_hyper_ratchet) (\<lambda>cid.
     if cid \<noteq> ts_cid self then Err ()
     else
       rbind (rt_version rt new_hyper_ratchet) (\<lambda>version.
       if most_recent_hyper_ratchet_version self \<noteq> version - 1 then Err ()
       else
         rbind (append_hyper_ratchet rt self new_hyper_ratchet) (\<lambda>(status, self').
         Ok (status, self'\<lparr>most_recent_hyper_ratchet_version := status_new_version status\<rparr>))))"

definition deregister_oldest_hyper_ratchet :: "u32 \<Rightarrow> 'r toolset \<Rightarrow> ('r toolset, crypt_error) result" where
  "deregister_oldest_hyper_ratchet version self =
     (if length (ts_map self) \<le> MAX_HYPER_RATCHETS_IN_MEMORY then
        Err (DrillUpdateError ''Cannot call for deregistration unless the map len is maxed out'')
      else if oldest_hyper_ratchet_version self \<noteq> version then
        Err (DrillUpdateError ''Unable to deregister. Provided version, expected version'')
      else if ts_map self = [] then Err OutOfBoundsError
      else Ok (self\<lparr>ts_map := butlast (ts_map self),
                    oldest_hyper_ratchet_version := oldest_hyper_ratchet_version self + 1\<rparr>))"

definition toolset_len :: "'r toolset \<Rightarrow> nat" where
  "toolset_len self = length (ts_map self)"

definition get_most_recent_hyper_ratchet :: "'r toolset \<Rightarrow> 'r option" where
  "get_most_recent_hyper_ratchet self = (case ts_map self of [] \<Rightarrow> None | r # rs \<Rightarrow> Some r)"

definition get_oldest_hyper_ratchet :: "'r toolset \<Rightarrow> 'r option" where
  "get_oldest_hyper_ratchet self = (if ts_map self = [] then None else Some (last (ts_map self)))"

definition get_adjusted_index :: "'r toolset \<Rightarrow> u32 \<Rightarrow> nat" where
  "get_adjusted_index self version = unat (most_recent_hyper_ratchet_version self - version)"

definition ts_get_hyper_ratchet :: "'r toolset \<Rightarrow> u32 \<Rightarrow> 'r option" where
  "ts_get_hyper_ratchet self version =
     (let idx = get_adjusted_index self version in
      if idx < length (ts_map self) then Some (ts_map self ! idx) else None)"

text \<open>The capacity that the code reserves for the range does not show in the result.\<close>

definition get_hyper_ratchets :: "'r toolset \<Rightarrow> u32 \<Rightarrow> u32 \<Rightarrow> 'r list option" where
  "get_hyper_ratchets self first stop =
     those (map (\<lambda>v. ts_get_hyper_ratchet self (word_of_nat v)) [unat first..<Suc (unat stop)])"

text \<open>The static ratchet is reset behind its reference: \<open>heap\<close> holds what the references point to.\<close>

definition verify_init_state :: "('r \<Rightarrow> 'h \<Rightarrow> 'h) \<Rightarrow> 'r toolset \<Rightarrow> 'h \<Rightarrow> unit option \<times> 'h" where
  "verify_init_state reset_ara self heap = (Some (), reset_ara (static_auxiliary_hyper_ratchet self) heap)"

definition toolset_from :: "stacked_ratchet \<times> stacked_ratchet \<Rightarrow> (stacked_ratchet toolset, unit) result" where
  "toolset_from drill =
     rbind (sr_version (snd drill)) (\<lambda>version.
     rbind (sr_get_cid (fst drill)) (\<lambda>cid.
     Ok \<lparr>ts_cid = cid, most_recent_hyper_ratchet_version = version, oldest_hyper_ratchet_version = version,
         ts_map = [snd drill], static_auxiliary_hyper_ratchet = fst drill\<rparr>))"

text \<open>Serialisation of a whole toolset is bincode's, given as a codec.\<close>

definition toolset_serialize_to_vec ::
    "('r toolset \<Rightarrow> (bytes, string) result) \<Rightarrow> 'r toolset \<Rightarrow> (bytes, crypt_error) result" where
  "toolset_serialize_to_vec ser self = map_err DrillUpdateError (ser self)"

definition toolset_deserialize_from_bytes ::
    "(bytes \<Rightarrow> ('r toolset, string) result) \<Rightarrow> bytes \<Rightarrow> ('r toolset, crypt_error) result" where
  "toolset_deserialize_from_bytes de input = map_err DrillUpdateError (de input)"

section \<open>The window of versions\<close>

text \<open>The ratchets carry consecutive versions, from the most recent one down to the oldest one.\<close>

definition toolset_wf :: "('r, 'c) ratchet_trait \<Rightarrow> 'r toolset \<Rightarrow> bool" where
  "toolset_wf rt self \<longleftrightarrow>
     ts_map self \<noteq> [] \<and> length (ts_map self) \<le> 2 ^ 32 \<and>
     oldest_hyper_ratchet_version self = most_recent_hyper_ratchet_version self - word_of_nat (length (ts_map self) - 1) \<and>
     (\<forall>i < length (ts_map self).
        rt_version rt (ts_map self ! i) = Ok (most_recent_hyper_ratchet_version self - word_of_nat i) \<and>
        rt_get_cid rt (ts_map self ! i) = Ok (ts_cid self))"

lemma toolset_new_wf:
  assumes "rt_version rt r = Ok 0" and "rt_get_cid rt r = Ok cid"
  shows "toolset_wf rt (toolset_new cid r)"
  using assms by (simp add: toolset_wf_def toolset_new_def)

text \<open>The next version, and no other, of the same owner is appended.\<close>

lemma update_from_iff:
  "update_from rt self r = Ok (status, self') \<longleftrightarrow>
     rt_get_cid rt r = Ok (ts_cid self) \<and> rt_version rt r = Ok (most_recent_hyper_ratchet_version self + 1) \<and>
     status = (if MAX_HYPER_RATCHETS_IN_MEMORY \<le> length (ts_map self)
               then CommittedNeedsSynchronization (most_recent_hyper_ratchet_version self + 1)
                      (oldest_hyper_ratchet_version self)
               else Committed (most_recent_hyper_ratchet_version self + 1)) \<and>
     self' = self\<lparr>ts_map := r # ts_map self,
                  most_recent_hyper_ratchet_version := most_recent_hyper_ratchet_version self + 1\<rparr>"
  by (cases "rt_get_cid rt r"; cases "rt_version rt r")
    (auto simp: update_from_def append_hyper_ratchet_def Let_def less_Suc_eq_le)

lemma update_from_wf:
  assumes "toolset_wf rt self" and "update_from rt self r = Ok (status, self')" and "length (ts_map self) < 2 ^ 32"
  shows "toolset_wf rt self'"
  using assms
  by (auto simp: toolset_wf_def update_from_iff nth_Cons of_nat_diff Suc_le_eq split: nat.splits)

lemma deregister_oldest_iff:
  "deregister_oldest_hyper_ratchet v self = Ok self' \<longleftrightarrow>
     MAX_HYPER_RATCHETS_IN_MEMORY < length (ts_map self) \<and> oldest_hyper_ratchet_version self = v \<and>
     self' = self\<lparr>ts_map := butlast (ts_map self), oldest_hyper_ratchet_version := v + 1\<rparr>"
  by (auto simp: deregister_oldest_hyper_ratchet_def MAX_HYPER_RATCHETS_IN_MEMORY_def)

lemma deregister_oldest_wf:
  assumes "toolset_wf rt self" and "deregister_oldest_hyper_ratchet v self = Ok self'"
  shows "toolset_wf rt self'"
proof -
  have "0 < length (butlast (ts_map self))"
    using assms(2) by (simp add: deregister_oldest_iff MAX_HYPER_RATCHETS_IN_MEMORY_def)
  then have "butlast (ts_map self) \<noteq> []" unfolding length_greater_0_conv .
  with assms show ?thesis
    by (auto simp: toolset_wf_def deregister_oldest_iff nth_butlast MAX_HYPER_RATCHETS_IN_MEMORY_def of_nat_diff)
qed

lemma word_diff_le_iff: "(n :: 'a::len word) - d \<le> n \<longleftrightarrow> d \<le> n"
proof (cases "d \<le> n")
  case True
  then show ?thesis by (simp add: word_le_nat_alt unat_sub)
next
  case False
  then have "unat (n - d) = 2 ^ LENGTH('a) + unat n - unat d"
    by (simp add: unat_sub_if' word_le_nat_alt)
  moreover have "unat d < 2 ^ LENGTH('a)" by (rule unsigned_less)
  ultimately show ?thesis using False unfolding word_le_nat_alt by linarith
qed

lemma ts_get_hyper_ratchet_wf:
  assumes "toolset_wf rt self"
  shows "ts_get_hyper_ratchet self v = Some r \<Longrightarrow> rt_version rt r = Ok v \<and> rt_get_cid rt r = Ok (ts_cid self)"
    and "(\<exists>r. ts_get_hyper_ratchet self v = Some r) \<longleftrightarrow>
      v - oldest_hyper_ratchet_version self \<le> most_recent_hyper_ratchet_version self - oldest_hyper_ratchet_version self"
proof -
  let ?d = "most_recent_hyper_ratchet_version self - v" and ?n = "word_of_nat (length (ts_map self) - 1) :: u32"
  have n: "unat ?n = length (ts_map self) - 1" "0 < length (ts_map self)"
    using assms by (auto simp: toolset_wf_def unat_of_nat)
  have old: "most_recent_hyper_ratchet_version self - oldest_hyper_ratchet_version self = ?n"
    "v - oldest_hyper_ratchet_version self = ?n - ?d"
    using assms by (simp_all add: toolset_wf_def)
  have "(\<exists>r. ts_get_hyper_ratchet self v = Some r) \<longleftrightarrow> unat ?d < length (ts_map self)"
    by (simp add: ts_get_hyper_ratchet_def get_adjusted_index_def Let_def)
  also have "\<dots> \<longleftrightarrow> ?d \<le> ?n" unfolding word_le_nat_alt n(1) using n(2) by linarith
  finally show "(\<exists>r. ts_get_hyper_ratchet self v = Some r) \<longleftrightarrow>
      v - oldest_hyper_ratchet_version self \<le> most_recent_hyper_ratchet_version self - oldest_hyper_ratchet_version self"
    unfolding old word_diff_le_iff .
  show "ts_get_hyper_ratchet self v = Some r \<Longrightarrow> rt_version rt r = Ok v \<and> rt_get_cid rt r = Ok (ts_cid self)"
    using assms by (auto simp: ts_get_hyper_ratchet_def get_adjusted_index_def toolset_wf_def Let_def split: if_splits)
qed

text \<open>
  The states of a toolset: a new one, and what updates and deregistrations make of it. Toolsets that are decoded
  from stored bytes are not among the starting points. A deque holds fewer than \<open>2\<^sup>3\<^sup>2\<close> ratchets.
\<close>

inductive toolset_reach :: "('r, 'c) ratchet_trait \<Rightarrow> 'r toolset \<Rightarrow> bool" for rt where
  reach_new: "rt_version rt r = Ok 0 \<Longrightarrow> rt_get_cid rt r = Ok cid \<Longrightarrow> toolset_reach rt (toolset_new cid r)"
| reach_update: "toolset_reach rt self \<Longrightarrow> length (ts_map self) < 2 ^ 32 \<Longrightarrow>
    update_from rt self r = Ok (status, self') \<Longrightarrow> toolset_reach rt self'"
| reach_deregister: "toolset_reach rt self \<Longrightarrow> deregister_oldest_hyper_ratchet v self = Ok self' \<Longrightarrow>
    toolset_reach rt self'"

lemma toolset_reach_wf: "toolset_reach rt self \<Longrightarrow> toolset_wf rt self"
  by (induction rule: toolset_reach.induct) (auto intro: toolset_new_wf update_from_wf deregister_oldest_wf)

text \<open>A toolset of two thin ratchets.\<close>

definition demo_thin :: "u32 \<Rightarrow> thin_ratchet" where
  "demo_thin v = \<lparr>tr_drill = demo_new_bank 7 v, tr_pqc = demo_node Alice\<rparr>"

definition demo_exchange_rnd :: exchange_rnd where
  "demo_exchange_rnd = \<lparr>xr_alice = \<lambda>_ _. 0, xr_bob = \<lambda>_ _. 0, xr_banks = \<lambda>_. demo_bank_rnd, xr_stage0_alice = \<lambda>_ _. 0,
     xr_stage0_bob = \<lambda>_ _. 0, xr_seal = \<lambda>_ _. 0\<rparr>"

definition demo_thin_trait :: "(thin_ratchet, thin_ctor) ratchet_trait" where
  "demo_thin_trait = thin_trait demo_lib (demo_ser (demo_new_bank 7 1)) (demo_de (demo_new_bank 7 1)) demo_exchange_rnd"

definition demo_toolset :: "thin_ratchet toolset" where
  "demo_toolset = \<lparr>ts_cid = 7, most_recent_hyper_ratchet_version = 1, oldest_hyper_ratchet_version = 0,
     ts_map = [demo_thin 1, demo_thin 0], static_auxiliary_hyper_ratchet = demo_thin 0\<rparr>"

lemma demo_thin_ids:
  "rt_version demo_thin_trait (demo_thin v) = Ok v" "rt_get_cid demo_thin_trait (demo_thin v) = Ok 7"
  by (simp_all add: demo_thin_trait_def thin_trait_def thin_version_def thin_get_cid_def demo_thin_def demo_new_bank_def)

lemma demo_toolset_reach: "toolset_reach demo_thin_trait demo_toolset"
proof (rule reach_update [OF reach_new])
  show "update_from demo_thin_trait (toolset_new 7 (demo_thin 0)) (demo_thin 1) = Ok (Committed 1, demo_toolset)"
    by (simp add: update_from_iff demo_thin_ids toolset_new_def demo_toolset_def MAX_HYPER_RATCHETS_IN_MEMORY_def)
qed (simp_all add: demo_thin_ids toolset_new_def)

text \<open>
  C29: In every state that a toolset reaches, the lookup of a version gives a ratchet exactly for the versions from
  the oldest to the most recent one, counted around the end of the 32-bit range, and the ratchet it gives has the
  version that was asked for and the owner of the toolset.
\<close>

theorem toolset_window_exact:
  assumes "toolset_reach rt self"
  shows "((\<exists>r. ts_get_hyper_ratchet self v = Some r) \<longleftrightarrow>
      v - oldest_hyper_ratchet_version self \<le> most_recent_hyper_ratchet_version self - oldest_hyper_ratchet_version self) \<and>
    (\<forall>r. ts_get_hyper_ratchet self v = Some r \<longrightarrow> rt_version rt r = Ok v \<and> rt_get_cid rt r = Ok (ts_cid self))"
  using ts_get_hyper_ratchet_wf [OF toolset_reach_wf [OF assms]] by blast

theorem toolset_window_exact_witness:
  "toolset_reach demo_thin_trait demo_toolset \<and> (\<exists>r. ts_get_hyper_ratchet demo_toolset 0 = Some r) \<and>
   (\<exists>r. ts_get_hyper_ratchet demo_toolset 1 = Some r \<and> rt_version demo_thin_trait r = Ok 1) \<and>
   \<not> (\<exists>r. ts_get_hyper_ratchet demo_toolset 2 = Some r) \<and> \<not> (\<exists>r. ts_get_hyper_ratchet demo_toolset (- 1) = Some r)"
proof -
  have "oldest_hyper_ratchet_version demo_toolset = 0" "most_recent_hyper_ratchet_version demo_toolset = 1"
    by (simp_all add: demo_toolset_def)
  note exact = toolset_window_exact [OF demo_toolset_reach, unfolded this]
  have "\<not> (2 :: u32) \<le> 1" "\<not> (- 1 :: u32) \<le> 1" by code_simp+
  then have "\<exists>r. ts_get_hyper_ratchet demo_toolset 0 = Some r" "\<not> (\<exists>r. ts_get_hyper_ratchet demo_toolset 2 = Some r)"
    "\<not> (\<exists>r. ts_get_hyper_ratchet demo_toolset (- 1) = Some r)"
    using exact [of 0] exact [of 2] exact [of "- 1"] by simp_all
  moreover have "\<exists>r. ts_get_hyper_ratchet demo_toolset 1 = Some r \<and> rt_version demo_thin_trait r = Ok 1"
    using exact [of 1] by auto
  ultimately show ?thesis using demo_toolset_reach by simp
qed

text \<open>
  A toolset takes the next version of its owner, puts it in front and drops nothing by itself. When it then holds
  more ratchets than the limit, the oldest version is named in the status, deregistering it succeeds and all others
  are kept; otherwise the limit still holds.
\<close>

theorem update_then_deregister:
  assumes "toolset_wf rt self" and "length (ts_map self) < 2 ^ 32" and "rt_get_cid rt r = Ok (ts_cid self)"
    and "rt_version rt r = Ok (most_recent_hyper_ratchet_version self + 1)"
  shows "\<exists>status self'. update_from rt self r = Ok (status, self') \<and> toolset_wf rt self' \<and>
     ts_map self' = r # ts_map self \<and>
     (case status of
        Committed w \<Rightarrow> w = most_recent_hyper_ratchet_version self' \<and>
          length (ts_map self') \<le> MAX_HYPER_RATCHETS_IN_MEMORY
      | CommittedNeedsSynchronization w x \<Rightarrow> w = most_recent_hyper_ratchet_version self' \<and>
          (\<exists>self''. deregister_oldest_hyper_ratchet x self' = Ok self'' \<and> toolset_wf rt self'' \<and>
             ts_map self'' = r # butlast (ts_map self) \<and> MAX_HYPER_RATCHETS_IN_MEMORY \<le> length (ts_map self'')))"
proof -
  from assms(3,4) obtain status self' where up: "update_from rt self r = Ok (status, self')"
    by (simp add: update_from_iff)
  note wf = update_from_wf [OF assms(1) up assms(2)]
  show ?thesis
  proof (cases "MAX_HYPER_RATCHETS_IN_MEMORY \<le> length (ts_map self)")
    case True
    then obtain self'' where de: "deregister_oldest_hyper_ratchet (oldest_hyper_ratchet_version self) self' = Ok self''"
      using up by (simp add: update_from_iff deregister_oldest_iff)
    from deregister_oldest_wf [OF wf this] up wf de True show ?thesis
      using assms(1) by (auto simp: update_from_iff deregister_oldest_iff toolset_wf_def)
  qed (use up wf in \<open>auto simp: update_from_iff\<close>)
qed

theorem update_then_deregister_witness:
  "\<exists>self'. update_from demo_thin_trait demo_toolset (demo_thin 2) = Ok (Committed 2, self') \<and>
     ts_map self' = [demo_thin 2, demo_thin 1, demo_thin 0]"
proof -
  have "length (ts_map demo_toolset) < 2 ^ 32" "rt_get_cid demo_thin_trait (demo_thin 2) = Ok (ts_cid demo_toolset)"
    "rt_version demo_thin_trait (demo_thin 2) = Ok (most_recent_hyper_ratchet_version demo_toolset + 1)"
    by (simp_all add: demo_toolset_def demo_thin_ids)
  from update_then_deregister [OF toolset_reach_wf [OF demo_toolset_reach] this] obtain status self' where
    up: "update_from demo_thin_trait demo_toolset (demo_thin 2) = Ok (status, self')"
    "ts_map self' = demo_thin 2 # ts_map demo_toolset" by blast
  moreover from up(1) have "status = Committed 2"
    by (simp add: update_from_iff demo_toolset_def MAX_HYPER_RATCHETS_IN_MEMORY_def)
  ultimately show ?thesis by (simp add: demo_toolset_def)
qed

lemma toolset_versions_distinct:
  assumes "toolset_wf rt self" "i < length (ts_map self)"
  shows "rt_version rt (ts_map self ! i) = Ok v \<longleftrightarrow> i = get_adjusted_index self v"
proof -
  have i: "i < 2 ^ 32" using assms by (simp add: toolset_wf_def)
  have "rt_version rt (ts_map self ! i) = Ok v \<longleftrightarrow> word_of_nat i = most_recent_hyper_ratchet_version self - v"
    using assms by (auto simp: toolset_wf_def)
  also have "\<dots> \<longleftrightarrow> i = get_adjusted_index self v"
    using i by (simp add: get_adjusted_index_def word_unat_eq_iff unat_of_nat)
  finally show ?thesis .
qed

text \<open>
  C39: The indexed look-up is a search. In every state a toolset reaches, the ratchet that the index computed from the
  distance of the versions leads to is the one a search through all stored ratchets for that version finds, and both
  find nothing for the same versions; the front and the back of the deque are what a search for the most recent and for
  the oldest version finds.
\<close>

theorem indexed_lookup_is_search:
  assumes "toolset_reach rt self"
  shows "ts_get_hyper_ratchet self v = List.find (\<lambda>r. rt_version rt r = Ok v) (ts_map self) \<and>
    get_most_recent_hyper_ratchet self =
      List.find (\<lambda>r. rt_version rt r = Ok (most_recent_hyper_ratchet_version self)) (ts_map self) \<and>
    get_oldest_hyper_ratchet self =
      List.find (\<lambda>r. rt_version rt r = Ok (oldest_hyper_ratchet_version self)) (ts_map self)"
proof -
  note wf = toolset_reach_wf [OF assms]
  have search: "ts_get_hyper_ratchet self v = List.find (\<lambda>r. rt_version rt r = Ok v) (ts_map self)" for v
  proof (cases "get_adjusted_index self v < length (ts_map self)")
    case True
    then have "List.find (\<lambda>r. rt_version rt r = Ok v) (ts_map self) = Some (ts_map self ! get_adjusted_index self v)"
      unfolding find_Some_iff by (intro exI [of _ "get_adjusted_index self v"]) (auto simp: toolset_versions_distinct [OF wf])
    with True show ?thesis by (simp add: ts_get_hyper_ratchet_def)
  next
    case False
    then have "List.find (\<lambda>r. rt_version rt r = Ok v) (ts_map self) = None"
      using toolset_versions_distinct [OF wf] by (auto simp: find_None_iff in_set_conv_nth)
    with False show ?thesis by (simp add: ts_get_hyper_ratchet_def)
  qed
  have ne: "ts_map self \<noteq> []" and len: "length (ts_map self) \<le> 2 ^ 32"
    and old: "oldest_hyper_ratchet_version self = most_recent_hyper_ratchet_version self - word_of_nat (length (ts_map self) - 1)"
    using wf by (auto simp: toolset_wf_def)
  have "get_most_recent_hyper_ratchet self = ts_get_hyper_ratchet self (most_recent_hyper_ratchet_version self)"
    using ne by (simp add: get_most_recent_hyper_ratchet_def ts_get_hyper_ratchet_def get_adjusted_index_def split: list.split)
  moreover have "get_oldest_hyper_ratchet self = ts_get_hyper_ratchet self (oldest_hyper_ratchet_version self)"
    using ne len by (simp add: get_oldest_hyper_ratchet_def ts_get_hyper_ratchet_def get_adjusted_index_def old unat_of_nat last_conv_nth)
  ultimately show ?thesis by (simp add: search)
qed

theorem indexed_lookup_is_search_witness:
  "ts_get_hyper_ratchet demo_toolset 0 = List.find (\<lambda>r. rt_version demo_thin_trait r = Ok 0) [demo_thin 1, demo_thin 0] \<and>
   ts_get_hyper_ratchet demo_toolset 2 = None"
proof -
  have m: "ts_map demo_toolset = [demo_thin 1, demo_thin 0]" by (simp add: demo_toolset_def)
  from indexed_lookup_is_search [OF demo_toolset_reach, of 0] indexed_lookup_is_search [OF demo_toolset_reach, of 2]
  show ?thesis by (simp add: m demo_thin_ids)
qed

end
