(* ===== verification/Session_Crypto.thy ===== *)
theory Session_Crypto
  imports Toolset
begin

text \<open>
  The session's side of a key update: \<open>PeerSessionCrypto\<close> and \<open>KemTransferStatus\<close> of
  \<open>citadel_crypt/src/endpoint_crypto_container.rs\<close> and the toggle of \<open>citadel_crypt/src/sync_toggle.rs\<close>. The
  container guards its toolset with a flag (an update is in progress, and who set the flag) and counts the version
  that may be used for sending apart from the newest one. An atomic flag shared by clones of the container is
  a field here, since one session owns the container while it updates.
\<close>

section \<open>Atomic flags\<close>

text \<open>\<open>AtomicBool::fetch_nand\<close>: the old value and the new one.\<close>

definition fetch_nand :: "bool \<Rightarrow> bool \<Rightarrow> bool \<times> bool" where
  "fetch_nand val cur = (cur, \<not> (cur \<and> val))"

datatype current_toggle_state = JustToggled | AlreadyToggled | Untoggled

type_synonym sync_toggle = bool

definition sync_toggle_new :: sync_toggle where
  "sync_toggle_new = False"

definition toggle_on_if_untoggled :: "sync_toggle \<Rightarrow> current_toggle_state \<times> sync_toggle" where
  "toggle_on_if_untoggled self =
     (let (old, new) = fetch_nand False self in (if old then AlreadyToggled else JustToggled, new))"

definition toggle_off :: "sync_toggle \<Rightarrow> sync_toggle" where
  "toggle_off self = False"

definition sync_toggle_get :: "sync_toggle \<Rightarrow> current_toggle_state" where
  "sync_toggle_get self = (if self then AlreadyToggled else Untoggled)"

section \<open>The session container\<close>

record 'r session_crypto =
  pc_toolset :: "'r toolset"
  update_in_progress :: bool
  local_is_initiator :: bool
  rolling_object_id :: u32
  rolling_group_id :: u64
  lock_set_by_alice :: "bool option"
  latest_usable_version :: u32

datatype kem_transfer_status =
    StatusNoTransfer update_status
  | KemEmpty
  | Omitted
  | KemSome bob_to_alice_transfer_type update_status

fun requires_truncation :: "kem_transfer_status \<Rightarrow> u32 option" where
  "requires_truncation (StatusNoTransfer (CommittedNeedsSynchronization new_version old_version)) = Some old_version"
| "requires_truncation (KemSome tx (CommittedNeedsSynchronization new_version old_version)) = Some old_version"
| "requires_truncation _ = None"

definition kem_omitted :: "kem_transfer_status \<Rightarrow> bool" where
  "kem_omitted self = (case self of Omitted \<Rightarrow> True | _ \<Rightarrow> False)"

definition kem_has_some :: "kem_transfer_status \<Rightarrow> bool" where
  "kem_has_some self = (case self of KemSome tx status \<Rightarrow> True | _ \<Rightarrow> False)"

definition session_crypto_new :: "'r toolset \<Rightarrow> bool \<Rightarrow> 'r session_crypto" where
  "session_crypto_new toolset is_initiator =
     \<lparr>pc_toolset = toolset, update_in_progress = False, local_is_initiator = is_initiator, rolling_object_id = 1,
      rolling_group_id = 0, lock_set_by_alice = None, latest_usable_version = 0\<rparr>"

definition pc_get_hyper_ratchet :: "'r session_crypto \<Rightarrow> u32 option \<Rightarrow> 'r option" where
  "pc_get_hyper_ratchet self version =
     ts_get_hyper_ratchet (pc_toolset self)
       (case version of Some v \<Rightarrow> v | None \<Rightarrow> latest_usable_version self)"

definition or_drill_error :: "string \<Rightarrow> ('a, unit) result \<Rightarrow> ('a, crypt_error) result" where
  "or_drill_error msg = map_err (\<lambda>_. DrillUpdateError msg)"

lemma or_drill_error_simps [simp]:
  "or_drill_error msg (Ok x) = Ok x" "or_drill_error msg (Err e) = Err (DrillUpdateError msg)"
  "or_drill_error msg Panic = Panic" "or_drill_error msg m = Ok x \<longleftrightarrow> m = Ok x"
  by (simp_all add: or_drill_error_def)

text \<open>A step that fails leaves the container as it was, so only a success returns it.\<close>

definition commit_next_hyper_ratchet_version ::
    "('r, 'c) ratchet_trait \<Rightarrow> 'c \<Rightarrow> u64 \<Rightarrow> bool \<Rightarrow> 'r session_crypto \<Rightarrow>
     ((bob_to_alice_transfer_type option \<times> update_status) \<times> 'r session_crypto, crypt_error) result" where
  "commit_next_hyper_ratchet_version rt newest_version local_cid local_is_alice self =
     (let next_vers = most_recent_hyper_ratchet_version (pc_toolset self) + 1 in
      rbind (or_drill_error ''Unable to progress past update_version'' (rt_update_version rt next_vers newest_version))
        (\<lambda>newest_version.
      rbind (if local_is_alice then Ok None
             else rbind (or_drill_error ''Unable to progress past stage0_bob'' (rt_stage0_bob rt newest_version))
                    (\<lambda>tx. Ok (Some tx))) (\<lambda>transfer.
      rbind (or_drill_error ''Unable to progress past finish_with_custom_cid''
               (rt_finish_with_custom_cid rt local_cid newest_version)) (\<lambda>next_hyper_ratchet.
      rbind (or_drill_error ''Unable to progress past update_from'' (update_from rt (pc_toolset self) next_hyper_ratchet))
        (\<lambda>(status, toolset). Ok ((transfer, status), self\<lparr>pc_toolset := toolset\<rparr>))))))"

definition pc_deregister_oldest_hyper_ratchet ::
    "u32 \<Rightarrow> 'r session_crypto \<Rightarrow> ('r session_crypto, crypt_error) result" where
  "pc_deregister_oldest_hyper_ratchet version self =
     rbind (deregister_oldest_hyper_ratchet version (pc_toolset self)) (\<lambda>toolset. Ok (self\<lparr>pc_toolset := toolset\<rparr>))"

definition update_sync_safe ::
    "('r, 'c) ratchet_trait \<Rightarrow> 'c \<Rightarrow> bool \<Rightarrow> u64 \<Rightarrow> 'r session_crypto \<Rightarrow>
     (kem_transfer_status, crypt_error) result \<times> 'r session_crypto" where
  "update_sync_safe rt ctor local_is_alice local_cid self =
     (if update_in_progress self \<and> \<not> local_is_alice \<and> local_is_initiator self then (Ok Omitted, self)
      else case commit_next_hyper_ratchet_version rt ctor local_cid local_is_alice self of
          Err e \<Rightarrow> (Err e, self)
        | Panic \<Rightarrow> (Panic, self)
        | Ok ((transfer, status), self) \<Rightarrow>
            (case transfer of
               None \<Rightarrow>
                 (if \<not> local_is_alice
                  then (Err (DrillUpdateError ''Local is not alice, yet, conflicting program state''), self)
                  else (Ok (StatusNoTransfer status), self))
             | Some transfer \<Rightarrow>
                 (Ok (KemSome transfer status),
                  if \<not> local_is_alice \<and> kem_has_some (KemSome transfer status)
                  then self\<lparr>update_in_progress := True, lock_set_by_alice := Some False\<rparr> else self)))"

definition maybe_unlock :: "bool \<Rightarrow> 'r session_crypto \<Rightarrow> 'r option \<times> 'r session_crypto" where
  "maybe_unlock requires_locked_by_alice self =
     (let unlocked = self\<lparr>update_in_progress := snd (fetch_nand True (update_in_progress self)),
                          lock_set_by_alice := None\<rparr>;
          self = (if requires_locked_by_alice
                  then (if lock_set_by_alice self = Some True then unlocked else self)
                  else unlocked)
      in (pc_get_hyper_ratchet self None, self))"

definition post_alice_stage1_or_post_stage1_bob :: "'r session_crypto \<Rightarrow> 'r session_crypto" where
  "post_alice_stage1_or_post_stage1_bob self = self\<lparr>latest_usable_version := latest_usable_version self + 1\<rparr>"

definition get_and_increment_group_id :: "'r session_crypto \<Rightarrow> u64 \<times> 'r session_crypto" where
  "get_and_increment_group_id self =
     (let self = self\<lparr>rolling_group_id := rolling_group_id self + 1\<rparr> in (rolling_group_id self - 1, self))"

definition get_and_increment_object_id :: "'r session_crypto \<Rightarrow> u32 \<times> 'r session_crypto" where
  "get_and_increment_object_id self =
     (let self = self\<lparr>rolling_object_id := rolling_object_id self + 1\<rparr> in (rolling_object_id self - 1, self))"

definition get_next_constructor ::
    "('r, 'c) ratchet_trait \<Rightarrow> bool \<Rightarrow> 'r session_crypto \<Rightarrow> ('c, unit) result \<times> 'r session_crypto" where
  "get_next_constructor rt force self =
     (if \<not> force \<and> update_in_progress self then (Err (), self)
      else
        let self = self\<lparr>update_in_progress := True, lock_set_by_alice := Some True\<rparr> in
        (rbind (ok_or () (pc_get_hyper_ratchet self None)) (rt_next_alice_constructor rt), self))"

definition refresh_state :: "'r session_crypto \<Rightarrow> 'r session_crypto" where
  "refresh_state self =
     self\<lparr>update_in_progress := False, lock_set_by_alice := None, rolling_group_id := 0, rolling_object_id := 0\<rparr>"

definition get_default_params :: "('r, 'c) ratchet_trait \<Rightarrow> 'r session_crypto \<Rightarrow> (crypto_parameters, unit) result" where
  "get_default_params rt self = rt_params rt (static_auxiliary_hyper_ratchet (pc_toolset self))"

end
