(* ===== verification/Packet_Crafter.thy ===== *)
theory Packet_Crafter
  imports Hdp_Packet Session_Crypto Scrambler
begin

text \<open>
  The packets the protocol sends, \<open>citadel_proto/src/proto/packet_crafter.rs\<close>, and what the receiver reads out of a payload,
  \<open>citadel_proto/src/proto/validation.rs\<close>. Almost every packet is a header, a serialised payload, and the seal
  of the ratchet over both. Payloads are serialised by bincode, given as \<open>ser\<close> and \<open>de\<close>; a failure is
  unwrapped by the code, so crafting returns the packet or panics. Payload types that belong to
  other layers (credentials, node types, metadata) are type variables.
\<close>

section \<open>Commands\<close>

abbreviation (input) KEEP_ALIVE :: u8 where "KEEP_ALIVE \<equiv> 0"
abbreviation (input) DO_CONNECT :: u8 where "DO_CONNECT \<equiv> 1"
abbreviation (input) GROUP_PACKET :: u8 where "GROUP_PACKET \<equiv> 2"
abbreviation (input) DO_REGISTER :: u8 where "DO_REGISTER \<equiv> 3"
abbreviation (input) DO_DISCONNECT :: u8 where "DO_DISCONNECT \<equiv> 4"
abbreviation (input) DO_DRILL_UPDATE :: u8 where "DO_DRILL_UPDATE \<equiv> 5"
abbreviation (input) DO_DEREGISTER :: u8 where "DO_DEREGISTER \<equiv> 6"
abbreviation (input) DO_PRE_CONNECT :: u8 where "DO_PRE_CONNECT \<equiv> 7"
abbreviation (input) PEER_CMD :: u8 where "PEER_CMD \<equiv> 8"
abbreviation (input) FILE_CMD :: u8 where "FILE_CMD \<equiv> 9"
abbreviation (input) UDP_CMD :: u8 where "UDP_CMD \<equiv> 10"
abbreviation (input) HOLE_PUNCH_CMD :: u8 where "HOLE_PUNCH_CMD \<equiv> 11"

abbreviation (input) GROUP_HEADER :: u8 where "GROUP_HEADER \<equiv> 0"
abbreviation (input) GROUP_HEADER_ACK :: u8 where "GROUP_HEADER_ACK \<equiv> 1"
abbreviation (input) GROUP_PAYLOAD :: u8 where "GROUP_PAYLOAD \<equiv> 2"
abbreviation (input) WAVE_ACK :: u8 where "WAVE_ACK \<equiv> 3"

abbreviation (input) CONNECT_STAGE0 :: u8 where "CONNECT_STAGE0 \<equiv> 0"
abbreviation (input) CONNECT_SUCCESS :: u8 where "CONNECT_SUCCESS \<equiv> 3"
abbreviation (input) CONNECT_FAILURE :: u8 where "CONNECT_FAILURE \<equiv> 4"
abbreviation (input) CONNECT_SUCCESS_ACK :: u8 where "CONNECT_SUCCESS_ACK \<equiv> 5"

abbreviation (input) REGISTER_STAGE0 :: u8 where "REGISTER_STAGE0 \<equiv> 0"
abbreviation (input) REGISTER_STAGE1 :: u8 where "REGISTER_STAGE1 \<equiv> 1"
abbreviation (input) REGISTER_STAGE2 :: u8 where "REGISTER_STAGE2 \<equiv> 2"
abbreviation (input) REGISTER_SUCCESS :: u8 where "REGISTER_SUCCESS \<equiv> 5"
abbreviation (input) REGISTER_FAILURE :: u8 where "REGISTER_FAILURE \<equiv> 6"

abbreviation (input) DISCONNECT_STAGE0 :: u8 where "DISCONNECT_STAGE0 \<equiv> 0"
abbreviation (input) DISCONNECT_FINAL :: u8 where "DISCONNECT_FINAL \<equiv> 1"

abbreviation (input) DRILL_STAGE0 :: u8 where "DRILL_STAGE0 \<equiv> 0"
abbreviation (input) DRILL_STAGE1 :: u8 where "DRILL_STAGE1 \<equiv> 1"
abbreviation (input) DRILL_TRUNCATE :: u8 where "DRILL_TRUNCATE \<equiv> 2"
abbreviation (input) DRILL_TRUNCATE_ACK :: u8 where "DRILL_TRUNCATE_ACK \<equiv> 3"

abbreviation (input) DEREGISTER_SUCCESS :: u8 where "DEREGISTER_SUCCESS \<equiv> 3"
abbreviation (input) DEREGISTER_FAILURE :: u8 where "DEREGISTER_FAILURE \<equiv> 4"

abbreviation (input) PRECONNECT_SYN :: u8 where "PRECONNECT_SYN \<equiv> 0"
abbreviation (input) PRECONNECT_SYN_ACK :: u8 where "PRECONNECT_SYN_ACK \<equiv> 1"
abbreviation (input) PRECONNECT_STAGE0 :: u8 where "PRECONNECT_STAGE0 \<equiv> 2"
abbreviation (input) PRECONNECT_SUCCESS :: u8 where "PRECONNECT_SUCCESS \<equiv> 6"
abbreviation (input) PRECONNECT_FAILURE :: u8 where "PRECONNECT_FAILURE \<equiv> 7"
abbreviation (input) PRECONNECT_BEGIN_CONNECT :: u8 where "PRECONNECT_BEGIN_CONNECT \<equiv> 8"
abbreviation (input) PRECONNECT_HALT :: u8 where "PRECONNECT_HALT \<equiv> 10"
abbreviation (input) TCP_ONLY :: u8 where "TCP_ONLY \<equiv> 1"

abbreviation (input) PEER_SIGNAL :: u8 where "PEER_SIGNAL \<equiv> 0"
abbreviation (input) PEER_CHANNEL :: u8 where "PEER_CHANNEL \<equiv> 1"
abbreviation (input) PEER_GROUP_BROADCAST :: u8 where "PEER_GROUP_BROADCAST \<equiv> 2"

abbreviation (input) FILE_HEADER :: u8 where "FILE_HEADER \<equiv> 0"
abbreviation (input) FILE_HEADER_ACK :: u8 where "FILE_HEADER_ACK \<equiv> 1"

abbreviation (input) UDP_HOLE_PUNCH :: u8 where "UDP_HOLE_PUNCH \<equiv> 2"

definition BUILD_VERSION :: nat where "BUILD_VERSION = 7463"

definition C2S_ENCRYPTION_ONLY :: u64 where "C2S_ENCRYPTION_ONLY = 0"

type_synonym ticket = u128

datatype virtual_connection_type =
    LocalGroupPeer u64 u64
  | ExternalGroupPeer u64 u64 u64
  | LocalGroupServer u64
  | ExternalGroupServer u64 u64

fun get_target_cid :: "virtual_connection_type \<Rightarrow> u64" where
  "get_target_cid (LocalGroupServer cid) = 0"
| "get_target_cid (LocalGroupPeer implicated_cid target) = target"
| "get_target_cid (ExternalGroupPeer implicated_cid icid target) = target"
| "get_target_cid (ExternalGroupServer implicated_cid icid) = icid"

fun get_implicated_cid :: "virtual_connection_type \<Rightarrow> u64" where
  "get_implicated_cid (LocalGroupServer cid) = cid"
| "get_implicated_cid (LocalGroupPeer implicated_cid target) = implicated_cid"
| "get_implicated_cid (ExternalGroupPeer implicated_cid icid target) = implicated_cid"
| "get_implicated_cid (ExternalGroupServer implicated_cid icid) = implicated_cid"

fun set_target_cid :: "u64 \<Rightarrow> virtual_connection_type \<Rightarrow> virtual_connection_type" where
  "set_target_cid cid (LocalGroupPeer implicated_cid target) = LocalGroupPeer implicated_cid cid"
| "set_target_cid cid (ExternalGroupPeer implicated_cid icid target) = ExternalGroupPeer implicated_cid icid cid"
| "set_target_cid cid self = self"

section \<open>Header, payload, seal\<close>

type_synonym 'a serializer = "'a \<Rightarrow> (bytes, string) result"
type_synonym 'a deserializer = "bytes \<Rightarrow> ('a, string) result"
type_synonym rnds = "nat \<Rightarrow> rnd"
type_synonym crafted = "(bytes, unit) result \<times> stacked_ratchet"

text \<open>The identity of a packet comes from the ratchet that seals it; reading it panics for a ratchet without layers.\<close>

definition header_for ::
    "stacked_ratchet \<Rightarrow> u8 \<Rightarrow> u8 \<Rightarrow> u8 \<Rightarrow> security_level \<Rightarrow> u128 \<Rightarrow>
     u64 \<Rightarrow> u32 \<Rightarrow> i64 \<Rightarrow> u64 \<Rightarrow>
     (hdp_header, unit) result" where
  "header_for hr primary aux alg level info grp wave ts target =
     rbind (sr_get_cid hr) (\<lambda>cid.
     rbind (sr_version hr) (\<lambda>version.
     Ok \<lparr>cmd_primary = primary, cmd_aux = aux, hh_algorithm = alg, hh_security_level = level_value level,
         context_info = info, hh_group = grp, hh_wave_id = wave, session_cid = cid, drill_version = version,
         hh_timestamp = ts, target_cid = target\<rparr>))"

text \<open>Before a ratchet exists a header carries a proposed identity.\<close>

definition plain_header :: "u8 \<Rightarrow> u8 \<Rightarrow> u8 \<Rightarrow> i64 \<Rightarrow> u64 \<Rightarrow> hdp_header" where
  "plain_header primary aux alg ts cid =
     \<lparr>cmd_primary = primary, cmd_aux = aux, hh_algorithm = alg, hh_security_level = 0, context_info = 0, hh_group = 0,
      hh_wave_id = 0, session_cid = cid, drill_version = 0, hh_timestamp = ts, target_cid = 0\<rparr>"

definition seal_packet ::
    "rnds \<Rightarrow> stacked_ratchet \<Rightarrow> security_level \<Rightarrow> bytes \<Rightarrow> crafted" where
  "seal_packet rs hr level packet =
     (let (res, hr') = protect_message_packet rs hr (Some level) HDP_HEADER_BYTE_LEN packet in (unwrap (ok res), hr'))"

definition craft ::
    "rnds \<Rightarrow> stacked_ratchet \<Rightarrow> security_level \<Rightarrow> (hdp_header, unit) result \<Rightarrow>
     (bytes, string) result \<Rightarrow> crafted" where
  "craft rs hr level header payload =
     (case header of
        Ok h \<Rightarrow> (case payload of Ok body \<Rightarrow> seal_packet rs hr level (inscribe_into h [] @ body) | _ \<Rightarrow> (Panic, hr))
      | _ \<Rightarrow> (Panic, hr))"

definition craft_plain :: "hdp_header \<Rightarrow> (bytes, string) result \<Rightarrow> (bytes, unit) result" where
  "craft_plain header payload = rbind (unwrap (ok payload)) (\<lambda>body. Ok (inscribe_into header [] @ body))"


section \<open>Key updates\<close>

definition drill_craft_stage0 ::
    "alice_to_bob_transfer serializer \<Rightarrow> rnds \<Rightarrow> stacked_ratchet \<Rightarrow>
     alice_to_bob_transfer \<Rightarrow> i64 \<Rightarrow> u64 \<Rightarrow> security_level \<Rightarrow> crafted" where
  "drill_craft_stage0 ser rs hr transfer timestamp target level =
     craft rs hr level
       (header_for hr DO_DRILL_UPDATE DRILL_STAGE0 0 level 0 0 0 timestamp target)
       (ser transfer)"

definition drill_craft_stage1 ::
    "kem_transfer_status serializer \<Rightarrow> rnds \<Rightarrow> stacked_ratchet \<Rightarrow> kem_transfer_status \<Rightarrow>
     i64 \<Rightarrow> u64 \<Rightarrow> security_level \<Rightarrow> crafted" where
  "drill_craft_stage1 ser rs hr update_status timestamp target level =
     craft rs hr level
       (header_for hr DO_DRILL_UPDATE DRILL_STAGE1 0 level 0 0 0 timestamp target)
       (ser update_status)"

definition drill_craft_truncate ::
    "(u32 option) serializer \<Rightarrow> rnds \<Rightarrow> stacked_ratchet \<Rightarrow> u32 option \<Rightarrow> u64 \<Rightarrow>
     i64 \<Rightarrow> security_level \<Rightarrow> crafted" where
  "drill_craft_truncate ser rs hr truncate_version target timestamp level =
     craft rs hr level
       (header_for hr DO_DRILL_UPDATE DRILL_TRUNCATE 0 level 0 0 0 timestamp target)
       (ser truncate_version)"

definition drill_craft_truncate_ack ::
    "u32 serializer \<Rightarrow> rnds \<Rightarrow> stacked_ratchet \<Rightarrow> u32 \<Rightarrow> u64 \<Rightarrow>
     i64 \<Rightarrow> security_level \<Rightarrow> crafted" where
  "drill_craft_truncate_ack ser rs hr truncated_version target timestamp level =
     craft rs hr level
       (header_for hr DO_DRILL_UPDATE DRILL_TRUNCATE_ACK 0 level 0 0 0 timestamp target)
       (ser truncated_version)"


section \<open>Groups\<close>

datatype group_header_ack =
    ReadyToReceive bool "(u32 \<times> u32) option" kem_transfer_status
  | NotReady bool

definition craft_group_header_ack ::
    "group_header_ack serializer \<Rightarrow> rnds \<Rightarrow> stacked_ratchet \<Rightarrow> u32 \<Rightarrow> u64 \<Rightarrow>
     u64 \<Rightarrow> ticket \<Rightarrow> (u32 \<times> u32) option \<Rightarrow> bool \<Rightarrow> i64 \<Rightarrow>
     kem_transfer_status \<Rightarrow> security_level \<Rightarrow> crafted" where
  "craft_group_header_ack ser rs hr object_id group_id target ticket initial_wave_window fast_msg timestamp transfer level =
     craft rs hr level
       (header_for hr GROUP_PACKET GROUP_HEADER_ACK 0 level ticket group_id object_id timestamp target)
       
       (ser (ReadyToReceive fast_msg initial_wave_window transfer))"

text \<open>The header of a payload packet carries the identity of the scramble bank and the two port offsets.\<close>

definition craft_wave_payload_packet_into :: header_inscriber where
  "craft_wave_payload_packet_into coords scramble_drill object_id target =
     inscribe_into
       \<lparr>cmd_primary = GROUP_PACKET, cmd_aux = GROUP_PAYLOAD, hh_algorithm = 0, hh_security_level = 0,
        context_info = ucast object_id, hh_group = pv_group_id coords, hh_wave_id = pv_wave_id coords,
        session_cid = eb_cid scramble_drill, drill_version = eb_version scramble_drill, hh_timestamp = 0,
        target_cid = target\<rparr> [] @ [ucast (pv_local_port coords), ucast (pv_remote_port coords)]"

definition craft_wave_ack ::
    "((u32 \<times> u32) option) serializer \<Rightarrow> rnds \<Rightarrow> stacked_ratchet \<Rightarrow> u32 \<Rightarrow>
     u64 \<Rightarrow> u64 \<Rightarrow> u32 \<Rightarrow> i64 \<Rightarrow> (u32 \<times> u32) option \<Rightarrow>
     security_level \<Rightarrow> crafted" where
  "craft_wave_ack ser rs hr object_id target group_id wave_id timestamp window level =
     craft rs hr level
       (header_for hr GROUP_PACKET WAVE_ACK 0 level (ucast object_id) group_id wave_id timestamp target)
       (ser window)"


section \<open>Connections\<close>

definition connect_craft_stage0 ::
    "'cred serializer \<Rightarrow> rnds \<Rightarrow> stacked_ratchet \<Rightarrow> 'cred \<Rightarrow> i64 \<Rightarrow>
     security_level \<Rightarrow> crafted" where
  "connect_craft_stage0 ser rs hr proposed_credentials timestamp level =
     craft rs hr level
       (header_for hr DO_CONNECT CONNECT_STAGE0 0 level 0 0 0 timestamp 0)
       (ser proposed_credentials)"

definition connect_craft_final_status ::
    "('mail option \<times> 'peer list \<times> 'obj \<times> bytes) serializer \<Rightarrow> rnds \<Rightarrow> stacked_ratchet \<Rightarrow>
     bool \<Rightarrow> 'mail option \<Rightarrow> 'obj \<Rightarrow> bytes \<Rightarrow> 'peer list \<Rightarrow> i64 \<Rightarrow>
     security_level \<Rightarrow> crafted" where
  "connect_craft_final_status ser rs hr success mailbox post_login_object message peers timestamp level =
     craft rs hr level
       (header_for hr DO_CONNECT (if success then CONNECT_SUCCESS else CONNECT_FAILURE) 0 level 0 0 0 timestamp 0)
       (ser (mailbox, peers, post_login_object, message))"

definition connect_craft_success_ack ::
    "rnds \<Rightarrow> stacked_ratchet \<Rightarrow> i64 \<Rightarrow> security_level \<Rightarrow> crafted" where
  "connect_craft_success_ack rs hr timestamp level =
     craft rs hr level (header_for hr DO_CONNECT CONNECT_SUCCESS_ACK 0 level 0 0 0 timestamp 0) (Ok [])"

definition craft_keep_alive_packet ::
    "rnds \<Rightarrow> stacked_ratchet \<Rightarrow> i64 \<Rightarrow> security_level \<Rightarrow> crafted" where
  "craft_keep_alive_packet rs hr timestamp level =
     craft rs hr level (header_for hr KEEP_ALIVE 0 0 level 0 0 0 timestamp 0) (Ok [])"

definition disconnect_craft_stage0 ::
    "rnds \<Rightarrow> stacked_ratchet \<Rightarrow> ticket \<Rightarrow> i64 \<Rightarrow> security_level \<Rightarrow>
     crafted" where
  "disconnect_craft_stage0 rs hr ticket timestamp level =
     craft rs hr level (header_for hr DO_DISCONNECT DISCONNECT_STAGE0 0 level ticket 0 0 timestamp 0) (Ok [])"

definition disconnect_craft_final ::
    "rnds \<Rightarrow> stacked_ratchet \<Rightarrow> ticket \<Rightarrow> i64 \<Rightarrow> security_level \<Rightarrow>
     crafted" where
  "disconnect_craft_final rs hr ticket timestamp level =
     craft rs hr level (header_for hr DO_DISCONNECT DISCONNECT_FINAL 0 level ticket 0 0 timestamp 0) (Ok [])"

text \<open>The code takes the auxiliary command from the key updates; the number is the same.\<close>

definition deregister_craft_stage0 ::
    "rnds \<Rightarrow> stacked_ratchet \<Rightarrow> i64 \<Rightarrow> security_level \<Rightarrow> crafted" where
  "deregister_craft_stage0 rs hr timestamp level =
     craft rs hr level (header_for hr DO_DEREGISTER DRILL_STAGE0 0 level 0 0 0 timestamp 0) (Ok [])"

definition deregister_craft_final ::
    "rnds \<Rightarrow> stacked_ratchet \<Rightarrow> bool \<Rightarrow> i64 \<Rightarrow> security_level \<Rightarrow>
     crafted" where
  "deregister_craft_final rs hr success timestamp level =
     craft rs hr level
       (header_for hr DO_DEREGISTER (if success then DEREGISTER_SUCCESS else DEREGISTER_FAILURE) 0 level
         0 0 0 timestamp 0)
       (Ok [])"


section \<open>Registration\<close>

definition register_craft_stage0 ::
    "(alice_to_bob_transfer \<times> bool) serializer \<Rightarrow> u8 \<Rightarrow> i64 \<Rightarrow> alice_to_bob_transfer \<Rightarrow>
     bool \<Rightarrow> u64 \<Rightarrow> (bytes, unit) result" where
  "register_craft_stage0 ser alg timestamp transfer passwordless proposed_cid =
     craft_plain (plain_header DO_REGISTER REGISTER_STAGE0 alg timestamp proposed_cid) (ser (transfer, passwordless))"

definition register_craft_stage1 ::
    "bob_to_alice_transfer serializer \<Rightarrow> u8 \<Rightarrow> i64 \<Rightarrow> bob_to_alice_transfer \<Rightarrow>
     u64 \<Rightarrow> (bytes, unit) result" where
  "register_craft_stage1 ser alg timestamp transfer proposed_cid =
     craft_plain (plain_header DO_REGISTER REGISTER_STAGE1 alg timestamp proposed_cid) (ser transfer)"

definition register_craft_failure ::
    "u8 \<Rightarrow> i64 \<Rightarrow> bytes \<Rightarrow> u64 \<Rightarrow> (bytes, unit) result" where
  "register_craft_failure alg timestamp error_message proposed_cid =
     craft_plain (plain_header DO_REGISTER REGISTER_FAILURE alg timestamp proposed_cid) (Ok error_message)"

text \<open>The two sealed packets of a registration carry version 0, whatever the version of the ratchet.\<close>

definition register_header ::
    "stacked_ratchet \<Rightarrow> u8 \<Rightarrow> u8 \<Rightarrow> i64 \<Rightarrow> security_level \<Rightarrow>
     (hdp_header, unit) result" where
  "register_header hr aux alg timestamp level =
     rbind (sr_get_cid hr) (\<lambda>cid.
     Ok ((plain_header DO_REGISTER aux alg timestamp cid)\<lparr>hh_security_level := level_value level\<rparr>))"

definition register_craft_stage2 ::
    "'cred serializer \<Rightarrow> rnds \<Rightarrow> stacked_ratchet \<Rightarrow> u8 \<Rightarrow> i64 \<Rightarrow>
     'cred \<Rightarrow> security_level \<Rightarrow> crafted" where
  "register_craft_stage2 ser rs hr alg timestamp credentials level =
     craft rs hr level (register_header hr REGISTER_STAGE2 alg timestamp level) (ser credentials)"

definition register_craft_success ::
    "rnds \<Rightarrow> stacked_ratchet \<Rightarrow> u8 \<Rightarrow> i64 \<Rightarrow> bytes \<Rightarrow>
     security_level \<Rightarrow> crafted" where
  "register_craft_success rs hr alg timestamp success_message level =
     craft rs hr level (register_header hr REGISTER_SUCCESS alg timestamp level) (Ok success_message)"


section \<open>Before a connection\<close>

record ('settings, 'proto, 'mode, 'nat, 'udp) syn_packet =
  syn_transfer :: alice_to_bob_transfer
  syn_session_security_settings :: 'settings
  syn_peer_only_connect_protocol :: 'proto
  syn_connect_mode :: 'mode
  syn_nat_type :: 'nat
  syn_udp_mode :: 'udp
  syn_keep_alive_timeout :: i64

definition preconnect_craft_syn ::
    "('settings, 'proto, 'mode, 'nat, 'udp) syn_packet serializer \<Rightarrow> rnds \<Rightarrow> stacked_ratchet \<Rightarrow>
     ('settings, 'proto, 'mode, 'nat, 'udp) syn_packet \<Rightarrow> i64 \<Rightarrow> security_level \<Rightarrow>
     crafted" where
  "preconnect_craft_syn ser rs hr packet timestamp level =
     craft rs hr level
       (header_for hr DO_PRE_CONNECT PRECONNECT_SYN 0 level 0 (word_of_nat BUILD_VERSION) 0 timestamp 0) (ser packet)"

definition preconnect_craft_syn_ack ::
    "(bob_to_alice_transfer \<times> 'nat) serializer \<Rightarrow> rnds \<Rightarrow> stacked_ratchet \<Rightarrow>
     bob_to_alice_transfer \<Rightarrow> 'nat \<Rightarrow> i64 \<Rightarrow> security_level \<Rightarrow>
     crafted" where
  "preconnect_craft_syn_ack ser rs hr transfer nat_type timestamp level =
     craft rs hr level
       (header_for hr DO_PRE_CONNECT PRECONNECT_SYN_ACK 0 level 0 0 0 timestamp 0)
       (ser (transfer, nat_type))"

definition preconnect_craft_stage0 ::
    "'node serializer \<Rightarrow> rnds \<Rightarrow> stacked_ratchet \<Rightarrow> i64 \<Rightarrow> 'node \<Rightarrow>
     security_level \<Rightarrow> crafted" where
  "preconnect_craft_stage0 ser rs hr timestamp node_type level =
     craft rs hr level
       (header_for hr DO_PRE_CONNECT PRECONNECT_STAGE0 0 level 0 0 0 timestamp 0)
       (ser node_type)"

definition preconnect_craft_stage_final ::
    "rnds \<Rightarrow> stacked_ratchet \<Rightarrow> bool \<Rightarrow> bool \<Rightarrow> i64 \<Rightarrow>
     security_level \<Rightarrow> crafted" where
  "preconnect_craft_stage_final rs hr success tcp_only timestamp level =
     craft rs hr level
       (header_for hr DO_PRE_CONNECT (if success then PRECONNECT_SUCCESS else PRECONNECT_FAILURE) (if tcp_only then TCP_ONLY else 0) level
         0 0 0 timestamp 0)
       (Ok [])"

definition preconnect_craft_begin_connect ::
    "rnds \<Rightarrow> stacked_ratchet \<Rightarrow> i64 \<Rightarrow> security_level \<Rightarrow> crafted" where
  "preconnect_craft_begin_connect rs hr timestamp level =
     craft rs hr level
       (header_for hr DO_PRE_CONNECT PRECONNECT_BEGIN_CONNECT 0 level 0 0 0 timestamp 0)
       (Ok [])"

definition preconnect_craft_halt ::
    "hdp_header \<Rightarrow> bytes \<Rightarrow> (bytes, unit) result" where
  "preconnect_craft_halt prev_header fail_reason =
     craft_plain (prev_header\<lparr>cmd_primary := DO_PRE_CONNECT, cmd_aux := PRECONNECT_HALT, hh_algorithm := 0,
       hh_security_level := 0, target_cid := 0\<rparr>) (Ok fail_reason)"


section \<open>Peers, files, datagrams\<close>

definition craft_peer_signal ::
    "'cmd serializer \<Rightarrow> rnds \<Rightarrow> stacked_ratchet \<Rightarrow> 'cmd \<Rightarrow> ticket \<Rightarrow>
     i64 \<Rightarrow> security_level \<Rightarrow> crafted" where
  "craft_peer_signal ser rs hr peer_command ticket timestamp level =
     craft rs hr level
       (header_for hr PEER_CMD PEER_SIGNAL 0 level ticket 0 0 timestamp C2S_ENCRYPTION_ONLY)
       (ser peer_command)"

definition craft_peer_signal_endpoint ::
    "'cmd serializer \<Rightarrow> rnds \<Rightarrow> stacked_ratchet \<Rightarrow> 'cmd \<Rightarrow> ticket \<Rightarrow>
     i64 \<Rightarrow> u64 \<Rightarrow> security_level \<Rightarrow> crafted" where
  "craft_peer_signal_endpoint ser rs hr peer_command ticket timestamp target level =
     craft rs hr level
       (header_for hr PEER_CMD PEER_SIGNAL 0 level ticket 0 0 timestamp target)
       (ser peer_command)"

definition craft_channel_packet ::
    "'chan serializer \<Rightarrow> rnds \<Rightarrow> stacked_ratchet \<Rightarrow> 'chan \<Rightarrow> ticket \<Rightarrow>
     u64 \<Rightarrow> i64 \<Rightarrow> security_level \<Rightarrow> crafted" where
  "craft_channel_packet ser rs hr payload ticket proxy_target_cid timestamp level =
     craft rs hr level
       (header_for hr PEER_CMD PEER_CHANNEL 0 level ticket 0 0 timestamp proxy_target_cid)
       (ser payload)"

definition craft_group_message_packet ::
    "'bcast serializer \<Rightarrow> rnds \<Rightarrow> stacked_ratchet \<Rightarrow> 'bcast \<Rightarrow> ticket \<Rightarrow>
     u64 \<Rightarrow> i64 \<Rightarrow> security_level \<Rightarrow> crafted" where
  "craft_group_message_packet ser rs hr payload ticket proxy_target_cid timestamp level =
     craft rs hr level
       (header_for hr PEER_CMD PEER_GROUP_BROADCAST 0 level ticket 0 0 timestamp proxy_target_cid)
       (ser payload)"

text \<open>The length of the serialised target goes into the wave field, cut to 32 bits.\<close>

definition craft_file_header_packet ::
    "virtual_connection_type serializer \<Rightarrow> 'meta serializer \<Rightarrow> rnds \<Rightarrow> stacked_ratchet \<Rightarrow>
     u64 \<Rightarrow> ticket \<Rightarrow> security_level \<Rightarrow> virtual_connection_type \<Rightarrow> 'meta \<Rightarrow>
     i64 \<Rightarrow> crafted" where
  "craft_file_header_packet ser_vt ser_meta rs hr group_start ticket level virtual_target file_metadata timestamp =
     (case (ser_meta file_metadata, ser_vt virtual_target) of
        (Ok meta, Ok vt) \<Rightarrow>
          craft rs hr level
            (header_for hr FILE_CMD FILE_HEADER 0 level ticket group_start (word_of_nat (length vt)) timestamp
               (get_target_cid virtual_target)) (Ok (vt @ meta))
      | _ \<Rightarrow> (Panic, hr))"

definition craft_file_header_ack_packet ::
    "virtual_connection_type serializer \<Rightarrow> rnds \<Rightarrow> stacked_ratchet \<Rightarrow> bool \<Rightarrow>
     u32 \<Rightarrow> u64 \<Rightarrow> ticket \<Rightarrow> security_level \<Rightarrow> virtual_connection_type \<Rightarrow>
     i64 \<Rightarrow> crafted" where
  "craft_file_header_ack_packet ser_vt rs hr success object_id target ticket level virtual_target timestamp =
     craft rs hr level
       (header_for hr FILE_CMD FILE_HEADER_ACK 0 level ticket (if success then 1 else 0) object_id timestamp target)
       (ser_vt virtual_target)"

definition craft_udp_packet ::
    "rnds \<Rightarrow> stacked_ratchet \<Rightarrow> u8 \<Rightarrow> bytes \<Rightarrow> u64 \<Rightarrow>
     security_level \<Rightarrow> crafted" where
  "craft_udp_packet rs hr aux payload target level =
     craft rs hr level (header_for hr UDP_CMD aux 0 level 0 0 0 0 target) (Ok payload)"

definition hole_punch_generate_packet ::
    "rnds \<Rightarrow> stacked_ratchet \<Rightarrow> bytes \<Rightarrow> security_level \<Rightarrow> u64 \<Rightarrow>
     crafted" where
  "hole_punch_generate_packet rs hr plaintext level target =
     craft rs hr level (header_for hr HOLE_PUNCH_CMD UDP_HOLE_PUNCH 0 level 0 0 0 0 target) (Ok plaintext)"

definition hole_punch_decrypt_packet ::
    "stacked_ratchet \<Rightarrow> bytes \<Rightarrow> security_level \<Rightarrow> crafted" where
  "hole_punch_decrypt_packet hr packet level =
     (if length packet < HDP_HEADER_BYTE_LEN then (Err (), hr)
      else
        let (res, hr') = validate_message_packet hr (Some level) (take HDP_HEADER_BYTE_LEN packet)
                           (drop HDP_HEADER_BYTE_LEN packet)
        in (discard_err res, hr'))"

section \<open>Reading payloads\<close>

definition drill_validate_stage0 :: "alice_to_bob_transfer deserializer \<Rightarrow> bytes \<Rightarrow> (alice_to_bob_transfer, unit) result" where
  "drill_validate_stage0 de payload = discard_err (de payload)"

definition drill_validate_stage1 :: "kem_transfer_status deserializer \<Rightarrow> bytes \<Rightarrow> (kem_transfer_status, unit) result" where
  "drill_validate_stage1 de payload = discard_err (de payload)"

definition drill_validate_truncate :: "(u32 option) deserializer \<Rightarrow> bytes \<Rightarrow> (u32 option, unit) result" where
  "drill_validate_truncate de payload = discard_err (de payload)"

definition drill_validate_truncate_ack :: "u32 deserializer \<Rightarrow> bytes \<Rightarrow> (u32, unit) result" where
  "drill_validate_truncate_ack de payload = discard_err (de payload)"

definition MAX_BYTES_PER_GROUP :: nat where "MAX_BYTES_PER_GROUP = 1024 * 1024 * 10"

definition group_validate_header ::
    "(group_receiver_config \<times> virtual_connection_type) deserializer \<Rightarrow> bytes \<Rightarrow>
     (group_receiver_config \<times> virtual_connection_type, unit) result" where
  "group_validate_header de payload =
     rbind (discard_err (de payload)) (\<lambda>(cfg, target).
     if MAX_BYTES_PER_GROUP < gc_plaintext_length cfg then Err () else Ok (cfg, target))"

definition group_validate_message ::
    "(alice_to_bob_transfer option) deserializer \<Rightarrow> bytes \<Rightarrow>
     (bytes \<times> alice_to_bob_transfer option, unit) result" where
  "group_validate_message de payload =
     rbind (discard_err (extract_payload payload)) (\<lambda>(message, rest).
     rbind (discard_err (de rest)) (\<lambda>transfer. Ok (message, transfer)))"

definition group_validate_header_ack ::
    "group_header_ack deserializer \<Rightarrow> bytes \<Rightarrow> (group_header_ack, unit) result" where
  "group_validate_header_ack de payload = discard_err (de payload)"

definition group_validate_wave_ack ::
    "(u32 \<times> u32) option deserializer \<Rightarrow> bytes \<Rightarrow> ((u32 \<times> u32) option, unit) result" where
  "group_validate_wave_ack de payload = discard_err (de payload)"

definition validate_file_header ::
    "virtual_connection_type deserializer \<Rightarrow> 'meta deserializer \<Rightarrow> hdp_header \<Rightarrow>
     bytes \<Rightarrow>
     (virtual_connection_type \<times> 'meta, unit) result" where
  "validate_file_header de_vt de_meta header payload =
     (let split_idx = unat (hh_wave_id header) in
      if length payload < split_idx then Err ()
      else
        rbind (discard_err (de_vt (take split_idx payload))) (\<lambda>vtarget.
        rbind (discard_err (de_meta (drop split_idx payload))) (\<lambda>vfm. Ok (vtarget, vfm))))"

definition validate_file_header_ack ::
    "virtual_connection_type deserializer \<Rightarrow> hdp_header \<Rightarrow> bytes \<Rightarrow>
     (bool \<times> u32 \<times> virtual_connection_type, unit) result" where
  "validate_file_header_ack de_vt header payload =
     (if payload \<noteq> [] then
        rbind (discard_err (de_vt payload)) (\<lambda>v_target. Ok (hh_group header \<noteq> 0, hh_wave_id header, v_target))
      else Err ())"

definition register_validate_stage0 ::
    "(alice_to_bob_transfer \<times> bool) deserializer \<Rightarrow> bytes \<Rightarrow>
     (alice_to_bob_transfer \<times> bool, unit) result" where
  "register_validate_stage0 de payload = discard_err (de payload)"

definition register_validate_stage2 ::
    "'cred deserializer \<Rightarrow> stacked_ratchet \<Rightarrow> bytes \<Rightarrow> bytes \<Rightarrow>
     'addr \<Rightarrow>
     ('cred \<times> 'addr, unit) result \<times> stacked_ratchet" where
  "register_validate_stage2 de hr header payload peer_addr =
     (let (res, hr') = validate_custom hr header payload in
      (rbind res (\<lambda>(h, plaintext_bytes). rbind (discard_err (de plaintext_bytes)) (\<lambda>packet. Ok (packet, peer_addr))), hr'))"

definition register_validate_success ::
    "stacked_ratchet \<Rightarrow> bytes \<Rightarrow> bytes \<Rightarrow> 'addr \<Rightarrow>
     (bytes \<times> 'addr, unit) result \<times> stacked_ratchet" where
  "register_validate_success hr header payload remote_addr =
     (let (res, hr') = validate_custom hr header payload in (rbind res (\<lambda>(h, payload). Ok (payload, remote_addr)), hr'))"

definition preconnect_validate_stage0 ::
    "'node deserializer \<Rightarrow> stacked_ratchet \<Rightarrow> bytes \<Rightarrow>
     ('node, unit) result \<times> stacked_ratchet" where
  "preconnect_validate_stage0 de hr packet =
     (case packet_decompose packet of
        Ok (header, payload) \<Rightarrow>
          let (res, hr') = validate_custom hr header payload
          in (rbind res (\<lambda>(h, payload). discard_err (de payload)), hr')
      | Err e \<Rightarrow> (Err e, hr)
      | Panic \<Rightarrow> (Panic, hr))"

end
