(* ===== verification/Packet_Exchange.thy ===== *)
theory Packet_Exchange
  imports Packet_Crafter
begin

text \<open>
  Crafted packets at the other end. Crafting is a run of the stacked channel, so what the channel guarantees holds
  for whole packets: the first arrival of a crafted packet is opened to the header and the payload it was crafted
  from, whatever arrived before.
\<close>

section \<open>Crafting and receiving\<close>

type_synonym craft_request = "rnds \<times> security_level \<times> hdp_header \<times> bytes"

fun craft_step :: "stacked_ratchet \<Rightarrow> craft_request \<Rightarrow> crafted" where
  "craft_step hr (rs, level, h, body) = craft rs hr level (Ok h) (Ok body)"

definition receive_step :: "stacked_ratchet \<Rightarrow> bytes \<Rightarrow> (hdp_header \<times> bytes, unit) result \<times> stacked_ratchet" where
  "receive_step hr packet =
     (case packet_decompose packet of
        Ok (header, payload) \<Rightarrow> validate_custom hr header payload
      | Err e \<Rightarrow> (Err e, hr)
      | Panic \<Rightarrow> (Panic, hr))"

fun craft_msg :: "craft_request \<Rightarrow> stacked_message" where
  "craft_msg (rs, level, h, body) = (rs, Some level, inscribe_into h [], body)"

text \<open>Every crafter writes the level it seals with into the header.\<close>

fun level_marked :: "craft_request \<Rightarrow> bool" where
  "level_marked (rs, level, h, body) \<longleftrightarrow> hh_security_level h = level_value level"

lemma protect_packet_prefix:
  "fst (protect_packet r bank p (length header) (header @ payload)) = Ok out \<Longrightarrow> \<exists>sealed. out = header @ sealed"
  by (auto simp: protect_packet_def protect_packet_in_place_def Let_def case_prod_beta split: option.splits if_splits)

lemma protect_layers_prefix:
  "fst (protect_layers rs (length header) ks (header @ payload)) = Ok out \<Longrightarrow> \<exists>sealed. out = header @ sealed"
proof (induction ks arbitrary: rs payload)
  case (Cons k ks)
  obtain res p where r: "protect_packet (rs 0) (rk_drill k) (rk_pqc k) (length header) (header @ payload) = (res, p)"
    by (cases "protect_packet (rs 0) (rk_drill k) (rk_pqc k) (length header) (header @ payload)")
  show ?case
  proof (cases res)
    case (Ok mid)
    with protect_packet_prefix [of "rs 0" "rk_drill k" "rk_pqc k" header payload mid] r obtain sealed where
      "mid = header @ sealed" by auto
    with Cons Ok r show ?thesis by (auto simp: Let_def case_prod_beta)
  qed (use Cons.prems r in simp_all)
qed auto

lemma stacked_protect_prefix:
  "fst (stacked_protect hr m) = Ok packet \<Longrightarrow> take (length (sm_header m)) packet = sm_header m"
  using protect_layers_prefix
  by (cases m) (fastforce simp: protect_message_packet_def Let_def case_prod_beta split: result.splits)

lemma craft_step_protect:
  "fst (craft_step hr c) = unwrap (ok (fst (stacked_protect hr (craft_msg c))))"
  "snd (craft_step hr c) = snd (stacked_protect hr (craft_msg c))"
  by (cases c; simp add: craft_def seal_packet_def case_prod_beta)+

lemma craft_run_protect:
  "fst (run craft_step hr cs) = map Ok packets \<longleftrightarrow> fst (run stacked_protect hr (map craft_msg cs)) = map Ok packets"
proof (induction cs arbitrary: hr packets)
  case (Cons c cs)
  have "unwrap (ok r) = (Ok x :: (bytes, unit) result) \<longleftrightarrow> r = Ok x" for r :: "(bytes, crypt_error) result" and x
    by (simp add: unwrap_Ok_iff)
  then show ?case
    by (cases packets) (auto simp: run_Cons_fst craft_step_protect Cons.IH simp del: run.simps(2))
qed simp

lemma run_outputs_nth:
  assumes "fst (run step s es) = map f outs" and "k < length es"
  shows "\<exists>s'. fst (step s' (es ! k)) = f (outs ! k)"
  using nth_run [OF assms(2), of step s] assms
  by (metis length_map length_run nth_map)

lemma validate_level_cong:
  "level_value l = level_value l' \<Longrightarrow> validate_message_packet hr (Some l) h p = validate_message_packet hr (Some l') h p"
  by (simp add: validate_message_packet_def verify_level_def)

lemma layout_verified_inscribed: "layout_verified (inscribe_into h []) = Some h"
  by (simp add: layout_verified_def inscribe_into_as_bytes header_of_as_bytes)

lemma receive_step_validate:
  assumes "level_marked c" and "take HDP_HEADER_BYTE_LEN packet = sm_header (craft_msg c)"
  shows "receive_step hr packet =
     (let (res, hr') = stacked_validate hr (stacked_wire (craft_msg c) packet)
      in (rbind (discard_err res) (\<lambda>body. Ok (fst (snd (snd c)), body)), hr'))"
proof -
  obtain rs level h body where c: "c = (rs, level, h, body)" by (cases c)
  have head: "take HDP_HEADER_BYTE_LEN packet = inscribe_into h []" using assms(2) by (simp add: c)
  then have "length (take HDP_HEADER_BYTE_LEN packet) = HDP_HEADER_BYTE_LEN" by simp
  then have "\<not> length packet < HDP_HEADER_BYTE_LEN" by simp
  then have "receive_step hr packet = validate_custom hr (inscribe_into h []) (drop HDP_HEADER_BYTE_LEN packet)"
    by (simp add: receive_step_def packet_decompose_def head)
  also have "validate_message_packet hr (Some (level_from_u8 (hh_security_level h))) (inscribe_into h [])
      (drop HDP_HEADER_BYTE_LEN packet) =
      validate_message_packet hr (Some level) (inscribe_into h []) (drop HDP_HEADER_BYTE_LEN packet)"
    by (rule validate_level_cong) (use assms(1) c in simp)
  then have "validate_custom hr (inscribe_into h []) (drop HDP_HEADER_BYTE_LEN packet) =
     (let (res, hr') = stacked_validate hr (stacked_wire (craft_msg c) packet)
      in (rbind (discard_err res) (\<lambda>body. Ok (fst (snd (snd c)), body)), hr'))"
    by (simp add: validate_custom_def layout_verified_inscribed c Let_def)
  finally show ?thesis .
qed

text \<open>
  The packets that one ratchet crafted, arriving in an order at the ratchet that agrees with it. Both ratchets are fresh,
  and the crafted packets are shorter than the address space.
\<close>

definition crafted_run ::
    "stacked_ratchet \<Rightarrow> stacked_ratchet \<Rightarrow> craft_request list \<Rightarrow> bytes list \<Rightarrow> nat list \<Rightarrow> bool" where
  "crafted_run a b cs packets order \<longleftrightarrow>
     list_all2 layer_opens (sr_message a) (sr_message b) \<and>
     (\<forall>k \<in> set (sr_message a) \<union> set (sr_message b). layer_ara k = ara_default) \<and>
     fst (run craft_step a cs) = map Ok packets \<and> list_all level_marked cs \<and>
     (\<forall>p \<in> set packets. length p < 2 ^ 64) \<and> length cs < 2 ^ 64 \<and> (\<forall>j \<in> set order. j < length cs)"

lemma crafted_stacked_run:
  "crafted_run a b cs packets order \<Longrightarrow> stacked_run a b (map craft_msg cs) packets order"
  by (simp add: crafted_run_def stacked_run_def craft_run_protect)

lemma receive_run:
  assumes "list_all (\<lambda>j. level_marked (cs ! j) \<and> take HDP_HEADER_BYTE_LEN (packets ! j) = sm_header (craft_msg (cs ! j)) \<and>
      j < length cs) order"
  shows "fst (run receive_step b (map (\<lambda>j. packets ! j) order)) =
     map2 (\<lambda>j res. rbind (discard_err res) (\<lambda>body. Ok (fst (snd (snd (cs ! j))), body))) order
       (stacked_deliver b (map craft_msg cs) packets order)"
  using assms
proof (induction order arbitrary: b)
  case (Cons j order)
  let ?v = "stacked_validate b (stacked_wire (craft_msg (cs ! j)) (packets ! j))"
  from Cons.prems have "fst (receive_step b (packets ! j)) =
      rbind (discard_err (fst ?v)) (\<lambda>body. Ok (fst (snd (snd (cs ! j))), body))"
    "snd (receive_step b (packets ! j)) = snd ?v"
    using receive_step_validate [of "cs ! j" "packets ! j" b] by (simp_all add: case_prod_beta)
  with Cons show ?case
    by (simp add: stacked_deliver_def run_Cons_fst del: run.simps(2))
qed (simp add: stacked_deliver_def)

lemma crafted_head:
  assumes "crafted_run a b cs packets order" and "j < length cs"
  shows "take HDP_HEADER_BYTE_LEN (packets ! j) = sm_header (craft_msg (cs ! j))"
proof -
  have "fst (run stacked_protect a (map craft_msg cs)) = map Ok packets"
    using assms(1) by (simp add: crafted_run_def craft_run_protect)
  from run_outputs_nth [OF this, of j] assms(2) obtain s where
    "fst (stacked_protect s (craft_msg (cs ! j))) = Ok (packets ! j)" by auto
  from stacked_protect_prefix [OF this] show ?thesis by (cases "cs ! j") simp
qed

lemma crafted_read_back:
  assumes "crafted_run a b cs packets order" and "length order < 2 ^ 64" and "k < length order"
  shows "(order ! k \<notin> set (take k order) \<longrightarrow>
       fst (run receive_step b (map (\<lambda>j. packets ! j) order)) ! k =
         (case cs ! (order ! k) of (rs, level, h, body) \<Rightarrow> Ok (h, body))) \<and>
     (order ! k \<in> set (take k order) \<and> card (set (take k order)) \<le> unat HISTORY_LEN \<longrightarrow>
       fst (run receive_step b (map (\<lambda>j. packets ! j) order)) ! k = Err ())"
proof -
  note run = crafted_stacked_run [OF assms(1)]
  have idx: "\<And>j. j \<in> set order \<Longrightarrow> j < length cs" and marked: "list_all level_marked cs"
    using assms(1) by (simp_all add: crafted_run_def)
  have "list_all (\<lambda>j. level_marked (cs ! j) \<and> take HDP_HEADER_BYTE_LEN (packets ! j) = sm_header (craft_msg (cs ! j)) \<and>
      j < length cs) order"
    using crafted_head [OF assms(1)] idx marked by (auto simp: list_all_iff)
  from receive_run [OF this, of b] have "fst (run receive_step b (map (\<lambda>j. packets ! j) order)) ! k =
      rbind (discard_err (stacked_deliver b (map craft_msg cs) packets order ! k))
        (\<lambda>body. Ok (fst (snd (snd (cs ! (order ! k)))), body))"
    using assms(3) by (simp add: stacked_deliver_def)
  moreover have "sm_payload (map craft_msg cs ! (order ! k)) = snd (snd (snd (cs ! (order ! k))))"
    using idx [of "order ! k"] assms(3) by (cases "cs ! (order ! k)") simp
  ultimately show ?thesis
    using stacked_deliver_verdict [OF run assms(2,3)]
    by (cases "cs ! (order ! k)") (auto simp: stacked_replayed_def replayed_def crypt_err_def)
qed

text \<open>A keep-alive packet through two layers and a truncation packet through one.\<close>

definition demo_header :: "u8 \<Rightarrow> u8 \<Rightarrow> hdp_header" where
  "demo_header primary level =
     \<lparr>cmd_primary = primary, cmd_aux = 0, hh_algorithm = 0, hh_security_level = level, context_info = 0, hh_group = 0,
      hh_wave_id = 0, session_cid = 7, drill_version = 0, hh_timestamp = 0, target_cid = 0\<rparr>"

definition demo_requests :: "craft_request list" where
  "demo_requests = [(\<lambda>_ _. 0, Reinforced, demo_header KEEP_ALIVE 1, []), (\<lambda>_ _. 0, Standard, demo_header DO_DRILL_UPDATE 0, [5])]"

definition demo_crafted :: "bytes list" where
  "demo_crafted =
     [inscribe_into (demo_header KEEP_ALIVE 1) [] @ u64_to_be 0 @ replicate 16 0 @ u64_to_be 0 @ replicate 16 0,
      inscribe_into (demo_header DO_DRILL_UPDATE 0) [] @ [5] @ u64_to_be 1 @ replicate 16 0]"

lemma demo_crafted_run: "crafted_run (demo_stack Alice) (demo_stack Bob) demo_requests demo_crafted [1, 0, 1]"
proof -
  have ara: "(demo_node n)\<lparr>pq_ara := ara_default\<rparr> = demo_node n" for n by (simp add: demo_node_def)
  have "fst (run stacked_protect (demo_stack Alice) (map craft_msg demo_requests)) = map Ok demo_crafted"
    by (simp add: demo_requests_def demo_crafted_def protect_message_packet_def verify_level_def demo_stack_def
        numeral_2_eq_2 demo_protect demo_protect [where a = ara_default, unfolded ara])
      (simp add: ara_default_def)
  moreover have "list_all2 layer_opens (sr_message (demo_stack Alice)) (sr_message (demo_stack Bob))"
    "\<forall>k \<in> set (sr_message (demo_stack Alice)) \<union> set (sr_message (demo_stack Bob)). layer_ara k = ara_default"
    using demo_stacked_run_ok by (simp_all add: stacked_run_def)
  moreover have "\<forall>p \<in> set demo_crafted. length p < 2 ^ 64"
    by (simp add: demo_crafted_def be64.length_enc HDP_HEADER_BYTE_LEN_def)
  ultimately show ?thesis
    by (simp add: crafted_run_def craft_run_protect) (simp add: demo_requests_def demo_header_def)
qed

text \<open>
  C31: Crafted packets are authenticated and read back. However the network reorders and repeats the packets that one end
  crafted, the first arrival of each of them at the other end passes the validation and gives exactly the header and
  the payload it was crafted from, and a repetition within the replay window is refused.
\<close>

theorem crafted_packets_read_back:
  assumes "crafted_run a b cs packets order" and "length order < 2 ^ 64" and "k < length order"
  shows "(order ! k \<notin> set (take k order) \<longrightarrow>
       fst (run receive_step b (map (\<lambda>j. packets ! j) order)) ! k =
         (case cs ! (order ! k) of (rs, level, h, body) \<Rightarrow> Ok (h, body))) \<and>
     (order ! k \<in> set (take k order) \<and> card (set (take k order)) \<le> unat HISTORY_LEN \<longrightarrow>
       fst (run receive_step b (map (\<lambda>j. packets ! j) order)) ! k = Err ())"
  using crafted_read_back [OF assms] .

theorem crafted_packets_read_back_witness:
  "fst (run receive_step (demo_stack Bob) (map (\<lambda>j. demo_crafted ! j) [1, 0, 1])) ! 1 = Ok (demo_header KEEP_ALIVE 1, []) \<and>
   fst (run receive_step (demo_stack Bob) (map (\<lambda>j. demo_crafted ! j) [1, 0, 1])) ! 2 = Err ()"
  using crafted_packets_read_back [OF demo_crafted_run, of 1] crafted_packets_read_back [OF demo_crafted_run, of 2]
  by (simp add: demo_requests_def HISTORY_LEN_def)

end
