(* ===== verification/Group_Transmitter.thy ===== *)
theory Group_Transmitter
  imports Packet_Exchange
begin

text \<open>
  The transmitter of a group, \<open>GroupTransmitter\<close> of \<open>citadel_proto/src/proto/packet_crafter.rs\<close>: it sends the header
  of a group of scrambled packets, or, for a message, one packet that carries header, message and the first part
  of a key exchange. The message is shown to come out at the other end with the exchange that rode along.
\<close>

section \<open>Messages under construction\<close>

text \<open>\<open>From<T> for SecureProtocolPacket\<close>: \<open>copy_from_slice\<close> panics when the lengths differ.\<close>

definition copy_from_slice :: "bytes \<Rightarrow> filler" where
  "copy_from_slice src dest = (if length dest = length src then (src, Ok ()) else (dest, Panic))"

definition protocol_packet_from :: "bytes \<Rightarrow> (secure_message_packet, unit) result" where
  "protocol_packet_from bytes =
     rbind (unwrap (ok (message_packet_new HDP_HEADER_BYTE_LEN))) (\<lambda>this.
     let (res, this') = write_payload this (word_of_nat (length bytes)) (copy_from_slice bytes) in
     rbind (unwrap (ok res)) (\<lambda>_. Ok this'))"

record group_transmitter =
  gt_base :: stacked_ratchet
  gt_base_constructor :: "stacked_ctor option"
  gt_sender :: group_sender
  gt_group_config :: group_receiver_config
  gt_object_id :: u32
  gt_group_id :: u64
  gt_ticket :: ticket
  gt_security_level :: security_level
  gt_bytes_encrypted :: nat
  gt_is_message :: bool

definition new_from_group_sender ::
    "group_sender \<Rightarrow> stacked_ratchet \<Rightarrow> stacked_ctor option \<Rightarrow> u32 \<Rightarrow> ticket \<Rightarrow> security_level \<Rightarrow> group_transmitter" where
  "new_from_group_sender sender base ctor object_id ticket level =
     (let cfg = gs_receiver_config sender in
      \<lparr>gt_base = base, gt_base_constructor = ctor, gt_sender = sender, gt_group_config = cfg,
       gt_object_id = object_id, gt_group_id = gc_group_id cfg, gt_ticket = ticket, gt_security_level = level,
       gt_bytes_encrypted = gc_plaintext_length cfg, gt_is_message = False\<rparr>)"

definition new_message ::
    "nat \<Rightarrow> u32 \<Rightarrow> stacked_ratchet \<Rightarrow> stacked_ctor option \<Rightarrow> secure_message_packet \<Rightarrow> security_level \<Rightarrow> u64 \<Rightarrow> ticket \<Rightarrow>
     (group_transmitter, unit) result" where
  "new_message now object_id base ctor input_packet level group_id ticket =
     rbind (discard_err (oneshot_unencrypted_group_unified now input_packet (HDP_HEADER_BYTE_LEN + 2) group_id))
       (\<lambda>sender.
     Ok \<lparr>gt_base = base, gt_base_constructor = ctor, gt_sender = sender,
         gt_group_config = gs_receiver_config sender, gt_object_id = object_id, gt_group_id = group_id,
         gt_ticket = ticket, gt_security_level = level, gt_bytes_encrypted = message_len input_packet,
         gt_is_message = True\<rparr>)"

text \<open>
  The packet of a message, before the seal: the header goes into its partition, the exchange becomes the extension
  of the payload. \<open>stage\<close> is the first stage of Alice's constructor.
\<close>

definition message_packet_bytes ::
    "alice_to_bob_transfer option serializer \<Rightarrow> (stacked_ctor \<Rightarrow> (alice_to_bob_transfer, unit) result) \<Rightarrow>
     stacked_ctor option \<Rightarrow> hdp_header \<Rightarrow> secure_message_packet \<Rightarrow> (bytes, unit) result" where
  "message_packet_bytes ser stage ctor header packet =
     (let (res, packet') = write_header packet
            (\<lambda>buf. case (inscribe_into_slice header buf :: (bytes, unit) result) of Ok b \<Rightarrow> (b, Ok ()) | _ \<Rightarrow> (buf, Panic)) in
      rbind (unwrap (ok res)) (\<lambda>_.
      rbind (case ctor of None \<Rightarrow> Ok None | Some c \<Rightarrow> rbind (unwrap (ok (stage c))) (\<lambda>tx. Ok (Some tx))) (\<lambda>kem.
      rbind (unwrap (ok (ser kem))) (\<lambda>ext.
      unwrap (ok (write_payload_extension packet' (word_of_nat (length ext)) (copy_from_slice ext)))))))"

definition craft_group_header_packet ::
    "alice_to_bob_transfer option serializer \<Rightarrow> (group_receiver_config \<times> virtual_connection_type) serializer \<Rightarrow>
     (stacked_ctor \<Rightarrow> (alice_to_bob_transfer, unit) result) \<Rightarrow> rnds \<Rightarrow> i64 \<Rightarrow> virtual_connection_type \<Rightarrow>
     group_transmitter \<Rightarrow> (bytes, unit) result \<times> group_transmitter" where
  "craft_group_header_packet ser_kem ser_header stage rs timestamp virtual_target self =
     (case header_for (gt_base self) GROUP_PACKET GROUP_HEADER (if gt_is_message self then 1 else 0)
             (gt_security_level self) (gt_ticket self) (gt_group_id self) (gt_object_id self) timestamp
             (get_target_cid virtual_target) of
        Ok header \<Rightarrow>
          if gt_is_message self then
            let (packet, sender) = get_oneshot (gt_sender self); self = self\<lparr>gt_sender := sender\<rparr> in
            case rbind (unwrap packet) (message_packet_bytes ser_kem stage (gt_base_constructor self) header) of
              Ok body \<Rightarrow> let (res, hr) = seal_packet rs (gt_base self) (gt_security_level self) body
                         in (res, self\<lparr>gt_base := hr\<rparr>)
            | _ \<Rightarrow> (Panic, self)
          else
            let (res, hr) = craft rs (gt_base self) (gt_security_level self) (Ok header)
                              (ser_header (gt_group_config self, virtual_target))
            in (res, self\<lparr>gt_base := hr\<rparr>)
      | _ \<Rightarrow> (Panic, self))"

definition transmit_tcp_file_transfer :: "group_transmitter \<Rightarrow> packet_coordinate list \<times> bool \<times> group_transmitter" where
  "transmit_tcp_file_transfer self =
     (let (packets, sender) = take_all_packets (gt_sender self) in (packets, True, self\<lparr>gt_sender := sender\<rparr>))"

section \<open>What a message carries\<close>

lemma inscribe_into_slice_Ok:
  "length buf = HDP_HEADER_BYTE_LEN \<Longrightarrow> inscribe_into_slice h buf = Ok (inscribe_into h [])"
  by (simp add: inscribe_into_slice_def)

lemma message_packet_bytes_Ok:
  assumes small: "length message + 64 < 2 ^ 32"
    and kem: "(case ctor of None \<Rightarrow> Ok None | Some c \<Rightarrow> rbind (unwrap (ok (stage c))) (\<lambda>tx. Ok (Some tx))) =
      (Ok kem :: (_, unit) result)"
    and ext: "ser kem = Ok ext" and fits: "length ext < 2 ^ 32"
  shows "\<exists>packet. protocol_packet_from message = Ok packet \<and>
     message_packet_bytes ser stage ctor header packet =
       Ok (inscribe_into header [] @ u32_to_be (word_of_nat (length message)) @ message @ ext)"
proof -
  let ?n = HDP_HEADER_BYTE_LEN and ?w = "word_of_nat (length message) :: u32"
  have n: "0 < ?n" "?n < 2 ^ 32" by (simp_all add: HDP_HEADER_BYTE_LEN_def)
  have w: "unat ?w = length message" using small by (simp add: unat_of_nat)
  have e: "unat (word_of_nat (length ext) :: u32) = length ext" using fits by (simp add: unat_of_nat)
  let ?p1 = "HeaderNext \<lparr>layout = [word_of_nat ?n, ?w + 4, 0], psb_buffer = replicate ?n 0 @ u32_to_be ?w @ message\<rparr>"
  have "write_payload (PayloadNext \<lparr>layout = [word_of_nat ?n, 0, 0], psb_buffer = replicate ?n 0\<rparr>) ?w (copy_from_slice message) =
      (Ok (), ?p1)"
    by (rule write_payload_Ok) (use small w in \<open>simp_all add: HDP_HEADER_BYTE_LEN_def copy_from_slice_def\<close>)
  then have p1: "protocol_packet_from message = Ok ?p1"
    by (simp add: protocol_packet_from_def message_packet_new_Ok [OF n])
  let ?body = "inscribe_into header [] @ u32_to_be ?w @ message"
  have head: "write_header ?p1 (\<lambda>buf. case (inscribe_into_slice header buf :: (bytes, unit) result) of Ok b \<Rightarrow> (b, Ok ()) | _ \<Rightarrow> (buf, Panic)) =
      (Ok (), FinalPayloadExt \<lparr>layout = [word_of_nat ?n, ?w + 4, 0], psb_buffer = ?body\<rparr>)"
    by (rule write_header_Ok [OF n(2)]) (simp_all add: inscribe_into_slice_Ok)
  have w4: "unat (?w + 4) = length message + 4"
    using small w by (subst unat_word_ariths) simp
  have "write_payload_extension (FinalPayloadExt \<lparr>layout = [word_of_nat ?n, ?w + 4, 0], psb_buffer = ?body\<rparr>)
      (word_of_nat (length ext)) (copy_from_slice ext) = Ok (?body @ ext)"
  proof (rule write_extension_Ok)
    show "?w + 4 \<noteq> 0" using w4 by (metis add_is_0 unat_0 zero_neq_numeral)
  qed (use small w4 e in \<open>simp_all add: HDP_HEADER_BYTE_LEN_def copy_from_slice_def\<close>)
  then have "message_packet_bytes ser stage ctor header ?p1 = Ok (?body @ ext)"
    by (simp add: message_packet_bytes_def head kem ext del: write_header.simps write_payload_extension.simps)
  with p1 show ?thesis by simp
qed

lemma validate_message_bytes:
  assumes "length message < 2 ^ 32" and "de ext = Ok kem"
  shows "group_validate_message de (u32_to_be (word_of_nat (length message)) @ message @ ext) = Ok (message, kem)"
  using assms by (simp add: group_validate_message_def extract_payload_def Let_def unat_of_nat)

lemma new_message_header_packet:
  assumes "protocol_packet_from message = Ok packet"
    and "new_message now object_id base ctor packet level group_id ticket = Ok gt"
    and "message_packet_bytes ser_kem stage ctor header packet = Ok body"
    and "header_for base GROUP_PACKET GROUP_HEADER 1 level ticket group_id object_id timestamp (get_target_cid target) = Ok header"
  shows "craft_group_header_packet ser_kem ser_header stage rs timestamp target gt =
     (let (res, hr) = seal_packet rs base level body
      in (res, gt\<lparr>gt_sender := (gt_sender gt)\<lparr>oneshot := None\<rparr>, gt_base := hr\<rparr>))"
proof -
  from assms(2) obtain sender where
    new: "oneshot_unencrypted_group_unified now packet (HDP_HEADER_BYTE_LEN + 2) group_id = Ok sender"
    and gt: "gt = \<lparr>gt_base = base, gt_base_constructor = ctor, gt_sender = sender,
         gt_group_config = gs_receiver_config sender, gt_object_id = object_id, gt_group_id = group_id,
         gt_ticket = ticket, gt_security_level = level, gt_bytes_encrypted = message_len packet,
         gt_is_message = True\<rparr>"
    unfolding new_message_def by auto
  from new have sender: "oneshot sender = Some packet"
    by (auto simp: oneshot_unencrypted_group_unified_def group_sender_new_oneshot_def Let_def)
  show ?thesis
    by (simp add: craft_group_header_packet_def gt get_oneshot_def sender assms(3,4) case_prod_beta)
qed

text \<open>So the packet of a message is a packet crafted in the usual way, with message and exchange for its payload.\<close>

lemma message_crafted:
  assumes small: "length message + 64 < 2 ^ 32" and ext: "ser_kem kem = Ok ext" "length ext < 2 ^ 32"
    and kem: "(case ctor of None \<Rightarrow> Ok None | Some c \<Rightarrow> rbind (unwrap (ok (stage c))) (\<lambda>tx. Ok (Some tx))) =
      (Ok kem :: (_, unit) result)"
    and header: "header_for base GROUP_PACKET GROUP_HEADER 1 level ticket group_id object_id timestamp
      (get_target_cid target) = Ok header"
  shows "\<exists>packet gt. protocol_packet_from message = Ok packet \<and>
     new_message now object_id base ctor packet level group_id ticket = Ok gt \<and>
     fst (craft_group_header_packet ser_kem ser_header stage rs timestamp target gt) =
       fst (craft_step base (rs, level, header, u32_to_be (word_of_nat (length message)) @ message @ ext))"
proof -
  from message_packet_bytes_Ok [where ser = ser_kem and ctor = ctor and stage = stage and header = header,
      OF small kem ext] obtain packet where
    packet: "protocol_packet_from message = Ok packet"
    and bytes: "message_packet_bytes ser_kem stage ctor header packet =
      Ok (inscribe_into header [] @ u32_to_be (word_of_nat (length message)) @ message @ ext)" by blast
  obtain gt where gt: "new_message now object_id base ctor packet level group_id ticket = Ok gt"
    by (simp add: new_message_def oneshot_unencrypted_group_unified_def Let_def)
  have "fst (craft_group_header_packet ser_kem ser_header stage rs timestamp target gt) =
      fst (craft_step base (rs, level, header, u32_to_be (word_of_nat (length message)) @ message @ ext))"
    using new_message_header_packet [OF packet gt bytes header] by (simp add: craft_def case_prod_beta)
  then show ?thesis using packet gt by blast
qed

lemma crafted_run_snoc:
  assumes "crafted_run a b cs packets []" and "fst (craft_step (snd (run craft_step a cs)) c) = Ok wire"
    and "level_marked c" and "length wire < 2 ^ 64" and "length cs + 1 < 2 ^ 64" and "\<forall>j \<in> set order. j \<le> length cs"
  shows "crafted_run a b (cs @ [c]) (packets @ [wire]) order"
  using assms
  by (simp add: crafted_run_def run_append run_Cons_fst less_Suc_eq_le ball_Un del: run.simps(2))

section \<open>Properties\<close>

text \<open>
  C34: A message reaches the other end together with the key exchange that rides along. Let a ratchet craft any
  packets and then the packet that a transmitter makes of a message and of the first stage of a key exchange. However
  the network reorders and repeats all these packets on their way to the ratchet that agrees with it, the first
  arrival of the message is opened, by the parser and \<open>validate_custom\<close>, to a header that names the group and the ticket,
  and \<open>validate_message\<close> of what was sealed under it gives back the message and the exchange.
  Assumed are that the primitives seal the packets, that the codec decodes the exchange it encoded, and that
  message and exchange are below 4 GiB.
\<close>

theorem message_carries_exchange:
  assumes small: "length message + 64 < 2 ^ 32" and ext: "ser_kem kem = Ok ext" "length ext < 2 ^ 32"
    and codec: "de_kem ext = Ok kem"
    and kem: "(case ctor of None \<Rightarrow> Ok None | Some c \<Rightarrow> rbind (unwrap (ok (stage c))) (\<lambda>tx. Ok (Some tx))) =
      (Ok kem :: (_, unit) result)"
    and earlier: "crafted_run a b cs packets []" "length cs + 1 < 2 ^ 64" and base: "base = snd (run craft_step a cs)"
    and header: "header_for base GROUP_PACKET GROUP_HEADER 1 level ticket group_id object_id timestamp
      (get_target_cid target) = Ok header"
  shows "\<exists>packet gt. protocol_packet_from message = Ok packet \<and>
     new_message now object_id base ctor packet level group_id ticket = Ok gt \<and>
     (\<forall>wire order k. fst (craft_group_header_packet ser_kem ser_header stage rs timestamp target gt) = Ok wire \<longrightarrow>
        length wire < 2 ^ 64 \<longrightarrow> length order < 2 ^ 64 \<longrightarrow> (\<forall>j \<in> set order. j \<le> length cs) \<longrightarrow>
        k < length order \<longrightarrow> order ! k = length cs \<longrightarrow> length cs \<notin> set (take k order) \<longrightarrow>
        (\<exists>body. fst (run receive_step b (map (\<lambda>j. (packets @ [wire]) ! j) order)) ! k = Ok (header, body) \<and>
           hh_group header = group_id \<and> context_info header = ticket \<and>
           group_validate_message de_kem body = Ok (message, kem)))"
proof -
  let ?body = "u32_to_be (word_of_nat (length message)) @ message @ ext"
  let ?c = "(rs, level, header, ?body)"
  obtain packet gt where gt: "protocol_packet_from message = Ok packet"
      "new_message now object_id base ctor packet level group_id ticket = Ok gt"
      "fst (craft_group_header_packet ser_kem ser_header stage rs timestamp target gt) = fst (craft_step base ?c)"
    using message_crafted [where stage = stage and ser_kem = ser_kem and ctor = ctor, OF small ext kem header] by blast
  have head: "hh_group header = group_id" "context_info header = ticket" "level_marked ?c"
    using header by (auto simp: header_for_def)
  have valid: "group_validate_message de_kem ?body = Ok (message, kem)"
    by (rule validate_message_bytes) (use small codec in simp_all)
  have "fst (run receive_step b (map (\<lambda>j. (packets @ [wire]) ! j) order)) ! k = Ok (header, ?body)"
    if "fst (craft_step base ?c) = Ok wire" "length wire < 2 ^ 64" "length order < 2 ^ 64" "\<forall>j \<in> set order. j \<le> length cs"
      "k < length order" "order ! k = length cs" "length cs \<notin> set (take k order)" for wire order k
    using crafted_read_back [OF crafted_run_snoc [OF earlier(1) that(1) [unfolded base] head(3) that(2) earlier(2) that(4)] that(3,5)] that
    by (simp add: nth_append)
  then show ?thesis using gt head(1,2) valid by auto
qed

text \<open>
  The two packets of \<open>demo_requests\<close>, then a message with the first stage of an exchange; the message arrives between
  the two, and once more later.
\<close>

definition demo_after :: stacked_ratchet where
  "demo_after = snd (run craft_step (demo_stack Alice) demo_requests)"

lemma demo_after_eq:
  "demo_after = (demo_stack Alice)\<lparr>sr_message :=
     [\<lparr>rk_drill = demo_bank, rk_pqc = (demo_node Alice)\<lparr>pq_ara := ara_default\<lparr>counter_out := 2\<rparr>\<rparr>\<rparr>,
      \<lparr>rk_drill = demo_bank, rk_pqc = (demo_node Alice)\<lparr>pq_ara := ara_default\<lparr>counter_out := 1\<rparr>\<rparr>\<rparr>]\<rparr>"
proof -
  have ara: "(demo_node n)\<lparr>pq_ara := ara_default\<rparr> = demo_node n" for n by (simp add: demo_node_def)
  show ?thesis
    by (simp add: demo_after_def demo_requests_def case_prod_beta craft_step_protect protect_message_packet_def verify_level_def
        demo_stack_def numeral_2_eq_2 demo_protect demo_protect [where a = ara_default, unfolded ara] del: craft_step.simps)
      (simp add: ara_default_def)
qed

lemma demo_after_crafts:
  "length body < 1000 \<Longrightarrow>
   \<exists>wire. fst (craft_step demo_after (\<lambda>_ _. 0, Reinforced, header, body)) = Ok wire \<and> length wire < 2 ^ 64"
  by (simp add: craft_step_protect protect_message_packet_def verify_level_def demo_after_eq demo_stack_def numeral_2_eq_2
      demo_protect be64.length_enc HDP_HEADER_BYTE_LEN_def del: craft_step.simps) (simp add: numeral_2_eq_2 [symmetric])

definition demo_ser_kem :: "alice_to_bob_transfer \<Rightarrow> alice_to_bob_transfer option serializer" where
  "demo_ser_kem tx x = (if x = Some tx then Ok [0] else Err ''unknown exchange'')"

lemma demo_offer:
  "\<exists>alice tx. sr_new_alice demo_lib (\<lambda>_ _. 0) [opts_new_init (Some default_crypto_parameters)] 7 1 None = Ok alice \<and>
     sr_stage0_alice demo_lib (\<lambda>_ _. 0) alice = Ok tx"
proof -
  have aes: "list_all aes_opts [opts_new_init (Some default_crypto_parameters)]" by (simp add: aes_opts_def)
  then obtain alice where
    alice: "sr_new_alice demo_lib (\<lambda>_ _. 0) [opts_new_init (Some default_crypto_parameters)] 7 1 None = Ok alice"
    using demo_alice [of "[opts_new_init (Some default_crypto_parameters)]"] by blast
  from demo_stage0_alice [OF demo_alice_pure(1,2) [OF alice aes]] alice show ?thesis by blast
qed

theorem message_carries_exchange_witness:
  "\<exists>alice tx packet gt wire header body.
     sr_new_alice demo_lib (\<lambda>_ _. 0) [opts_new_init (Some default_crypto_parameters)] 7 1 None = Ok alice \<and>
     sr_stage0_alice demo_lib (\<lambda>_ _. 0) alice = Ok tx \<and> protocol_packet_from [1, 2, 3] = Ok packet \<and>
     new_message 0 0 demo_after (Some alice) packet Reinforced 5 9 = Ok gt \<and>
     fst (craft_group_header_packet (demo_ser_kem tx) (\<lambda>_. Ok []) (sr_stage0_alice demo_lib (\<lambda>_ _. 0)) (\<lambda>_ _. 0) 0
       (LocalGroupServer 7) gt) = Ok wire \<and>
     fst (run receive_step (demo_stack Bob) (map (\<lambda>j. (demo_crafted @ [wire]) ! j) [1, 2, 0, 2])) ! 1 = Ok (header, body) \<and>
     group_validate_message (\<lambda>_. Ok (Some tx)) body = Ok ([1, 2, 3], Some tx)"
proof -
  obtain alice tx where
    alice: "sr_new_alice demo_lib (\<lambda>_ _. 0) [opts_new_init (Some default_crypto_parameters)] 7 1 None = Ok alice"
    and tx: "sr_stage0_alice demo_lib (\<lambda>_ _. 0) alice = Ok tx" using demo_offer by blast
  let ?stage = "sr_stage0_alice demo_lib (\<lambda>_ _. 0)"
  obtain header where header: "header_for demo_after GROUP_PACKET GROUP_HEADER 1 Reinforced 9 5 0 0
      (get_target_cid (LocalGroupServer 7)) = Ok header"
    by (simp add: header_for_def sr_get_cid_def sr_version_def get_layer_def demo_after_eq demo_stack_def)
  have kem: "(case Some alice of None \<Rightarrow> Ok None | Some c \<Rightarrow> rbind (unwrap (ok (?stage c))) (\<lambda>tx. Ok (Some tx))) =
      (Ok (Some tx) :: (_, unit) result)" using tx by simp
  have ser: "demo_ser_kem tx (Some tx) = Ok [0]" "length [0 :: u8] < 2 ^ 32" "length [1, 2, 3 :: u8] + 64 < 2 ^ 32"
    by (simp_all add: demo_ser_kem_def)
  have earlier: "crafted_run (demo_stack Alice) (demo_stack Bob) demo_requests demo_crafted []" "length demo_requests = 2"
    "length demo_requests + 1 < 2 ^ 64"
    using demo_crafted_run by (simp_all add: crafted_run_def) (simp_all add: demo_requests_def)
  let ?send = "\<lambda>gt. fst (craft_group_header_packet (demo_ser_kem tx) (\<lambda>_. Ok []) ?stage (\<lambda>_ _. 0) 0 (LocalGroupServer 7) gt)"
  obtain packet gt where gt: "protocol_packet_from [1, 2, 3] = Ok packet"
      "new_message 0 0 demo_after (Some alice) packet Reinforced 5 9 = Ok gt"
      "?send gt = fst (craft_step demo_after (\<lambda>_ _. 0, Reinforced, header, u32_to_be (word_of_nat (length [1, 2, 3 :: u8])) @ [1, 2, 3] @ [0]))"
    using message_crafted [where stage = ?stage and ser_kem = "demo_ser_kem tx" and ctor = "Some alice" and
      rs = "\<lambda>_ _. 0", OF ser(3,1,2) kem header] by blast
  moreover obtain wire where wire: "?send gt = Ok wire" "length wire < 2 ^ 64"
    unfolding gt(3) using demo_after_crafts [of "u32_to_be (word_of_nat (length [1, 2, 3 :: u8])) @ [1, 2, 3] @ [0]" header] by auto
  moreover have "\<exists>body. fst (run receive_step (demo_stack Bob) (map (\<lambda>j. (demo_crafted @ [wire]) ! j) [1, 2, 0, 2])) ! 1 = Ok (header, body) \<and>
      group_validate_message (\<lambda>_. Ok (Some tx)) body = Ok ([1, 2, 3], Some tx)"
    using message_carries_exchange [where stage = ?stage and ctor = "Some alice" and ser_kem = "demo_ser_kem tx" and
      de_kem = "\<lambda>_. Ok (Some tx)" and now = 0 and rs = "\<lambda>_ _. 0" and ser_header = "\<lambda>_. Ok []",
      OF ser(3,1,2) refl kem earlier(1,3) demo_after_def header] gt(1,2) wire
    by (auto simp: earlier(2) dest!: spec [of _ wire] spec [of _ "[1, 2, 0, 2]"] spec [of _ 1])
  ultimately show ?thesis using alice tx by blast
qed

end
