(* ===== verification/Ordered_Channel.thy ===== *)
theory Ordered_Channel
  imports Prelude "HOL-Library.AList"
begin

text \<open>
  The ordered channel of \<open>citadel_proto/src/proto/misc/ordered_channel.rs\<close>: messages arrive with a number in any order
  and go to the sink in the order of their numbers. A message that comes early waits in a map; when the
  awaited one comes, the map is scanned from there. The sink is the list of what was sent; sending fails when its
  receiver is gone.
\<close>

datatype network_error =
    SocketError string
  | Timeout u64
  | InvalidPacket string
  | InvalidPacketSize nat
  | InvalidRequest string
  | InternalError string
  | NetGeneric string
  | ProperShutdown

record 'a ordered_channel =
  oc_sink :: "'a list"
  oc_open :: bool
  oc_map :: "(u64 \<times> 'a) list"
  last_message_received :: "u64 option"

definition ordered_channel_new :: "'a ordered_channel" where
  "ordered_channel_new = \<lparr>oc_sink = [], oc_open = True, oc_map = [], last_message_received = None\<rparr>"

definition send_unconditional ::
    "u64 \<Rightarrow> 'a \<Rightarrow> 'a ordered_channel \<Rightarrow> (unit, network_error) result \<times> 'a ordered_channel" where
  "send_unconditional new_id packet self =
     (if oc_open self
      then (Ok (), self\<lparr>oc_sink := oc_sink self @ [packet], last_message_received := Some new_id\<rparr>)
      else (Err (NetGeneric ''channel closed''), self))"

lemma oc_map_send_unconditional [simp]: "oc_map (snd (send_unconditional i p self)) = oc_map self"
  by (simp add: send_unconditional_def)

lemma length_delete_less: "map_of m k = Some v \<Longrightarrow> length (AList.delete k m) < length m"
proof (induction m)
  case (Cons p m)
  show ?case
  proof (cases "fst p = k")
    case True
    then show ?thesis using length_delete_le [of k m] by simp
  next
    case False
    with Cons show ?thesis by simp
  qed
qed simp

function scan_loop :: "u64 \<Rightarrow> 'a ordered_channel \<Rightarrow> (unit, network_error) result \<times> 'a ordered_channel" where
  "scan_loop cur_scan_id self =
     (case map_of (oc_map self) cur_scan_id of
        None \<Rightarrow> (Ok (), self)
      | Some packet \<Rightarrow>
          let r = send_unconditional cur_scan_id packet (self\<lparr>oc_map := AList.delete cur_scan_id (oc_map self)\<rparr>) in
          if fst r = Ok () then scan_loop (cur_scan_id + 1) (snd r) else r)"
  by pat_completeness auto

termination scan_loop
  by (relation "measure (\<lambda>(cur, self). length (oc_map self))") (auto intro: length_delete_less)

declare scan_loop.simps [simp del]

definition scan_send :: "u64 \<Rightarrow> 'a ordered_channel \<Rightarrow> (unit, network_error) result \<times> 'a ordered_channel" where
  "scan_send last_arrived_id self = scan_loop (last_arrived_id + 1) self"

definition send_then_scan ::
    "u64 \<Rightarrow> 'a \<Rightarrow> 'a ordered_channel \<Rightarrow> (unit, network_error) result \<times> 'a ordered_channel" where
  "send_then_scan new_id packet self =
     (let (res, self) = send_unconditional new_id packet self in
      case res of
        Ok _ \<Rightarrow> if oc_map self \<noteq> [] then scan_send new_id self else (Ok (), self)
      | Err e \<Rightarrow> (Err e, self)
      | Panic \<Rightarrow> (Panic, self))"

definition store_received_packet :: "u64 \<Rightarrow> 'a \<Rightarrow> 'a ordered_channel \<Rightarrow> 'a ordered_channel" where
  "store_received_packet new_id packet self = self\<lparr>oc_map := AList.update new_id packet (oc_map self)\<rparr>"

definition oc_on_packet_received ::
    "u64 \<Rightarrow> 'a \<Rightarrow> 'a ordered_channel \<Rightarrow> (unit, network_error) result \<times> 'a ordered_channel" where
  "oc_on_packet_received new_id packet self =
     (let next_expected = (case last_message_received self of Some r \<Rightarrow> r + 1 | None \<Rightarrow> 0) in
      if next_expected = new_id then send_then_scan new_id packet self
      else (Ok (), store_received_packet new_id packet self))"

section \<open>The sink holds the prefix that has arrived\<close>

text \<open>The number of messages that have arrived without a gap.\<close>

definition gapless :: "nat list \<Rightarrow> nat" where
  "gapless js = length (takeWhile (\<lambda>i. i \<in> set js) [0..<Suc (length js)])"

lemma gapless_iff: "gapless js = m \<longleftrightarrow> (\<forall>i < m. i \<in> set js) \<and> m \<notin> set js"
proof -
  have ex: "\<exists>i \<le> length js. i \<notin> set js"
  proof (rule ccontr)
    assume "\<not> ?thesis"
    then have "{0..length js} \<subseteq> set js" by auto
    then have "card {0..length js} \<le> card (set js)" by (intro card_mono) simp_all
    with card_length [of js] show False by simp
  qed
  let ?xs = "[0..<Suc (length js)]" and ?k = "gapless js"
  have less: "?k < length ?xs"
  proof (rule ccontr)
    assume "\<not> ?k < length ?xs"
    then have "takeWhile (\<lambda>i. i \<in> set js) ?xs = ?xs"
      by (metis gapless_def length_takeWhile_le linorder_not_le takeWhile_eq_take take_all)
    then have "\<forall>i \<in> set ?xs. i \<in> set js" by (metis takeWhile_eq_all_conv)
    with ex show False by auto
  qed
  have "?k \<notin> set js" using nth_length_takeWhile [of "\<lambda>i. i \<in> set js" ?xs] less by (simp add: gapless_def del: upt_Suc)
  moreover have "i \<in> set js" if "i < ?k" for i
  proof -
    have "takeWhile (\<lambda>i. i \<in> set js) ?xs ! i = ?xs ! i" using that by (simp add: gapless_def takeWhile_nth del: upt_Suc)
    moreover have "?xs ! i = i" using that less by (simp del: upt_Suc)
    ultimately show ?thesis using that nth_mem [of i "takeWhile (\<lambda>i. i \<in> set js) ?xs"]
      by (metis gapless_def set_takeWhileD)
  qed
  ultimately show ?thesis by (metis linorder_neqE_nat)
qed

text \<open>
  The channel after messages numbered \<open>js\<close>: everything below the first gap is sent, and what is beyond it waits.
\<close>

definition waiting :: "(nat \<Rightarrow> 'a) \<Rightarrow> nat set \<Rightarrow> nat \<Rightarrow> (u64 \<times> 'a) list \<Rightarrow> bool" where
  "waiting f S m entries \<longleftrightarrow>
     (\<forall>i. m \<le> i \<and> i < 2 ^ 64 \<longrightarrow> map_of entries (word_of_nat i) = (if i \<in> S then Some (f i) else None))"

definition last_sent :: "nat \<Rightarrow> u64 option" where
  "last_sent m = (if m = 0 then None else Some (word_of_nat (m - 1)))"

definition oc_inv :: "(nat \<Rightarrow> 'a) \<Rightarrow> nat list \<Rightarrow> 'a ordered_channel \<Rightarrow> bool" where
  "oc_inv f js self \<longleftrightarrow>
     oc_open self \<and> oc_sink self = map f [0..<gapless js] \<and> last_message_received self = last_sent (gapless js) \<and>
     waiting f (set js) (gapless js) (oc_map self)"

lemma word_of_nat_u64_inject: "i < 2 ^ 64 \<Longrightarrow> j < 2 ^ 64 \<Longrightarrow> (word_of_nat i :: u64) = word_of_nat j \<longleftrightarrow> i = j"
  by (simp add: word_of_nat_eq_iff take_bit_nat_eq_self)

lemma waiting_delete:
  assumes "waiting f S m entries" and "m < 2 ^ 64"
  shows "waiting f S (Suc m) (AList.delete (word_of_nat m) entries)"
  using assms by (auto simp: waiting_def delete_conv word_of_nat_u64_inject)

lemma scan_loop_sends:
  assumes "oc_open self" and "oc_sink self = map f [0..<c]" and "last_message_received self = last_sent c"
    and "waiting f S c (oc_map self)" and "c \<le> g" and "g < 2 ^ 64" and "g \<notin> S" and "\<And>i. c \<le> i \<Longrightarrow> i < g \<Longrightarrow> i \<in> S"
  shows "\<exists>self'. scan_loop (word_of_nat c) self = (Ok (), self') \<and> oc_open self' \<and> oc_sink self' = map f [0..<g] \<and>
     last_message_received self' = last_sent g \<and> waiting f S g (oc_map self')"
  using assms
proof (induction "g - c" arbitrary: c self)
  case 0
  then have "map_of (oc_map self) (word_of_nat c) = None" by (simp add: waiting_def)
  with 0 show ?case by (subst scan_loop.simps) simp
next
  case (Suc n)
  then have c: "c < g" by simp
  let ?self = "self\<lparr>oc_map := AList.delete (word_of_nat c) (oc_map self), oc_sink := oc_sink self @ [f c],
      last_message_received := Some (word_of_nat c)\<rparr>"
  have "map_of (oc_map self) (word_of_nat c) = Some (f c)"
    using Suc.prems(4,6) Suc.prems(8) [of c] c by (simp add: waiting_def)
  then have "scan_loop (word_of_nat c) self = scan_loop (word_of_nat (Suc c)) ?self"
    using Suc.prems(1) by (subst scan_loop.simps) (simp add: send_unconditional_def add.commute)
  moreover have "waiting f S (Suc c) (oc_map ?self)"
    using waiting_delete [OF Suc.prems(4)] c Suc.prems(6) by simp
  moreover have "n = g - Suc c" "Suc c \<le> g" using Suc.hyps(2) c by simp_all
  ultimately show ?case
    using Suc.hyps(1) [of "Suc c" ?self] Suc.prems(1,2,6-8) by (simp add: last_sent_def)
qed

lemma send_then_scan_open:
  assumes "oc_open self"
  shows "send_then_scan i p self =
     scan_send i (self\<lparr>oc_sink := oc_sink self @ [p], last_message_received := Some i\<rparr>)"
proof -
  have "scan_send i s = (Ok (), s)" if "oc_map s = []" for s :: "'a ordered_channel"
    using that by (simp add: scan_send_def scan_loop.simps)
  with assms show ?thesis by (simp add: send_then_scan_def send_unconditional_def)
qed

lemma last_sent_next: "m < 2 ^ 64 \<Longrightarrow> (case last_sent m of Some r \<Rightarrow> r + 1 | None \<Rightarrow> 0) = word_of_nat m"
  by (cases m) (simp_all add: last_sent_def add.commute)

lemma oc_inv_step:
  assumes inv: "oc_inv f js self" and j: "j < 2 ^ 64" and gap: "gapless js < 2 ^ 64" "gapless (j # js) < 2 ^ 64"
  shows "\<exists>self'. oc_on_packet_received (word_of_nat j) (f j) self = (Ok (), self') \<and> oc_inv f (j # js) self'"
proof -
  let ?m = "gapless js" and ?g = "gapless (j # js)"
  note m = gapless_iff [of js ?m, simplified] and g = gapless_iff [of "j # js" ?g, simplified]
  note I = inv [unfolded oc_inv_def]
  show ?thesis
  proof (cases "j = ?m")
    case False
    then have "?g = ?m" unfolding gapless_iff using m by auto
    moreover have "(word_of_nat ?m :: u64) \<noteq> word_of_nat j" using False gap(1) j by (simp add: word_of_nat_u64_inject)
    moreover have "waiting f (set (j # js)) ?m (AList.update (word_of_nat j) (f j) (oc_map self))"
      using I j by (auto simp: waiting_def update_conv word_of_nat_u64_inject)
    ultimately show ?thesis
      using I last_sent_next [OF gap(1)]
      by (simp add: oc_on_packet_received_def store_received_packet_def oc_inv_def)
  next
    case True
    let ?self = "self\<lparr>oc_sink := oc_sink self @ [f ?m], last_message_received := Some (word_of_nat ?m)\<rparr>"
    have le: "Suc ?m \<le> ?g" using m g True by (metis Suc_leI linorder_neqE_nat)
    have "waiting f (set (j # js)) (Suc ?m) (oc_map ?self)" using I True by (auto simp: waiting_def)
    with I le gap(2) g have "\<exists>self'. scan_loop (word_of_nat (Suc ?m)) ?self = (Ok (), self') \<and> oc_inv f (j # js) self'"
      unfolding oc_inv_def by (intro scan_loop_sends) (auto simp: last_sent_def)
    then have scan: "\<exists>self'. scan_send (word_of_nat ?m) ?self = (Ok (), self') \<and> oc_inv f (j # js) self'"
      by (simp add: scan_send_def add.commute)
    moreover have "oc_on_packet_received (word_of_nat j) (f j) self = scan_send (word_of_nat ?m) ?self"
      using I True last_sent_next [OF gap(1)]
      by (simp add: oc_on_packet_received_def send_then_scan_open)
    ultimately show ?thesis by simp
  qed
qed

section \<open>Properties\<close>

text \<open>The receiver of a channel: messages arrive one by one.\<close>

definition oc_step :: "(nat \<Rightarrow> 'a) \<Rightarrow> 'a ordered_channel \<Rightarrow> nat \<Rightarrow> (unit, network_error) result \<times> 'a ordered_channel" where
  "oc_step f self j = oc_on_packet_received (word_of_nat j) (f j) self"

lemma gapless_le: "\<forall>j \<in> set js. j < n \<Longrightarrow> gapless js \<le> n"
  using gapless_iff [of js "gapless js"] by (metis linorder_not_le order_less_irrefl)

lemma oc_run_inv:
  assumes "\<forall>j \<in> set (js @ ks). j < n" and "n < 2 ^ 64" and "oc_inv f ks self"
  shows "oc_inv f (rev js @ ks) (snd (run (oc_step f) self js)) \<and> list_all (\<lambda>r. r = Ok ()) (fst (run (oc_step f) self js))"
  using assms
proof (induction js arbitrary: self ks)
  case (Cons j js)
  have "gapless ks \<le> n" "gapless (j # ks) \<le> n" "j < 2 ^ 64"
    using Cons.prems(1,2) gapless_le [of ks n] gapless_le [of "j # ks" n] by auto
  with Cons.prems(2) oc_inv_step [OF Cons.prems(3), of j] obtain self' where
    s: "oc_step f self j = (Ok (), self')" "oc_inv f (j # ks) self'" by (auto simp: oc_step_def)
  have "\<forall>i \<in> set (js @ j # ks). i < n" using Cons.prems(1) by auto
  from Cons.IH [OF this Cons.prems(2) s(2)] s(1) show ?case by (simp add: case_prod_beta)
qed simp

text \<open>
  C35: The ordered channel delivers in order whatever the order of arrival. After messages with any numbers have arrived, in any
  order and with repetitions, the sink has received exactly the messages before the first number that is missing,
  each once and in the order of their numbers, and no arrival was refused.
\<close>

theorem ordered_channel_delivers_prefix:
  assumes "\<forall>j \<in> set js. j < n" and "n < 2 ^ 64"
  shows "oc_sink (snd (run (oc_step f) ordered_channel_new js)) = map f [0..<gapless js] \<and>
     (\<forall>i < gapless js. i \<in> set js) \<and> gapless js \<notin> set js \<and>
     list_all (\<lambda>r. r = Ok ()) (fst (run (oc_step f) ordered_channel_new js))"
proof -
  have "gapless [] = 0" by (simp add: gapless_def)
  then have "oc_inv f [] ordered_channel_new"
    by (simp add: oc_inv_def ordered_channel_new_def last_sent_def waiting_def)
  from oc_run_inv [OF _ assms(2) this, of js] assms(1)
  have "oc_inv f (rev js) (snd (run (oc_step f) ordered_channel_new js))"
    "list_all (\<lambda>r. r = Ok ()) (fst (run (oc_step f) ordered_channel_new js))" by simp_all
  moreover have "gapless (rev js) = gapless js" by (simp add: gapless_def)
  moreover note gapless_iff [of js "gapless js"]
  ultimately show ?thesis by (simp add: oc_inv_def)
qed

theorem ordered_channel_delivers_prefix_witness:
  "oc_sink (snd (run (oc_step (\<lambda>i. i * 10)) ordered_channel_new [2, 0, 4, 2, 1])) = [0, 10, 20]"
proof -
  have "gapless [2, 0, 4, 2, 1] = 3" by (simp add: gapless_def upt_rec)
  with ordered_channel_delivers_prefix [of "[2, 0, 4, 2, 1]" 5 "\<lambda>i. i * 10"] show ?thesis
    by (simp add: upt_rec)
qed




end
