(* ===== verification/Session_Node.thy ===== *)
theory Session_Node
  imports Group_Transmitter Ordered_Channel
begin

text \<open>
  One end of a session: the parts of the state container of \<open>citadel_proto/src/proto/state_container.rs\<close> that messages
  and key updates work on, and the handlers of \<open>packet_processor/rekey_packet.rs\<close> and
  \<open>packet_processor/primary_group_packet.rs\<close> on authenticated packets. A handler takes the header and the decoded payload
  of a packet that passed the first validation, together with the ratchet that opened it, returns its reply, if any, and
  appends what else it sends to the list \<open>sn_out\<close>: the ratchet and the arguments of the crafter, which is a definition of
  \<open>Packet_Crafter\<close> or \<open>Group_Transmitter\<close>. The ratchet operations are the argument \<open>rt\<close>. A channel that is present is
  open; the timers that drop expired groups and the time stamp of the last delivered message are left out.
\<close>

section \<open>State\<close>

datatype secrecy_mode = Perfect | BestEffort

type_synonym stacked_crypto = "stacked_ratchet session_crypto"
type_synonym stacked_rt = "(stacked_ratchet, stacked_ctor) ratchet_trait"

record endpoint_container =
  ep_crypto :: stacked_crypto
  ep_secrecy_mode :: secrecy_mode
  ep_channel :: "bytes ordered_channel"

record c2s_container =
  c2s_crypto :: stacked_crypto
  c2s_channel :: "bytes ordered_channel"

datatype rekey_return_type = RekeySuccess u32 | RekeyAlreadyInProgress | RekeyFailure

datatype rekey_msg =
    Stage0 alice_to_bob_transfer_type
  | Stage1 kem_transfer_status
  | Truncate "u32 option"
  | TruncateAck u32

text \<open>
  What leaves the node: a key update packet sealed with a ratchet for a target, the header of a group, its
  acknowledgement (object, group, target, ticket, transfer), payload packets, notices to the kernel, and the request to
  end the session or, when the flag is set, the confirmation.
\<close>

datatype node_out =
    OutRekey stacked_ratchet u64 rekey_msg
  | OutGroupHeader group_transmitter virtual_connection_type
  | OutHeaderAck stacked_ratchet u32 u64 u64 ticket kem_transfer_status
  | OutWaves "packet_coordinate list"
  | OutRekeyResult ticket rekey_return_type
  | OutRequestRejected ticket
  | OutDisconnect bool stacked_ratchet ticket

datatype processor_result = Void | EndSession string | ReplyToSender node_out

type_synonym queued_message = "ticket \<times> secure_message_packet \<times> virtual_connection_type \<times> security_level"

record session_node =
  sn_connected :: bool
  sn_settings :: "(security_level \<times> secrecy_mode) option"
  to_primary_stream :: bool
  udp_disabled :: bool
  sn_c2s :: "c2s_container option"
  sn_vconns :: "(u64 \<times> endpoint_container option) list"
  sn_generated_ratchet :: "stacked_ratchet option"
  alice_hyper_ratchet :: "stacked_ctor option"
  p2p_updates :: "(u64 \<times> stacked_ctor) list"
  current_local_requests :: "(virtual_connection_type \<times> ticket) list"
  enqueued_packets :: "(u64 \<times> queued_message list) list"
  outbound_transmitters :: "((u64 \<times> u64) \<times> stacked_ctor option \<times> group_transmitter) list"
  sn_out :: "node_out list"

definition emit :: "node_out \<Rightarrow> session_node \<Rightarrow> session_node" where
  "emit x node = node\<lparr>sn_out := sn_out node @ [x]\<rparr>"

text \<open>
  The session's own sender, which the handlers use for all but replies, may be absent; the sender of the state container
  is part of the container of the server connection.
\<close>

definition send_to_primary_stream :: "node_out \<Rightarrow> session_node \<Rightarrow> (unit, network_error) result \<times> session_node" where
  "send_to_primary_stream x node =
     (if to_primary_stream node then (Ok (), emit x node)
      else (Err (InternalError ''Primary stream sender absent''), node))"

definition get_primary_stream :: "session_node \<Rightarrow> bool" where
  "get_primary_stream node \<longleftrightarrow> sn_c2s node \<noteq> None"

text \<open>
  The container of a connection: none is the connection to the server, some CID the one to that peer. As the CID of
  a target, 0 stands for the server.
\<close>

type_synonym conn = "u64 option"

definition conn_of_target :: "u64 \<Rightarrow> conn" where
  "conn_of_target target = (if target \<noteq> C2S_ENCRYPTION_ONLY then Some target else None)"

definition conn_target :: "conn \<Rightarrow> u64" where
  "conn_target conn = (case conn of Some cid \<Rightarrow> cid | None \<Rightarrow> C2S_ENCRYPTION_ONLY)"

definition crypt_of :: "conn \<Rightarrow> session_node \<Rightarrow> stacked_crypto option" where
  "crypt_of conn node =
     (case conn of
        None \<Rightarrow> map_option c2s_crypto (sn_c2s node)
      | Some cid \<Rightarrow> (case map_of (sn_vconns node) cid of Some (Some ep) \<Rightarrow> Some (ep_crypto ep) | _ \<Rightarrow> None))"

definition set_crypt :: "conn \<Rightarrow> stacked_crypto \<Rightarrow> session_node \<Rightarrow> session_node" where
  "set_crypt conn sc node =
     (case conn of
        None \<Rightarrow> node\<lparr>sn_c2s := map_option (\<lambda>c. c\<lparr>c2s_crypto := sc\<rparr>) (sn_c2s node)\<rparr>
      | Some cid \<Rightarrow>
          (case map_of (sn_vconns node) cid of
             Some (Some ep) \<Rightarrow> node\<lparr>sn_vconns := AList.update cid (Some (ep\<lparr>ep_crypto := sc\<rparr>)) (sn_vconns node)\<rparr>
           | _ \<Rightarrow> node))"

text \<open>Taking the container of the server connection is unwrapped by the code, that of a peer is not.\<close>

definition take_crypt :: "conn \<Rightarrow> session_node \<Rightarrow> (stacked_crypto, unit) result" where
  "take_crypt conn node =
     (case crypt_of conn node of
        Some sc \<Rightarrow> Ok sc
      | None \<Rightarrow> if conn = None then Panic else Err ())"

definition get_secrecy_mode :: "u64 \<Rightarrow> session_node \<Rightarrow> secrecy_mode option" where
  "get_secrecy_mode target node =
     (if target \<noteq> C2S_ENCRYPTION_ONLY
      then case map_of (sn_vconns node) target of Some (Some ep) \<Rightarrow> Some (ep_secrecy_mode ep) | _ \<Rightarrow> None
      else map_option snd (sn_settings node))"

definition get_resp_target_cid_from_header :: "hdp_header \<Rightarrow> u64" where
  "get_resp_target_cid_from_header header =
     (if target_cid header \<noteq> C2S_ENCRYPTION_ONLY then session_cid header else C2S_ENCRYPTION_ONLY)"

definition header_to_vconn_type :: "hdp_header \<Rightarrow> virtual_connection_type" where
  "header_to_vconn_type header =
     (if target_cid header \<noteq> C2S_ENCRYPTION_ONLY then LocalGroupPeer (target_cid header) (session_cid header)
      else LocalGroupServer (session_cid header))"

definition get_proper_hyper_ratchet :: "u32 \<Rightarrow> session_node \<Rightarrow> (u64 \<times> u64) option \<Rightarrow> stacked_ratchet option" where
  "get_proper_hyper_ratchet header_drill_vers node proxy_cid_info =
     (case proxy_cid_info of
        Some (original_implicated_cid, original_target_cid) \<Rightarrow>
          Option.bind (crypt_of (Some original_implicated_cid) node) (\<lambda>c. pc_get_hyper_ratchet c (Some header_drill_vers))
      | None \<Rightarrow>
          if \<not> sn_connected node then sn_generated_ratchet node
          else Option.bind (crypt_of None node) (\<lambda>c. pc_get_hyper_ratchet c (Some header_drill_vers)))"

definition forward_data_to_ordered_channel :: "u64 \<Rightarrow> u64 \<Rightarrow> bytes \<Rightarrow> session_node \<Rightarrow> bool \<times> session_node" where
  "forward_data_to_ordered_channel target group_id data node =
     (if target = 0 then
        case sn_c2s node of
          Some c \<Rightarrow>
            let (res, ch) = oc_on_packet_received group_id data (c2s_channel c)
            in (res = Ok (), node\<lparr>sn_c2s := Some (c\<lparr>c2s_channel := ch\<rparr>)\<rparr>)
        | None \<Rightarrow> (False, node)
      else
        case map_of (sn_vconns node) target of
          Some (Some ep) \<Rightarrow>
            let (res, ch) = oc_on_packet_received group_id data (ep_channel ep)
            in (res = Ok (), node\<lparr>sn_vconns := AList.update target (Some (ep\<lparr>ep_channel := ch\<rparr>)) (sn_vconns node)\<rparr>)
        | _ \<Rightarrow> (False, node))"

definition on_complete :: "virtual_connection_type \<Rightarrow> rekey_return_type \<Rightarrow> session_node \<Rightarrow> session_node" where
  "on_complete v_conn_type status node =
     (case map_of (current_local_requests node) v_conn_type of
        Some ticket \<Rightarrow>
          emit (OutRekeyResult ticket status)
            (node\<lparr>current_local_requests := AList.delete v_conn_type (current_local_requests node)\<rparr>)
      | None \<Rightarrow> node)"

section \<open>Key exchanges\<close>

text \<open>
  The exchange of an update carries a transfer of stacked ratchets; \<open>hr\<close> is the ratchet that opened the packet.
\<close>

definition update_toolset_as_bob ::
    "stacked_rt \<Rightarrow> u64 \<Rightarrow> alice_to_bob_transfer_type \<Rightarrow> stacked_ratchet \<Rightarrow> stacked_crypto \<Rightarrow>
     (kem_transfer_status, unit) result \<times> stacked_crypto" where
  "update_toolset_as_bob rt cid transfer hr crypt =
     (case rbind (rt_get_next_constructor_opts rt hr) (\<lambda>opts.
             rt_new_bob rt cid (get_declared_new_version transfer) opts transfer) of
        Ok ctor \<Rightarrow> let (res, crypt) = update_sync_safe rt ctor False cid crypt in (discard_err res, crypt)
      | Err e \<Rightarrow> (Err (), crypt)
      | Panic \<Rightarrow> (Panic, crypt))"

definition attempt_kem_as_bob ::
    "stacked_rt \<Rightarrow> u64 \<Rightarrow> hdp_header \<Rightarrow> alice_to_bob_transfer_type option \<Rightarrow> stacked_ratchet \<Rightarrow> session_node \<Rightarrow>
     (kem_transfer_status, unit) result \<times> session_node" where
  "attempt_kem_as_bob rt resp_target_cid header transfer hr node =
     (case transfer of
        None \<Rightarrow> (Ok KemEmpty, node)
      | Some transfer \<Rightarrow>
          (case take_crypt (conn_of_target resp_target_cid) node of
             Ok crypt \<Rightarrow>
               let local_cid = (if resp_target_cid \<noteq> C2S_ENCRYPTION_ONLY then target_cid header else session_cid header);
                   (res, crypt) = update_toolset_as_bob rt local_cid transfer hr crypt
               in (res, set_crypt (conn_of_target resp_target_cid) crypt node)
           | Err e \<Rightarrow> (Err (), node)
           | Panic \<Rightarrow> (Panic, node)))"

definition alice_commit ::
    "stacked_rt \<Rightarrow> u64 \<Rightarrow> bob_to_alice_transfer_type \<Rightarrow> u32 option \<Rightarrow> stacked_ctor \<Rightarrow> stacked_crypto \<Rightarrow>
     (stacked_ratchet option, unit) result \<times> stacked_crypto" where
  "alice_commit rt local_cid transfer truncation ctor crypt =
     (case rt_stage1_alice rt transfer ctor of
        Panic \<Rightarrow> (Panic, crypt)
      | Err e \<Rightarrow> (Err (), crypt)
      | Ok ctor \<Rightarrow>
          (case update_sync_safe rt ctor True local_cid crypt of
             (Panic, crypt) \<Rightarrow> (Panic, crypt)
           | (Err e, crypt) \<Rightarrow> (Err (), crypt)
           | (Ok status, crypt) \<Rightarrow>
               (case (case truncation of None \<Rightarrow> Ok crypt | Some version \<Rightarrow> pc_deregister_oldest_hyper_ratchet version crypt) of
                  Panic \<Rightarrow> (Panic, crypt)
                | Err e \<Rightarrow> (Err (), crypt)
                | Ok crypt \<Rightarrow>
                    let crypt = post_alice_stage1_or_post_stage1_bob crypt in
                    if truncation \<noteq> None
                    then (rbind (ok_or () (pc_get_hyper_ratchet crypt None)) (\<lambda>r. Ok (Some r)), crypt)
                    else
                      let (latest, crypt) = maybe_unlock True crypt
                      in (rbind (ok_or () latest) (\<lambda>r. Ok (Some r)), crypt))))"

text \<open>Both secrecy modes do the same here.\<close>

definition attempt_kem_as_alice_finish ::
    "stacked_rt \<Rightarrow> u64 \<Rightarrow> u64 \<Rightarrow> kem_transfer_status \<Rightarrow> stacked_ctor option \<Rightarrow> session_node \<Rightarrow>
     (stacked_ratchet option, unit) result \<times> session_node" where
  "attempt_kem_as_alice_finish rt peer_cid target transfer ctor node =
     (let key = (if target \<noteq> C2S_ENCRYPTION_ONLY then Some peer_cid else None);
          local_cid = (if target \<noteq> C2S_ENCRYPTION_ONLY then target else peer_cid)
      in case take_crypt key node of
           Err e \<Rightarrow> (Err (), node)
         | Panic \<Rightarrow> (Panic, node)
         | Ok crypt \<Rightarrow>
             (case transfer of
                KemSome tx status \<Rightarrow>
                  (case ctor of
                     None \<Rightarrow> (Ok None, node)
                   | Some ctor \<Rightarrow>
                       let (res, crypt) = alice_commit rt local_cid tx (requires_truncation transfer) ctor crypt
                       in (res, set_crypt key crypt node))
              | Omitted \<Rightarrow>
                  let (latest, crypt) = maybe_unlock True crypt
                  in (rbind (ok_or () latest) (\<lambda>r. Ok (Some r)), set_crypt key crypt node)
              | StatusNoTransfer status \<Rightarrow> (Err (), node)
              | KemEmpty \<Rightarrow> (Ok None, node)))"

section \<open>Outbound messages\<close>

definition queue_of :: "u64 \<Rightarrow> session_node \<Rightarrow> queued_message list" where
  "queue_of target node = (case map_of (enqueued_packets node) target of Some q \<Rightarrow> q | None \<Rightarrow> [])"

definition set_queue :: "u64 \<Rightarrow> queued_message list \<Rightarrow> session_node \<Rightarrow> session_node" where
  "set_queue target q node = node\<lparr>enqueued_packets := AList.update target q (enqueued_packets node)\<rparr>"

definition enqueue_packet :: "u64 \<Rightarrow> queued_message \<Rightarrow> session_node \<Rightarrow> session_node" where
  "enqueue_packet target m node = set_queue target (queue_of target node @ [m]) node"

definition has_enqueued :: "u64 \<Rightarrow> session_node \<Rightarrow> bool" where
  "has_enqueued target node \<longleftrightarrow> queue_of target node \<noteq> []"

text \<open>
  The decision whether a message goes out now: with the constructor of a key exchange, if one may start, or, in
  best-effort mode, without; in perfect mode a message that cannot bring an exchange waits. A security
  level above the ratchet's is refused.
\<close>

datatype send_decision = SendNow "stacked_ctor option" stacked_ratchet u64 | Wait

definition decide_message ::
    "stacked_rt \<Rightarrow> secrecy_mode \<Rightarrow> security_level \<Rightarrow> bool \<Rightarrow> stacked_crypto \<Rightarrow>
     (send_decision, network_error) result \<times> stacked_crypto" where
  "decide_message rt mode level called_from_poll crypt =
     (case pc_get_hyper_ratchet crypt None of
        None \<Rightarrow> (Panic, crypt)
      | Some latest \<Rightarrow>
          (case verify_level latest (Some level) of
             Panic \<Rightarrow> (Panic, crypt)
           | Err e \<Rightarrow> (Err (NetGeneric ''Invalid security level''), crypt)
           | Ok idx \<Rightarrow>
               (case get_next_constructor rt called_from_poll crypt of
                  (Panic, crypt) \<Rightarrow> (Panic, crypt)
                | (ctor, crypt) \<Rightarrow>
                    if mode = Perfect \<and> ok ctor = None then (Ok Wait, crypt)
                    else
                      let (group_id, crypt) = get_and_increment_group_id crypt
                      in (Ok (SendNow (ok ctor) latest group_id), crypt))))"

text \<open>
  The transmitter sends the header, which unwraps the first message of the exchange; afterwards its container holds the
  constructor, under the key of the group.
\<close>

definition transmit_message ::
    "nat \<Rightarrow> stacked_rt \<Rightarrow> stacked_ctor option \<Rightarrow> stacked_ratchet \<Rightarrow> u64 \<Rightarrow> u64 \<Rightarrow> queued_message \<Rightarrow> session_node \<Rightarrow>
     (unit, network_error) result \<times> session_node" where
  "transmit_message now rt ctor latest group_id key_cid m node =
     (case m of (ticket, packet, virtual_target, level) \<Rightarrow>
        (case new_message now 0 latest ctor packet level group_id ticket of
           Panic \<Rightarrow> (Panic, node)
         | Err e \<Rightarrow> (Err (InternalError ''Unable to create the outbound transmitter''), node)
         | Ok transmitter \<Rightarrow>
             if (case ctor of None \<Rightarrow> False | Some c \<Rightarrow> ok (rt_stage0_alice rt c) = None) then (Panic, node)
             else
             let node = emit (OutGroupHeader transmitter virtual_target) node
             in (Ok (), node\<lparr>outbound_transmitters := AList.update (key_cid, group_id)
                   (ctor, transmitter\<lparr>gt_base_constructor := None, gt_sender := snd (get_oneshot (gt_sender transmitter))\<rparr>)
                   (outbound_transmitters node)\<rparr>)))"

text \<open>Sending over one connection; \<open>key_cid\<close> is the first part of the group's key.\<close>

definition send_over ::
    "nat \<Rightarrow> stacked_rt \<Rightarrow> secrecy_mode \<Rightarrow> bool \<Rightarrow> conn \<Rightarrow> u64 \<Rightarrow> stacked_crypto \<Rightarrow> queued_message \<Rightarrow> session_node \<Rightarrow>
     (unit, network_error) result \<times> session_node" where
  "send_over now rt mode called_from_poll conn key_cid crypt m node =
     (case m of (ticket, packet, virtual_target, level) \<Rightarrow>
        (case decide_message rt mode level called_from_poll crypt of
           (Panic, crypt) \<Rightarrow> (Panic, set_crypt conn crypt node)
         | (Err e, crypt) \<Rightarrow> (Err e, set_crypt conn crypt node)
         | (Ok Wait, crypt) \<Rightarrow>
             if conn \<noteq> None \<and> called_from_poll then (Panic, set_crypt conn crypt node)
             else (Ok (), enqueue_packet (conn_target conn) m (set_crypt conn crypt node))
         | (Ok (SendNow ctor latest group_id), crypt) \<Rightarrow>
             transmit_message now rt ctor latest group_id key_cid m (set_crypt conn crypt node)))"

text \<open>
  The messages to peers that are not connected are dropped with a log line. A polled message to a peer that has to wait
  ends the process in the code.
\<close>

definition process_outbound_message ::
    "nat \<Rightarrow> stacked_rt \<Rightarrow> queued_message \<Rightarrow> bool \<Rightarrow> session_node \<Rightarrow> (unit, network_error) result \<times> session_node" where
  "process_outbound_message now rt m called_from_poll node =
     (case m of (ticket, packet, virtual_target, level) \<Rightarrow>
        let target = get_target_cid virtual_target in
        if \<not> sn_connected node then (Err (NetGeneric ''the session is not connected''), node)
        else case get_secrecy_mode target node of
            None \<Rightarrow> (Err (InternalError ''Secrecy mode not loaded''), node)
          | Some mode \<Rightarrow>
              if mode = Perfect \<and> \<not> called_from_poll \<and> has_enqueued target node
              then (Ok (), enqueue_packet target m node)
              else if mode = Perfect \<and> \<not> called_from_poll \<and> crypt_of (conn_of_target target) node = None
              then (Err (InternalError ''Update in progress not loaded for client''), node)
              else if mode = Perfect \<and> \<not> called_from_poll \<and>
                      (case crypt_of (conn_of_target target) node of Some c \<Rightarrow> update_in_progress c | None \<Rightarrow> False)
              then (Ok (), enqueue_packet target m node)
              else
                (case virtual_target of
                   LocalGroupServer implicated_cid \<Rightarrow>
                     (case crypt_of None node of
                        None \<Rightarrow> (Panic, node)
                      | Some crypt \<Rightarrow>
                          send_over now rt mode called_from_poll None implicated_cid crypt m node)
                 | LocalGroupPeer implicated_cid peer_cid \<Rightarrow>
                     if \<not> get_primary_stream node then (Panic, node)
                     else (case map_of (sn_vconns node) peer_cid of
                        None \<Rightarrow> (Ok (), node)
                      | Some None \<Rightarrow> (Err (InternalError ''Endpoint container not found''), node)
                      | Some (Some ep) \<Rightarrow>
                          send_over now rt mode called_from_poll (Some peer_cid) peer_cid (ep_crypto ep) m node)
                 | _ \<Rightarrow> (Err (InvalidRequest ''HyperWAN functionality not yet implemented''), node)))"

text \<open>
  Polling sets the update flag of the connection with \<open>fetch_nand(false)\<close> before it looks at the queue. The map
  \<open>updates_in_progress\<close> of the code holds clones of the flags of the containers, made when a connection is
  loaded; here the flag is read from the container.
\<close>

definition poll_next_enqueued ::
    "nat \<Rightarrow> stacked_rt \<Rightarrow> u64 \<Rightarrow> session_node \<Rightarrow> (bool, network_error) result \<times> session_node" where
  "poll_next_enqueued now rt target node =
     (case get_secrecy_mode target node of
        None \<Rightarrow> (Err (InternalError ''Secrecy mode not loaded''), node)
      | Some BestEffort \<Rightarrow> (Ok False, node)
      | Some Perfect \<Rightarrow>
          (case crypt_of (conn_of_target target) node of
             None \<Rightarrow> (Err (InternalError ''Update state not loaded in hashmap!''), node)
           | Some crypt \<Rightarrow>
               let (in_progress, flag) = fetch_nand False (update_in_progress crypt);
                   node = set_crypt (conn_of_target target) (crypt\<lparr>update_in_progress := flag\<rparr>) node
               in if in_progress then (Ok False, node)
                  else case queue_of target node of
                      [] \<Rightarrow> (Ok False, set_queue target [] node)
                    | m # q \<Rightarrow>
                        let (res, node) = process_outbound_message now rt m True (set_queue target q node)
                        in (rbind res (\<lambda>_. Ok True), node)))"

section \<open>Key updates\<close>

text \<open>Errors of the poll that ends a handler are returned by the handler.\<close>

definition then_poll ::
    "nat \<Rightarrow> stacked_rt \<Rightarrow> bool \<Rightarrow> u64 \<Rightarrow> session_node \<Rightarrow> (processor_result, network_error) result \<times> session_node" where
  "then_poll now rt do_poll target node =
     (if do_poll then let (res, node) = poll_next_enqueued now rt target node in (rbind res (\<lambda>_. Ok Void), node)
      else (Ok Void, node))"

definition process_stage0 ::
    "stacked_rt \<Rightarrow> hdp_header \<Rightarrow> stacked_ratchet \<Rightarrow> alice_to_bob_transfer_type \<Rightarrow> session_node \<Rightarrow>
     (processor_result, network_error) result \<times> session_node" where
  "process_stage0 rt header hr transfer node =
     (let resp_target_cid = get_resp_target_cid_from_header header in
      case attempt_kem_as_bob rt resp_target_cid header (Some transfer) hr node of
        (Panic, node) \<Rightarrow> (Panic, node)
      | (Err e, node) \<Rightarrow> (Ok Void, node)
      | (Ok status, node) \<Rightarrow> (Ok (ReplyToSender (OutRekey hr resp_target_cid (Stage1 status))), node))"

text \<open>The constructor of the pending update is taken out, whatever happens next.\<close>

definition take_constructor :: "hdp_header \<Rightarrow> session_node \<Rightarrow> stacked_ctor option \<times> session_node" where
  "take_constructor header node =
     (if target_cid header \<noteq> C2S_ENCRYPTION_ONLY
      then (map_of (p2p_updates node) (session_cid header),
            node\<lparr>p2p_updates := AList.delete (session_cid header) (p2p_updates node)\<rparr>)
      else (alice_hyper_ratchet node, node\<lparr>alice_hyper_ratchet := None\<rparr>))"

definition process_stage1 ::
    "stacked_rt \<Rightarrow> hdp_header \<Rightarrow> stacked_ratchet \<Rightarrow> kem_transfer_status \<Rightarrow> session_node \<Rightarrow>
     (processor_result, network_error) result \<times> session_node" where
  "process_stage1 rt header hr status node =
     (let resp_target_cid = get_resp_target_cid_from_header header;
          needs_truncate = requires_truncation status;
          (ctor, node) = take_constructor header node
      in if ctor = None \<or> sn_settings node = None then (Ok Void, node)
         else
           case attempt_kem_as_alice_finish rt (session_cid header) (target_cid header) status ctor node of
             (Panic, node) \<Rightarrow> (Panic, node)
           | (Err e, node) \<Rightarrow> (Ok Void, node)
           | (Ok latest, node) \<Rightarrow>
               let latest_hr = (case latest of Some r \<Rightarrow> r | None \<Rightarrow> hr) in
               (case rt_version rt latest_hr of
                  Ok version \<Rightarrow>
                    let node = (if needs_truncate = None \<or> kem_omitted status
                                then on_complete (header_to_vconn_type header) (RekeySuccess version) node else node)
                    in (Ok (ReplyToSender (OutRekey latest_hr resp_target_cid (Truncate needs_truncate))), node)
                | _ \<Rightarrow> (Panic, node)))"

definition process_truncate ::
    "nat \<Rightarrow> stacked_rt \<Rightarrow> hdp_header \<Rightarrow> stacked_ratchet \<Rightarrow> u32 option \<Rightarrow> session_node \<Rightarrow>
     (processor_result, network_error) result \<times> session_node" where
  "process_truncate now rt header hr truncate_version node =
     (let resp_target_cid = get_resp_target_cid_from_header header in
      if resp_target_cid = C2S_ENCRYPTION_ONLY \<and> sn_settings node = None then (Panic, node)
      else case take_crypt (conn_of_target resp_target_cid) node of
          Panic \<Rightarrow> (Panic, node)
        | Err e \<Rightarrow> (Ok Void, node)
        | Ok crypt \<Rightarrow>
            (case (case truncate_version of
                     None \<Rightarrow> Ok crypt
                   | Some v \<Rightarrow> pc_deregister_oldest_hyper_ratchet v crypt) of
               Panic \<Rightarrow> (Panic, node)
             | dereg \<Rightarrow>
                 let secrecy_mode = get_secrecy_mode resp_target_cid node;
                     crypt = (case dereg of Ok c \<Rightarrow> c | _ \<Rightarrow> crypt);
                     crypt = post_alice_stage1_or_post_stage1_bob crypt;
                     lock_src = lock_set_by_alice crypt;
                     (latest, crypt) = maybe_unlock False crypt;
                     node = set_crypt (conn_of_target resp_target_cid) crypt node
                 in case latest of
                      None \<Rightarrow> (Ok Void, node)
                    | Some r \<Rightarrow>
                        let do_poll = (lock_src = Some False);
                            (sent, node) = (case truncate_version of
                                 None \<Rightarrow> (Ok (), node)
                               | Some v \<Rightarrow> send_to_primary_stream (OutRekey hr resp_target_cid (TruncateAck v)) node)
                        in case sent of
                             Ok u \<Rightarrow> then_poll now rt (secrecy_mode = Some Perfect \<and> do_poll) resp_target_cid node
                           | Err e \<Rightarrow> (Err e, node)
                           | Panic \<Rightarrow> (Panic, node)))"

definition process_truncate_ack ::
    "nat \<Rightarrow> stacked_rt \<Rightarrow> hdp_header \<Rightarrow> stacked_ratchet \<Rightarrow> u32 \<Rightarrow> session_node \<Rightarrow>
     (processor_result, network_error) result \<times> session_node" where
  "process_truncate_ack now rt header hr truncated_version node =
     (let resp_target_cid = get_resp_target_cid_from_header header in
      if resp_target_cid = C2S_ENCRYPTION_ONLY \<and> sn_settings node = None then (Panic, node)
      else case take_crypt (conn_of_target resp_target_cid) node of
          Panic \<Rightarrow> (Panic, node)
        | Err e \<Rightarrow> (Ok Void, node)
        | Ok crypt \<Rightarrow>
            let secrecy_mode = get_secrecy_mode resp_target_cid node;
                (latest, crypt) = maybe_unlock True crypt;
                node = set_crypt (conn_of_target resp_target_cid) crypt node
            in if latest = None then (Ok Void, node)
               else
                 case then_poll now rt (secrecy_mode = Some Perfect) resp_target_cid node of
                   (Ok x, node) \<Rightarrow>
                     (case rt_version rt hr of
                        Ok version \<Rightarrow> (Ok Void, on_complete (header_to_vconn_type header) (RekeySuccess version) node)
                      | _ \<Rightarrow> (Panic, node))
                 | (res, node) \<Rightarrow> (res, node))"

fun process_rekey_cmd ::
    "nat \<Rightarrow> stacked_rt \<Rightarrow> hdp_header \<Rightarrow> stacked_ratchet \<Rightarrow> rekey_msg \<Rightarrow> session_node \<Rightarrow>
     (processor_result, network_error) result \<times> session_node" where
  "process_rekey_cmd now rt header hr (Stage0 transfer) node = process_stage0 rt header hr transfer node"
| "process_rekey_cmd now rt header hr (Stage1 status) node = process_stage1 rt header hr status node"
| "process_rekey_cmd now rt header hr (Truncate v) node = process_truncate now rt header hr v node"
| "process_rekey_cmd now rt header hr (TruncateAck v) node = process_truncate_ack now rt header hr v node"

text \<open>The payload of a key update packet by its auxiliary command.\<close>

record rekey_codec =
  rc_stage0 :: "alice_to_bob_transfer deserializer"
  rc_stage1 :: "kem_transfer_status deserializer"
  rc_truncate :: "u32 option deserializer"
  rc_truncate_ack :: "u32 deserializer"

definition rekey_payload :: "rekey_codec \<Rightarrow> u8 \<Rightarrow> bytes \<Rightarrow> (rekey_msg, unit) result" where
  "rekey_payload codec aux payload =
     (if aux = DRILL_STAGE0 then rbind (drill_validate_stage0 (rc_stage0 codec) payload) (\<lambda>t. Ok (Stage0 (A2B_Default t)))
      else if aux = DRILL_STAGE1 then rbind (drill_validate_stage1 (rc_stage1 codec) payload) (\<lambda>s. Ok (Stage1 s))
      else if aux = DRILL_TRUNCATE then rbind (drill_validate_truncate (rc_truncate codec) payload) (\<lambda>v. Ok (Truncate v))
      else if aux = DRILL_TRUNCATE_ACK
      then rbind (drill_validate_truncate_ack (rc_truncate_ack codec) payload) (\<lambda>v. Ok (TruncateAck v))
      else Err ())"

text \<open>
  The ratchet that opened a packet is a shared reference: the counters its validation moved are those of the toolset.
\<close>

definition store_ratchet :: "u32 \<Rightarrow> stacked_ratchet \<Rightarrow> stacked_crypto \<Rightarrow> stacked_crypto" where
  "store_ratchet version hr crypt =
     (let ts = pc_toolset crypt; idx = get_adjusted_index ts version in
      crypt\<lparr>pc_toolset := ts\<lparr>ts_map := (ts_map ts)[idx := hr]\<rparr>\<rparr>)"

definition store_proper_hyper_ratchet ::
    "u32 \<Rightarrow> (u64 \<times> u64) option \<Rightarrow> stacked_ratchet \<Rightarrow> session_node \<Rightarrow> session_node" where
  "store_proper_hyper_ratchet version proxy_cid_info hr node =
     (let conn = map_option fst proxy_cid_info in
      case crypt_of conn node of
        Some crypt \<Rightarrow> set_crypt conn (store_ratchet version hr crypt) node
      | None \<Rightarrow> node)"

definition process_rekey ::
    "nat \<Rightarrow> rekey_codec \<Rightarrow> stacked_rt \<Rightarrow> bytes \<Rightarrow> u32 \<Rightarrow> (u64 \<times> u64) option \<Rightarrow> session_node \<Rightarrow>
     (processor_result, network_error) result \<times> session_node" where
  "process_rekey now codec rt packet header_drill_vers proxy_cid_info node =
     (if \<not> sn_connected node then (Ok Void, node)
      else case packet_decompose packet of
          Ok (header_bytes, payload) \<Rightarrow>
            (case get_proper_hyper_ratchet header_drill_vers node proxy_cid_info of
               None \<Rightarrow> (Ok Void, node)
             | Some hr \<Rightarrow>
                 let (res, hr) = validate_custom hr header_bytes payload;
                     node = store_proper_hyper_ratchet header_drill_vers proxy_cid_info hr node
                 in case res of
                      Panic \<Rightarrow> (Panic, node)
                    | Err e \<Rightarrow> (Ok Void, node)
                    | Ok (header, payload) \<Rightarrow>
                        (case rekey_payload codec (cmd_aux header) payload of
                           Panic \<Rightarrow> (Panic, node)
                         | Err e \<Rightarrow> (Ok Void, node)
                         | Ok msg \<Rightarrow> process_rekey_cmd now rt header hr msg node))
        | Err e \<Rightarrow> (Ok Void, node)
        | Panic \<Rightarrow> (Panic, node))"

section \<open>Starting an update\<close>

definition remember_request :: "virtual_connection_type \<Rightarrow> ticket option \<Rightarrow> session_node \<Rightarrow> session_node" where
  "remember_request vt ticket node =
     (case ticket of
        None \<Rightarrow> node
      | Some t \<Rightarrow> node\<lparr>current_local_requests := AList.update vt t (current_local_requests node)\<rparr>)"

definition already_in_progress :: "ticket option \<Rightarrow> session_node \<Rightarrow> session_node" where
  "already_in_progress ticket node =
     (case ticket of None \<Rightarrow> node | Some t \<Rightarrow> emit (OutRekeyResult t RekeyAlreadyInProgress) node)"

definition initiate_c2s_update ::
    "stacked_rt \<Rightarrow> virtual_connection_type \<Rightarrow> ticket option \<Rightarrow> session_node \<Rightarrow> (unit, network_error) result \<times> session_node" where
  "initiate_c2s_update rt vt ticket node =
     (case crypt_of None node of
        None \<Rightarrow> (Panic, node)
      | Some crypt \<Rightarrow>
          (case get_next_constructor rt False crypt of
             (Panic, crypt) \<Rightarrow> (Panic, set_crypt None crypt node)
           | (Err e, crypt) \<Rightarrow> (Ok (), already_in_progress ticket (set_crypt None crypt node))
           | (Ok ctor, crypt) \<Rightarrow>
               let node = set_crypt None crypt node in
               (case pc_get_hyper_ratchet crypt None of
                  None \<Rightarrow> (Panic, node)
                | Some ratchet \<Rightarrow>
                    (case rt_stage0_alice rt ctor of
                       Panic \<Rightarrow> (Panic, node)
                     | Err e \<Rightarrow> (Err (InternalError ''Alice Construcion failed''), node)
                     | Ok transfer \<Rightarrow>
                         let node = remember_request vt ticket (node\<lparr>alice_hyper_ratchet := Some ctor\<rparr>)
                         in (Ok (), emit (OutRekey ratchet C2S_ENCRYPTION_ONLY (Stage0 transfer)) node)))))"

definition initiate_p2p_update ::
    "stacked_rt \<Rightarrow> u64 \<Rightarrow> virtual_connection_type \<Rightarrow> ticket option \<Rightarrow> session_node \<Rightarrow>
     (unit, network_error) result \<times> session_node" where
  "initiate_p2p_update rt peer_cid vt ticket node =
     (case map_of (sn_vconns node) peer_cid of
        Some (Some ep) \<Rightarrow>
          let (res, crypt) = get_next_constructor rt False (ep_crypto ep);
              node = set_crypt (Some peer_cid) crypt node
          in if res = Panic then (Panic, node)
             else
               (case pc_get_hyper_ratchet crypt None of
                  None \<Rightarrow> (Err (InternalError ''Ratchet not loaded''), node)
                | Some latest \<Rightarrow>
                    (case res of
                       Ok ctor \<Rightarrow>
                         (case rt_stage0_alice rt ctor of
                            Panic \<Rightarrow> (Panic, node)
                          | Err e \<Rightarrow> (Err (InternalError ''Alice constructor (2) failed''), node)
                          | Ok transfer \<Rightarrow>
                              let node = emit (OutRekey latest peer_cid (Stage0 transfer)) node;
                                  node = node\<lparr>p2p_updates := AList.update peer_cid ctor (p2p_updates node)\<rparr>
                              in (Ok (), remember_request vt ticket node))
                     | _ \<Rightarrow> (Ok (), already_in_progress ticket node)))
      | _ \<Rightarrow> (Err (InvalidRequest ''Peer not connected''), node))"

definition initiate_drill_update ::
    "stacked_rt \<Rightarrow> virtual_connection_type \<Rightarrow> ticket option \<Rightarrow> session_node \<Rightarrow> (unit, network_error) result \<times> session_node" where
  "initiate_drill_update rt vt ticket node =
     (if \<not> sn_connected node
      then (Err (InvalidRequest ''Cannot initiate rekey since the session is not connected''), node)
      else if sn_settings node = None then (Panic, node)
      else if \<not> get_primary_stream node then (Err (InternalError ''Primary stream not loaded''), node)
      else case vt of
          LocalGroupServer cid \<Rightarrow> initiate_c2s_update rt vt ticket node
        | LocalGroupPeer cid peer_cid \<Rightarrow> initiate_p2p_update rt peer_cid vt ticket node
        | _ \<Rightarrow> (Err (InternalError ''HyperWAN Not implemented''), node))"

section \<open>Messages that bring an exchange\<close>

definition process_message ::
    "stacked_rt \<Rightarrow> hdp_header \<Rightarrow> stacked_ratchet \<Rightarrow> (u64 \<times> u64) option \<Rightarrow> bytes \<Rightarrow> alice_to_bob_transfer option \<Rightarrow>
     session_node \<Rightarrow> (processor_result, network_error) result \<times> session_node" where
  "process_message rt header hr proxy_cid_info plaintext transfer node =
     (let resp_target_cid = get_resp_target_cid_from_header header in
      case attempt_kem_as_bob rt resp_target_cid header (map_option A2B_Default transfer) hr node of
        (Panic, node) \<Rightarrow> (Panic, node)
      | (Err e, node) \<Rightarrow> (Ok Void, node)
      | (Ok status, node) \<Rightarrow>
          let target = (case proxy_cid_info of Some (orig, t) \<Rightarrow> orig | None \<Rightarrow> 0);
              (forwarded, node) = forward_data_to_ordered_channel target (hh_group header) plaintext node
          in if \<not> forwarded then (Ok Void, node)
             else (Ok (ReplyToSender (OutHeaderAck hr (hh_wave_id header) (hh_group header) resp_target_cid
                     (context_info header) status)), node))"

definition on_group_header_ack_received ::
    "stacked_rt \<Rightarrow> u64 \<Rightarrow> u64 \<Rightarrow> u64 \<Rightarrow> kem_transfer_status \<Rightarrow> bool \<Rightarrow> session_node \<Rightarrow> (bool, unit) result \<times> session_node" where
  "on_group_header_ack_received rt peer_cid target group_id transfer fast_msg node =
     (case map_of (outbound_transmitters node) (peer_cid, group_id) of
        None \<Rightarrow> (Ok False, node)
      | Some (ctor, transmitter) \<Rightarrow>
          let node = node\<lparr>outbound_transmitters :=
                AList.update (peer_cid, group_id) (None, transmitter) (outbound_transmitters node)\<rparr> in
          (case attempt_kem_as_alice_finish rt peer_cid target transfer ctor node of
             (Panic, node) \<Rightarrow> (Panic, node)
           | (Err e, node) \<Rightarrow> (Ok True, node)
           | (Ok latest, node) \<Rightarrow>
               if fast_msg
               then (Ok True, node\<lparr>outbound_transmitters :=
                       AList.delete (peer_cid, group_id) (outbound_transmitters node)\<rparr>)
               else
                 let (packets, sent, transmitter) = transmit_tcp_file_transfer transmitter
                 in (Ok sent, emit (OutWaves packets) (node\<lparr>outbound_transmitters :=
                       AList.update (peer_cid, group_id) (None, transmitter) (outbound_transmitters node)\<rparr>))))"

definition process_header_ack ::
    "nat \<Rightarrow> stacked_rt \<Rightarrow> hdp_header \<Rightarrow> stacked_ratchet \<Rightarrow> group_header_ack \<Rightarrow> session_node \<Rightarrow>
     (processor_result, network_error) result \<times> session_node" where
  "process_header_ack now rt header hr ack node =
     (case ack of
        ReadyToReceive fast_msg initial_window transfer \<Rightarrow>
          let resp_target_cid = get_resp_target_cid_from_header header;
              peer_cid = session_cid header; target = target_cid header in
          (case sn_settings node of
             None \<Rightarrow> (Ok Void, node)
           | Some (level, secrecy_mode) \<Rightarrow>
               if resp_target_cid \<noteq> C2S_ENCRYPTION_ONLY \<and> map_of (sn_vconns node) resp_target_cid = None
               then (Ok Void, node)
               else
                 case on_group_header_ack_received rt peer_cid target (hh_group header) transfer fast_msg node of
                   (Ok True, node) \<Rightarrow>
                     let (sent, node) =
                           (if kem_has_some transfer
                            then send_to_primary_stream (OutRekey hr
                                   (if target \<noteq> C2S_ENCRYPTION_ONLY then peer_cid else C2S_ENCRYPTION_ONLY)
                                   (Truncate (requires_truncation transfer))) node
                            else (Ok (), node))
                     in (case sent of
                           Ok u \<Rightarrow> then_poll now rt (secrecy_mode = Perfect) resp_target_cid node
                         | Err e \<Rightarrow> (Err e, node)
                         | Panic \<Rightarrow> (Panic, node))
                 | (Ok False, node) \<Rightarrow>
                     (Ok (EndSession (if udp_disabled node then ''TCP sockets disconnected''
                                      else ''UDP sockets disconnected'')), node)
                 | (_, node) \<Rightarrow> (Panic, node))
      | NotReady fast_msg \<Rightarrow>
          let node = node\<lparr>outbound_transmitters :=
                AList.delete (session_cid header, hh_group header) (outbound_transmitters node)\<rparr>
          in (Ok Void, if fast_msg then node else emit (OutRequestRejected (context_info header)) node))"

end
