(* ===== verification/Rekey.thy ===== *)
theory Rekey
  imports Session_Node
begin

text \<open>
  Key updates between two sessions. The locale \<open>ratchet_exchange\<close> states what an update needs of the
  ratchets: an exchange started from a pair of ratchets that belong together ends in another such pair, of the version
  and the owners asked for. The containers of \<open>Session_Crypto\<close> rely on it; \<open>stacked_rekey\<close> interprets it
  on the stacked ratchets. The property of this theory follows one update through the handlers of \<open>Session_Node\<close>, from
  the first message to the acknowledgement of the truncation, and shows that it ends with both ends one version further, in
  agreement and unlocked.
\<close>

section \<open>What a ratchet promises\<close>

locale ratchet_exchange =
  fixes rt :: "('r, 'c) ratchet_trait"
    and peers :: "'r \<Rightarrow> 'r \<Rightarrow> bool"
    and small :: "bob_to_alice_transfer_type \<Rightarrow> bool"
  assumes peers_sym: "peers a b \<Longrightarrow> peers b a"
    and exchange: "peers a b \<Longrightarrow> rt_next_alice_constructor rt a = Ok c \<Longrightarrow> rt_stage0_alice rt c = Ok tx \<Longrightarrow>
      rt_get_next_constructor_opts rt b = Ok opts \<Longrightarrow> rt_new_bob rt cid v opts tx = Ok d \<Longrightarrow>
      rt_update_version rt w d = Ok d1 \<Longrightarrow> rt_stage0_bob rt d1 = Ok reply \<Longrightarrow> small reply \<Longrightarrow>
      \<exists>c1 c2 ra rb. rt_stage1_alice rt reply c = Ok c1 \<and> rt_update_version rt w c1 = Ok c2 \<and>
        rt_finish_with_custom_cid rt ca c2 = Ok ra \<and> rt_finish_with_custom_cid rt cb d1 = Ok rb \<and> peers ra rb \<and>
        rt_version rt ra = Ok w \<and> rt_get_cid rt ra = Ok ca \<and> rt_version rt rb = Ok w \<and> rt_get_cid rt rb = Ok cb"

text \<open>The windows of two ends: the same versions, and for each version two ratchets that are peers.\<close>

definition same_window :: "('r, 'c) ratchet_trait \<Rightarrow> ('r \<Rightarrow> 'r \<Rightarrow> bool) \<Rightarrow> 'r toolset \<Rightarrow> 'r toolset \<Rightarrow> bool" where
  "same_window rt peers a b \<longleftrightarrow>
     toolset_wf rt a \<and> toolset_wf rt b \<and> list_all2 peers (ts_map a) (ts_map b) \<and>
     most_recent_hyper_ratchet_version a = most_recent_hyper_ratchet_version b"

text \<open>Nothing is pending: the newest version is in use at both ends, and no end holds the lock.\<close>

definition idle :: "'r session_crypto \<Rightarrow> bool" where
  "idle a \<longleftrightarrow> \<not> update_in_progress a \<and> lock_set_by_alice a = None \<and>
     latest_usable_version a = most_recent_hyper_ratchet_version (pc_toolset a) \<and>
     length (ts_map (pc_toolset a)) \<le> MAX_HYPER_RATCHETS_IN_MEMORY"

definition synced :: "('r, 'c) ratchet_trait \<Rightarrow> ('r \<Rightarrow> 'r \<Rightarrow> bool) \<Rightarrow> 'r session_crypto \<Rightarrow> 'r session_crypto \<Rightarrow> bool" where
  "synced rt peers a b \<longleftrightarrow> same_window rt peers (pc_toolset a) (pc_toolset b) \<and> idle a \<and> idle b"

lemma same_window_oldest:
  "same_window rt peers a b \<Longrightarrow> oldest_hyper_ratchet_version a = oldest_hyper_ratchet_version b \<and>
     length (ts_map a) = length (ts_map b)"
  by (auto simp: same_window_def toolset_wf_def dest: list_all2_lengthD)

lemma most_recent_wf:
  assumes "toolset_wf rt ts"
  shows "ts_get_hyper_ratchet ts (most_recent_hyper_ratchet_version ts) = Some (hd (ts_map ts))"
  using assms by (cases "ts_map ts") (auto simp: ts_get_hyper_ratchet_def get_adjusted_index_def toolset_wf_def Let_def)

lemma idle_latest:
  "idle a \<Longrightarrow> toolset_wf rt (pc_toolset a) \<Longrightarrow> pc_get_hyper_ratchet a None = Some (hd (ts_map (pc_toolset a)))"
  by (simp add: idle_def pc_get_hyper_ratchet_def most_recent_wf)

lemma same_window_hd: "same_window rt peers a b \<Longrightarrow> peers (hd (ts_map a)) (hd (ts_map b))"
  by (cases "ts_map a"; cases "ts_map b") (auto simp: same_window_def toolset_wf_def)

lemma same_window_update:
  assumes "same_window rt peers a b" and "length (ts_map a) < 2 ^ 32" and "peers ra rb"
    and "update_from rt a ra = Ok (st, a')" and "update_from rt b rb = Ok (st', b')"
  shows "same_window rt peers a' b' \<and> st' = st"
proof -
  note len = same_window_oldest [OF assms(1)]
  with assms have "toolset_wf rt a'" "toolset_wf rt b'"
    by (auto simp: same_window_def intro: update_from_wf)
  with assms len show ?thesis by (auto simp: same_window_def update_from_iff)
qed

lemma same_window_truncate:
  assumes "same_window rt peers a b" and "deregister_oldest_hyper_ratchet v a = Ok a'"
  shows "\<exists>b'. deregister_oldest_hyper_ratchet v b = Ok b' \<and> same_window rt peers a' b'"
proof -
  note len = same_window_oldest [OF assms(1)]
  with assms(2) obtain b' where b': "deregister_oldest_hyper_ratchet v b = Ok b'"
    by (simp add: deregister_oldest_iff)
  with assms have "toolset_wf rt a'" "toolset_wf rt b'"
    by (auto simp: same_window_def intro: deregister_oldest_wf)
  with assms b' len show ?thesis
    by (auto simp: same_window_def deregister_oldest_iff list_all2_conv_all_nth nth_butlast)
qed

lemma commit_Ok_iff:
  "commit_next_hyper_ratchet_version rt c cid alice self = Ok ((tx, st), self') \<longleftrightarrow>
     (\<exists>c1 r ts. rt_update_version rt (most_recent_hyper_ratchet_version (pc_toolset self) + 1) c = Ok c1 \<and>
        (if alice then tx = None else \<exists>t. rt_stage0_bob rt c1 = Ok t \<and> tx = Some t) \<and>
        rt_finish_with_custom_cid rt cid c1 = Ok r \<and> update_from rt (pc_toolset self) r = Ok (st, ts) \<and>
        self' = self\<lparr>pc_toolset := ts\<rparr>)"
  by (cases alice) (auto simp: commit_next_hyper_ratchet_version_def Let_def)

context ratchet_exchange
begin

lemma commit_agrees:
  assumes window: "same_window rt peers (pc_toolset a) (pc_toolset b)" "length (ts_map (pc_toolset a)) < 2 ^ 32"
    and offer: "peers ra rb" "rt_next_alice_constructor rt ra = Ok c" "rt_stage0_alice rt c = Ok tx"
    and answer: "rt_get_next_constructor_opts rt rb = Ok opts" "rt_new_bob rt cid v opts tx = Ok d"
      "commit_next_hyper_ratchet_version rt d cb False b = Ok ((Some reply, st), b')" "small reply"
    and ca: "ts_cid (pc_toolset a) = ca"
  shows "\<exists>c1 a'. rt_stage1_alice rt reply c = Ok c1 \<and>
     commit_next_hyper_ratchet_version rt c1 ca True a = Ok ((None, st), a') \<and>
     same_window rt peers (pc_toolset a') (pc_toolset b') \<and> (\<exists>ts. a' = a\<lparr>pc_toolset := ts\<rparr>)"
proof -
  let ?w = "most_recent_hyper_ratchet_version (pc_toolset b) + 1"
  from answer(3) obtain d1 rb1 ts where d1: "rt_update_version rt ?w d = Ok d1" "rt_stage0_bob rt d1 = Ok reply"
    "rt_finish_with_custom_cid rt cb d1 = Ok rb1" "update_from rt (pc_toolset b) rb1 = Ok (st, ts)"
    "b' = b\<lparr>pc_toolset := ts\<rparr>" unfolding commit_Ok_iff by auto
  from exchange [OF offer answer(1,2) d1(1,2) answer(4), of ca cb] d1(3) obtain c1 c2 ra1 where
    c1: "rt_stage1_alice rt reply c = Ok c1" "rt_update_version rt ?w c1 = Ok c2"
    "rt_finish_with_custom_cid rt ca c2 = Ok ra1" "peers ra1 rb1" "rt_version rt ra1 = Ok ?w" "rt_get_cid rt ra1 = Ok ca"
    by auto
  have vers: "most_recent_hyper_ratchet_version (pc_toolset a) + 1 = ?w" using window(1) by (simp add: same_window_def)
  with c1 ca obtain st' ts' where up: "update_from rt (pc_toolset a) ra1 = Ok (st', ts')"
    by (simp add: update_from_iff)
  from same_window_update [OF window c1(4) up d1(4)] have "same_window rt peers ts' ts" "st' = st" by simp_all
  with c1 up vers d1(5) show ?thesis by (auto simp: commit_Ok_iff)
qed

end

section \<open>Stacked ratchets keep the promise\<close>

definition ratchet_peers :: "stacked_ratchet \<Rightarrow> stacked_ratchet \<Rightarrow> bool" where
  "ratchet_peers a b \<longleftrightarrow> ratchet_agree (sr_reset_ara a) (sr_reset_ara b) \<and>
     (\<exists>v ca cb. ratchet_id v ca a \<and> ratchet_id v cb b)"

definition small_reply :: "bob_to_alice_transfer_type \<Rightarrow> bool" where
  "small_reply tx \<longleftrightarrow> (case tx of
     B2A_Default reply \<Rightarrow> \<forall>c \<in> insert (bt_encrypted_scramble_drill reply) (set (bt_encrypted_msg_drills reply)). length c < 2 ^ 64
   | B2A_Fcm reply \<Rightarrow> False)"

definition sound_reply ::
    "crypto_lib \<Rightarrow> (entropy_bank \<Rightarrow> (bytes, string) result) \<Rightarrow> (bytes \<Rightarrow> (entropy_bank, string) result) \<Rightarrow>
     bob_to_alice_transfer_type \<Rightarrow> bool" where
  "sound_reply lib ser de tx \<longleftrightarrow> sound_lib lib \<and> sound_bank_codec ser de \<and> small_reply tx"

lemma pqc_agree_sym: "pqc_agree a b \<Longrightarrow> pqc_agree b a"
  unfolding pqc_agree_def by metis

lemma same_bank_sym: "same_bank a b \<Longrightarrow> same_bank b a"
  by (cases a; cases b) (simp add: same_bank_def)

lemma keys_agree_sym: "keys_agree a b \<Longrightarrow> keys_agree b a"
  using pqc_agree_sym same_bank_sym unfolding keys_agree_def pqc_agree_def by metis

lemma ratchet_agree_sym: "ratchet_agree a b \<Longrightarrow> ratchet_agree b a"
  by (auto simp: ratchet_agree_def keys_agree_sym list_all2_conv_all_nth)

lemma reset_fresh: "pq_ara p = ara_default \<Longrightarrow> reset_counters p = p"
  by (cases p) (simp add: reset_counters_def ara_reset_def ara_default_def)

lemma reset_fresh_keys: "pq_ara (rk_pqc k) = ara_default \<Longrightarrow> k\<lparr>rk_pqc := reset_counters (rk_pqc k)\<rparr> = k"
  by (simp add: reset_fresh)

lemma reset_fresh_ratchet:
  assumes "\<And>k. k \<in> insert (sr_scramble a) (set (sr_message a)) \<Longrightarrow> pq_ara (rk_pqc k) = ara_default"
  shows "sr_reset_ara a = a"
  using assms by (simp add: sr_reset_ara_def reset_fresh_keys map_idI)

lemma reset_agree: "ratchet_agree a b \<Longrightarrow> sr_reset_ara a = a \<and> sr_reset_ara b = b"
  by (intro conjI reset_fresh_ratchet)
    (auto simp: ratchet_agree_def keys_agree_def pqc_agree_def list_all2_conv_all_nth in_set_conv_nth)

lemma reset_keys_fields [simp]:
  "pq_params (reset_counters p) = pq_params p" "get_chain (reset_counters p) = get_chain p"
  by (simp_all add: reset_counters_def get_chain_def)

lemma reset_opts: "get_next_constructor_opts lib (sr_reset_ara a) = get_next_constructor_opts lib a"
  by (simp add: get_next_constructor_opts_def sr_reset_ara_def rmap_map comp_def)

lemma peers_opts:
  assumes "sound_lib lib" and "ratchet_peers a b"
  shows "\<exists>oa ob. get_next_constructor_opts lib a = Ok oa \<and> get_next_constructor_opts lib b = Ok ob \<and>
     list_all2 same_opts oa ob \<and> length oa = Suc (unat (level_value (sr_default_security_level a)))"
proof -
  from assms(2) obtain v c where id: "ratchet_id v c a" and agree: "ratchet_agree (sr_reset_ara a) (sr_reset_ara b)"
    by (auto simp: ratchet_peers_def)
  have "length (sr_message a) = Suc (unat (level_value (sr_default_security_level a)))"
    using id by (cases "sr_message a") (auto simp: ratchet_id_def unat_of_nat)
  moreover have "length (sr_message (sr_reset_ara a)) = length (sr_message a)" by (simp add: sr_reset_ara_def)
  ultimately show ?thesis using next_opts_agree [OF _ agree, of lib] assms(1) by (simp add: reset_opts sound_lib_def)
qed

lemma finished_peers:
  assumes "ratchet_agree a b" and "ratchet_id v ca a" and "ratchet_id v cb b"
  shows "ratchet_peers a b"
  using assms reset_agree [OF assms(1)] by (auto simp: ratchet_peers_def)

interpretation stacked_rekey: ratchet_exchange "stacked_trait lib ser de xr" ratchet_peers "sound_reply lib ser de"
  for lib ser de xr
proof (unfold_locales, goal_cases)
  case (1 a b)
  then show ?case by (auto simp: ratchet_peers_def intro: ratchet_agree_sym)
next
  case (2 a b c tx opts cid v d w d1 reply ca cb)
  let ?l = "Some (sr_default_security_level a)"
  from 2(8) have sound: "sound_lib lib" "sound_bank_codec ser de" "small_reply reply" by (simp_all add: sound_reply_def)
  from peers_opts [OF sound(1) 2(1)] 2(4) obtain oa where oa: "get_next_constructor_opts lib a = Ok oa"
    "list_all2 same_opts oa opts" "length oa = Suc (unat (level_value (level_or_standard ?l)))"
    by (auto simp: stacked_trait_def level_or_standard_def)
  from 2(2) oa(1) obtain cid_a va where alice: "sr_new_alice lib (xr_alice xr) oa cid_a va ?l = Ok c"
    by (auto simp: stacked_trait_def sr_next_alice_constructor_def)
  from 2(3) obtain tx' where tx: "tx = A2B_Default tx'" "sr_stage0_alice lib (xr_stage0_alice xr) c = Ok tx'"
    by (auto simp: stacked_trait_def)
  from 2(5) tx(1) have bob: "sr_new_bob lib (xr_bob xr) (xr_banks xr) cid v opts tx' = Ok d"
    by (simp add: stacked_trait_def)
  from 2(6) have version: "sr_update_version w d = Ok d1" by (simp add: stacked_trait_def)
  from 2(7) obtain r where r: "reply = B2A_Default r" "sr_stage0_bob lib ser (xr_stage0_bob xr) (xr_seal xr) d1 = Ok r"
    by (auto simp: stacked_trait_def)
  with sound(3) have "length x < 2 ^ 64"
    if "x \<in> insert (bt_encrypted_scramble_drill r) (set (bt_encrypted_msg_drills r))" for x
    using that by (auto simp: small_reply_def)
  from stacked_exchange [OF sound(1,2) alice oa(3) tx(2) bob oa(2) version r(2) this] obtain c1 where
    c1: "sr_stage1_alice lib de (B2A_Default r) c = Ok c1" "ctor_agree c1 d1" "ctor_ready w c1" "ctor_ready w d1" by blast
  from stacked_finish [OF c1(2-4), of ca cb] obtain c2 ra rb where
    fin: "sr_update_version w c1 = Ok c2" "sr_finish_with_custom_cid ca c2 = Ok ra" "sr_finish_with_custom_cid cb d1 = Ok rb"
      "ratchet_agree ra rb" "ratchet_id w ca ra" "ratchet_id w cb rb" by blast
  note ids = ratchet_id_version [OF fin(5)] ratchet_id_version [OF fin(6)]
  from c1(1) fin ids finished_peers [OF fin(4-6)] r(1) show ?case
    by (auto simp: stacked_trait_def simp del: sr_stage1_alice.simps)
qed

section \<open>Sessions\<close>

lemma set_crypt_frame [simp]:
  "sn_settings (set_crypt k c node) = sn_settings node" "sn_connected (set_crypt k c node) = sn_connected node"
  "to_primary_stream (set_crypt k c node) = to_primary_stream node" "sn_out (set_crypt k c node) = sn_out node"
  "alice_hyper_ratchet (set_crypt k c node) = alice_hyper_ratchet node"
  "p2p_updates (set_crypt k c node) = p2p_updates node"
  "enqueued_packets (set_crypt k c node) = enqueued_packets node"
  "current_local_requests (set_crypt k c node) = current_local_requests node"
  by (auto simp: set_crypt_def split: option.splits)

lemma crypt_of_set [simp]: "crypt_of k node = Some c' \<Longrightarrow> crypt_of k (set_crypt k c node) = Some c"
  by (auto simp: crypt_of_def set_crypt_def update_conv' split: option.splits)

lemma secrecy_mode_set [simp]: "get_secrecy_mode t (set_crypt k c node) = get_secrecy_mode t node"
  by (auto simp: get_secrecy_mode_def set_crypt_def update_conv' split: option.splits)

lemma emit_frame [simp]:
  "sn_c2s (emit x node) = sn_c2s node" "sn_vconns (emit x node) = sn_vconns node" "sn_settings (emit x node) = sn_settings node"
  "sn_out (emit x node) = sn_out node @ [x]" "sn_connected (emit x node) = sn_connected node"
  "to_primary_stream (emit x node) = to_primary_stream node" "alice_hyper_ratchet (emit x node) = alice_hyper_ratchet node"
  "p2p_updates (emit x node) = p2p_updates node"
  by (simp_all add: emit_def)

lemma crypt_of_emit [simp]: "crypt_of k (emit x node) = crypt_of k node"
  "get_secrecy_mode t (emit x node) = get_secrecy_mode t node"
  by (simp_all add: crypt_of_def get_secrecy_mode_def split: option.split)

lemma on_complete_frame [simp]:
  "crypt_of k (on_complete vt st node) = crypt_of k node"
  "get_secrecy_mode t (on_complete vt st node) = get_secrecy_mode t node"
  "sn_settings (on_complete vt st node) = sn_settings node"
  by (auto simp: on_complete_def crypt_of_def get_secrecy_mode_def split: option.splits)

text \<open>The connection that a header belongs to at its receiver, and the receiver's own CID.\<close>

definition header_conn :: "hdp_header \<Rightarrow> conn" where
  "header_conn h = (if target_cid h \<noteq> C2S_ENCRYPTION_ONLY then Some (session_cid h) else None)"

definition header_local_cid :: "hdp_header \<Rightarrow> u64" where
  "header_local_cid h = (if target_cid h \<noteq> C2S_ENCRYPTION_ONLY then target_cid h else session_cid h)"

definition routed :: "hdp_header \<Rightarrow> bool" where
  "routed h \<longleftrightarrow> target_cid h \<noteq> C2S_ENCRYPTION_ONLY \<longrightarrow> session_cid h \<noteq> C2S_ENCRYPTION_ONLY"

lemma routed_conn: "routed h \<Longrightarrow> conn_of_target (get_resp_target_cid_from_header h) = header_conn h"
  by (simp add: routed_def conn_of_target_def get_resp_target_cid_from_header_def header_conn_def)

text \<open>What the initiator of an update looks like after its first message.\<close>

definition pending_ctor :: "conn \<Rightarrow> session_node \<Rightarrow> stacked_ctor option" where
  "pending_ctor k node = (case k of None \<Rightarrow> alice_hyper_ratchet node | Some cid \<Rightarrow> map_of (p2p_updates node) cid)"

definition vt_conn :: "virtual_connection_type \<Rightarrow> conn" where
  "vt_conn vt = (case vt of LocalGroupPeer cid peer \<Rightarrow> Some peer | _ \<Rightarrow> None)"

definition locked :: "stacked_crypto \<Rightarrow> stacked_crypto" where
  "locked a = a\<lparr>update_in_progress := True, lock_set_by_alice := Some True\<rparr>"

lemma idle_next_constructor:
  assumes "idle a" and "toolset_wf rt (pc_toolset a)"
  shows "get_next_constructor rt False a =
     (rt_next_alice_constructor rt (hd (ts_map (pc_toolset a))), locked a)"
  using assms idle_latest [OF assms]
  by (simp add: get_next_constructor_def idle_def Let_def locked_def pc_get_hyper_ratchet_def)

lemma remember_request_frame [simp]:
  "crypt_of k (remember_request vt t node) = crypt_of k node"
  "get_secrecy_mode x (remember_request vt t node) = get_secrecy_mode x node"
  "sn_settings (remember_request vt t node) = sn_settings node" "sn_out (remember_request vt t node) = sn_out node"
  "alice_hyper_ratchet (remember_request vt t node) = alice_hyper_ratchet node"
  "p2p_updates (remember_request vt t node) = p2p_updates node"
  by (auto simp: remember_request_def crypt_of_def get_secrecy_mode_def split: option.splits)

lemma already_in_progress_frame [simp]:
  "sn_out (already_in_progress t node) = sn_out node @ (case t of None \<Rightarrow> [] | Some t \<Rightarrow> [OutRekeyResult t RekeyAlreadyInProgress])"
  by (simp add: already_in_progress_def split: option.splits)

lemma update_fields_frame [simp]:
  "crypt_of k (node\<lparr>alice_hyper_ratchet := x\<rparr>) = crypt_of k node"
  "crypt_of k (node\<lparr>p2p_updates := y\<rparr>) = crypt_of k node"
  "get_secrecy_mode t (node\<lparr>alice_hyper_ratchet := x\<rparr>) = get_secrecy_mode t node"
  "get_secrecy_mode t (node\<lparr>p2p_updates := y\<rparr>) = get_secrecy_mode t node"
  by (simp_all add: crypt_of_def get_secrecy_mode_def split: option.split)

lemma initiate_offer:
  assumes "initiate_drill_update rt vt ticket A = (Ok (), A1)"
    and "sn_out A1 = sn_out A @ [OutRekey r t (Stage0 tx)]"
    and "crypt_of (vt_conn vt) A = Some a" and "idle a" and "toolset_wf rt (pc_toolset a)"
  shows "\<exists>c. rt_next_alice_constructor rt (hd (ts_map (pc_toolset a))) = Ok c \<and> rt_stage0_alice rt c = Ok tx \<and>
     crypt_of (vt_conn vt) A1 = Some (locked a) \<and> pending_ctor (vt_conn vt) A1 = Some c \<and>
     sn_settings A1 = sn_settings A \<and> (\<forall>x. get_secrecy_mode x A1 = get_secrecy_mode x A)"
proof -
  have latest: "pc_get_hyper_ratchet (locked a) None = Some (hd (ts_map (pc_toolset a)))"
    using idle_latest [OF assms(4,5)] by (simp add: locked_def pc_get_hyper_ratchet_def)
  note nxt = idle_next_constructor [OF assms(4,5)]
  show ?thesis
  proof (cases vt)
    case (LocalGroupServer cid)
    then show ?thesis using assms(1-3) latest nxt
      by (auto simp: initiate_drill_update_def initiate_c2s_update_def vt_conn_def pending_ctor_def Let_def
          split: if_splits result.splits option.splits)
  next
    case (LocalGroupPeer cid peer)
    then obtain ep where "map_of (sn_vconns A) peer = Some (Some ep)" "ep_crypto ep = a"
      using assms(3) by (auto simp: vt_conn_def crypt_of_def split: option.splits)
    then show ?thesis using LocalGroupPeer assms(1-3) latest nxt
      by (auto simp: initiate_drill_update_def initiate_p2p_update_def vt_conn_def pending_ctor_def Let_def update_conv'
          split: if_splits result.splits option.splits)
  qed (use assms(1) in \<open>auto simp: initiate_drill_update_def split: if_splits\<close>)
qed

lemma take_crypt_Some [simp]: "crypt_of k node = Some c \<Longrightarrow> take_crypt k node = Ok c"
  by (simp add: take_crypt_def)

definition answered :: "stacked_crypto \<Rightarrow> stacked_crypto" where
  "answered b = b\<lparr>update_in_progress := True, lock_set_by_alice := Some False\<rparr>"

lemma bob_answer:
  assumes "process_stage0 rt h hr tx B = (Ok (ReplyToSender (OutRekey r t (Stage1 st))), B1)"
    and "crypt_of (header_conn h) B = Some b" and "routed h" and "\<not> (update_in_progress b \<and> local_is_initiator b)"
  shows "\<exists>opts d reply status b'. rt_get_next_constructor_opts rt hr = Ok opts \<and>
     rt_new_bob rt (header_local_cid h) (get_declared_new_version tx) opts tx = Ok d \<and>
     commit_next_hyper_ratchet_version rt d (header_local_cid h) False b = Ok ((Some reply, status), b') \<and>
     st = KemSome reply status \<and> crypt_of (header_conn h) B1 = Some (answered b') \<and>
     sn_settings B1 = sn_settings B \<and> to_primary_stream B1 = to_primary_stream B \<and>
     (\<forall>k. pending_ctor k B1 = pending_ctor k B) \<and> (\<forall>x. get_secrecy_mode x B1 = get_secrecy_mode x B)"
proof -
  have cid: "(if get_resp_target_cid_from_header h \<noteq> C2S_ENCRYPTION_ONLY then target_cid h else session_cid h) =
      header_local_cid h"
    using assms(3) by (simp add: routed_def get_resp_target_cid_from_header_def header_local_cid_def)
  let ?res = "update_toolset_as_bob rt (header_local_cid h) tx hr b"
  have node: "fst ?res = Ok st" "B1 = set_crypt (header_conn h) (snd ?res) B"
    using assms by (auto simp: process_stage0_def attempt_kem_as_bob_def routed_conn cid Let_def case_prod_beta
        split: result.splits prod.splits)
  from node(1) assms(4) obtain opts d reply status b' where
    "rt_get_next_constructor_opts rt hr = Ok opts"
    "rt_new_bob rt (header_local_cid h) (get_declared_new_version tx) opts tx = Ok d"
    "commit_next_hyper_ratchet_version rt d (header_local_cid h) False b = Ok ((Some reply, status), b')"
    "st = KemSome reply status" "snd ?res = answered b'"
    by (auto simp: update_toolset_as_bob_def update_sync_safe_def answered_def kem_has_some_def Let_def
        split: result.splits prod.splits option.splits)
  with node(2) assms(2) show ?thesis by (auto simp: pending_ctor_def split: option.split)
qed

lemma take_constructor_frame [simp]:
  "fst (take_constructor h A) = pending_ctor (header_conn h) A"
  "crypt_of k (snd (take_constructor h A)) = crypt_of k A"
  "sn_settings (snd (take_constructor h A)) = sn_settings A"
  "get_secrecy_mode t (snd (take_constructor h A)) = get_secrecy_mode t A"
  by (auto simp: take_constructor_def pending_ctor_def header_conn_def)

lemma update_sync_safe_alice:
  "commit_next_hyper_ratchet_version rt c cid True a = Ok ((None, st), a') \<Longrightarrow>
     update_sync_safe rt c True cid a = (Ok (StatusNoTransfer st), a')"
  by (simp add: update_sync_safe_def)

lemma alice_finish:
  assumes "pending_ctor (header_conn h) A = Some c" and "crypt_of (header_conn h) A = Some a" and "sn_settings A \<noteq> None"
    and "alice_commit rt (header_local_cid h) reply (requires_truncation (KemSome reply status)) c a = (Ok (Some latest), a')"
    and "rt_version rt latest = Ok v"
  shows "\<exists>A'. process_stage1 rt h hr (KemSome reply status) A =
       (Ok (ReplyToSender (OutRekey latest (get_resp_target_cid_from_header h)
          (Truncate (requires_truncation (KemSome reply status))))), A') \<and>
     crypt_of (header_conn h) A' = Some a' \<and> sn_settings A' = sn_settings A \<and>
     (\<forall>x. get_secrecy_mode x A' = get_secrecy_mode x A)"
proof -
  obtain A0 where take: "take_constructor h A = (Some c, A0)"
    using assms(1) take_constructor_frame(1) [where h = h and A = A] by (cases "take_constructor h A") simp
  with take_constructor_frame [where h = h and A = A] have A0: "crypt_of k A0 = crypt_of k A" "sn_settings A0 = sn_settings A"
    "get_secrecy_mode t A0 = get_secrecy_mode t A" for k t by (metis snd_conv)+
  have "attempt_kem_as_alice_finish rt (session_cid h) (target_cid h) (KemSome reply status) (Some c) A0 =
      (Ok (Some latest), set_crypt (header_conn h) a' A0)"
    using assms(2,4) A0(1) by (auto simp: attempt_kem_as_alice_finish_def header_conn_def header_local_cid_def Let_def
        split: if_splits)
  with take A0 assms(2,3,5) show ?thesis
    by (auto simp: process_stage1_def Let_def simp del: requires_truncation.simps)
qed

text \<open>
  The commit of the initiator: it ends idle, unless it waits for the acknowledgement of a truncation.
\<close>

lemma truncated_most_recent:
  "deregister_oldest_hyper_ratchet v ts = Ok ts' \<Longrightarrow>
     most_recent_hyper_ratchet_version ts' = most_recent_hyper_ratchet_version ts"
  by (simp add: deregister_oldest_iff)

lemma wf_latest_version:
  assumes "toolset_wf rt ts"
  shows "rt_version rt (hd (ts_map ts)) = Ok (most_recent_hyper_ratchet_version ts)"
  using assms by (cases "ts_map ts") (auto simp: toolset_wf_def)

definition truncated :: "u32 option \<Rightarrow> 'r toolset \<Rightarrow> 'r toolset \<Rightarrow> bool" where
  "truncated trunc ts ts' \<longleftrightarrow>
     (case trunc of None \<Rightarrow> ts' = ts | Some v \<Rightarrow> deregister_oldest_hyper_ratchet v ts = Ok ts')"

lemma truncated_wf:
  "truncated trunc ts ts' \<Longrightarrow> toolset_wf rt ts \<Longrightarrow> toolset_wf rt ts' \<and>
     most_recent_hyper_ratchet_version ts' = most_recent_hyper_ratchet_version ts"
  by (auto simp: truncated_def truncated_most_recent intro: deregister_oldest_wf split: option.splits)

lemma pc_deregister_truncated:
  "truncated trunc (pc_toolset a) ts' \<Longrightarrow>
     (case trunc of None \<Rightarrow> Ok a | Some v \<Rightarrow> pc_deregister_oldest_hyper_ratchet v a) = Ok (a\<lparr>pc_toolset := ts'\<rparr>)"
  by (auto simp: truncated_def pc_deregister_oldest_hyper_ratchet_def split: option.splits)

lemma alice_commit_Ok:
  assumes idle: "idle a" and wf: "toolset_wf rt ts" and vers: "most_recent_hyper_ratchet_version ts =
      most_recent_hyper_ratchet_version (pc_toolset a) + 1"
    and stage: "rt_stage1_alice rt reply c = Ok c1"
      "commit_next_hyper_ratchet_version rt c1 cid True (locked a) = Ok ((None, status), (locked a)\<lparr>pc_toolset := ts\<rparr>)"
    and trunc: "truncated trunc ts ts'"
  shows "alice_commit rt cid reply trunc c (locked a) =
     (Ok (Some (hd (ts_map ts'))),
      a\<lparr>pc_toolset := ts', latest_usable_version := most_recent_hyper_ratchet_version ts',
        update_in_progress := trunc \<noteq> None, lock_set_by_alice := (if trunc = None then None else Some True)\<rparr>)"
proof -
  let ?a = "(locked a)\<lparr>pc_toolset := ts\<rparr>" and ?v = "most_recent_hyper_ratchet_version ts'"
  from truncated_wf [OF trunc wf] have wf': "toolset_wf rt ts'" "?v = latest_usable_version a + 1"
    using idle vers by (simp_all add: idle_def)
  have dereg: "(case trunc of None \<Rightarrow> Ok ?a | Some v \<Rightarrow> pc_deregister_oldest_hyper_ratchet v ?a) =
      Ok (?a\<lparr>pc_toolset := ts'\<rparr>)"
    using pc_deregister_truncated [of trunc ?a ts'] trunc by simp
  let ?b = "post_alice_stage1_or_post_stage1_bob ((locked a)\<lparr>pc_toolset := ts'\<rparr>)"
  have "alice_commit rt cid reply trunc c (locked a) =
      (if trunc \<noteq> None then (rbind (ok_or () (pc_get_hyper_ratchet ?b None)) (\<lambda>r. Ok (Some r)), ?b)
       else let (latest, crypt) = maybe_unlock True ?b in (rbind (ok_or () latest) (\<lambda>r. Ok (Some r)), crypt))"
    by (simp add: alice_commit_def stage(1) update_sync_safe_alice [OF stage(2)] dereg Let_def
        split del: if_split)
  then show ?thesis
    using most_recent_wf [OF wf'(1)] wf'(2)
    by (simp add: post_alice_stage1_or_post_stage1_bob_def pc_get_hyper_ratchet_def maybe_unlock_def Let_def
        fetch_nand_def locked_def)
qed

lemma bob_truncate:
  assumes node: "crypt_of (header_conn h) B = Some (answered b)" "routed h" "sn_settings B \<noteq> None" "to_primary_stream B"
      "get_secrecy_mode (get_resp_target_cid_from_header h) B \<noteq> Some Perfect"
    and wf: "toolset_wf rt (pc_toolset b)" "most_recent_hyper_ratchet_version (pc_toolset b) = latest_usable_version b + 1"
    and trunc: "truncated trunc (pc_toolset b) ts'"
  shows "\<exists>B'. process_truncate now rt h hr trunc B = (Ok Void, B') \<and>
     crypt_of (header_conn h) B' = Some (b\<lparr>pc_toolset := ts', update_in_progress := False, lock_set_by_alice := None,
       latest_usable_version := most_recent_hyper_ratchet_version ts'\<rparr>) \<and>
     sn_out B' = sn_out B @ (case trunc of None \<Rightarrow> []
       | Some v \<Rightarrow> [OutRekey hr (get_resp_target_cid_from_header h) (TruncateAck v)])"
proof -
  from truncated_wf [OF trunc wf(1)] have wf': "toolset_wf rt ts'"
    "most_recent_hyper_ratchet_version ts' = latest_usable_version b + 1" using wf(2) by simp_all
  have dereg: "(case trunc of None \<Rightarrow> Ok (answered b) | Some v \<Rightarrow> pc_deregister_oldest_hyper_ratchet v (answered b)) =
      Ok ((answered b)\<lparr>pc_toolset := ts'\<rparr>)"
    using pc_deregister_truncated [of trunc "answered b" ts'] trunc by (simp add: answered_def)
  let ?c = "post_alice_stage1_or_post_stage1_bob ((answered b)\<lparr>pc_toolset := ts'\<rparr>)"
  have unlock: "maybe_unlock False ?c = (Some (hd (ts_map ts')),
      b\<lparr>pc_toolset := ts', update_in_progress := False, lock_set_by_alice := None,
        latest_usable_version := most_recent_hyper_ratchet_version ts'\<rparr>)"
    using most_recent_wf [OF wf'(1)] wf'(2)
    by (simp add: post_alice_stage1_or_post_stage1_bob_def pc_get_hyper_ratchet_def maybe_unlock_def Let_def
        fetch_nand_def answered_def)
  show ?thesis
    using node
    by (auto simp: process_truncate_def routed_conn dereg unlock then_poll_def send_to_primary_stream_def Let_def
        split: option.splits)
qed

lemma alice_truncate_ack:
  assumes node: "crypt_of (header_conn h) A = Some a" "routed h" "sn_settings A \<noteq> None"
      "get_secrecy_mode (get_resp_target_cid_from_header h) A \<noteq> Some Perfect"
    and a: "toolset_wf rt (pc_toolset a)" "latest_usable_version a = most_recent_hyper_ratchet_version (pc_toolset a)"
      "update_in_progress a" "lock_set_by_alice a = Some True"
    and hr: "rt_version rt hr = Ok v"
  shows "\<exists>A'. process_truncate_ack now rt h hr w A = (Ok Void, A') \<and>
     crypt_of (header_conn h) A' = Some (a\<lparr>update_in_progress := False, lock_set_by_alice := None\<rparr>)"
proof -
  have "maybe_unlock True a = (Some (hd (ts_map (pc_toolset a))), a\<lparr>update_in_progress := False, lock_set_by_alice := None\<rparr>)"
    using most_recent_wf [OF a(1)] a(2-4) by (simp add: maybe_unlock_def pc_get_hyper_ratchet_def fetch_nand_def Let_def)
  with node hr show ?thesis
    by (auto simp: process_truncate_ack_def routed_conn then_poll_def Let_def)
qed

section \<open>One update\<close>

text \<open>
  The first half of an update of the connection: Alice sends her first message and Bob answers. The second half: the
  answer, the truncation and, if it was asked for, its acknowledgement. Each message reaches the other end; the
  ratchet each packet was opened with there is an argument, since the two ends change to the new ratchet in between:
  \<open>hra\<close> for the answer, \<open>hrb\<close> for the truncation and \<open>hra'\<close> for its acknowledgement.
\<close>

definition rekey_offer ::
    "nat \<Rightarrow> stacked_rt \<Rightarrow> virtual_connection_type \<Rightarrow> ticket option \<Rightarrow> hdp_header \<Rightarrow> stacked_ratchet \<Rightarrow> session_node \<Rightarrow>
     session_node \<Rightarrow> (kem_transfer_status \<times> session_node \<times> session_node) option" where
  "rekey_offer now rt vt ticket h hr A B =
     (case initiate_drill_update rt vt ticket A of
        (Ok u, A') \<Rightarrow>
          (case drop (length (sn_out A)) (sn_out A') of
             [OutRekey r t (Stage0 tx)] \<Rightarrow>
               (case process_rekey_cmd now rt h hr (Stage0 tx) B of
                  (Ok (ReplyToSender (OutRekey r t (Stage1 status))), B') \<Rightarrow> Some (status, A', B')
                | _ \<Rightarrow> None)
           | _ \<Rightarrow> None)
      | _ \<Rightarrow> None)"

definition rekey_finish ::
    "nat \<Rightarrow> stacked_rt \<Rightarrow> hdp_header \<Rightarrow> stacked_ratchet \<Rightarrow> stacked_ratchet \<Rightarrow> hdp_header \<Rightarrow> stacked_ratchet \<Rightarrow>
     kem_transfer_status \<Rightarrow> session_node \<Rightarrow> session_node \<Rightarrow> (session_node \<times> session_node) option" where
  "rekey_finish now rt ha hra hra' hb hrb status A B =
     (case process_rekey_cmd now rt ha hra (Stage1 status) A of
        (Ok (ReplyToSender (OutRekey r t (Truncate v))), A) \<Rightarrow>
          (case process_rekey_cmd now rt hb hrb (Truncate v) B of
             (Ok Void, B') \<Rightarrow>
               (case drop (length (sn_out B)) (sn_out B') of
                  [] \<Rightarrow> Some (A, B')
                | [OutRekey r t (TruncateAck w)] \<Rightarrow>
                    (case process_rekey_cmd now rt ha hra' (TruncateAck w) A of
                       (Ok Void, A) \<Rightarrow> Some (A, B')
                     | _ \<Rightarrow> None)
                | _ \<Rightarrow> None)
           | _ \<Rightarrow> None)
      | _ \<Rightarrow> None)"

text \<open>A session that can take part in an update, with best-effort secrecy.\<close>

definition best_effort_node :: "hdp_header \<Rightarrow> stacked_crypto \<Rightarrow> session_node \<Rightarrow> bool" where
  "best_effort_node h c node \<longleftrightarrow>
     routed h \<and> crypt_of (header_conn h) node = Some c \<and> sn_settings node \<noteq> None \<and> to_primary_stream node \<and>
     get_secrecy_mode (get_resp_target_cid_from_header h) node = Some BestEffort \<and>
     ts_cid (pc_toolset c) = header_local_cid h"

lemma commit_keeps_cid:
  "commit_next_hyper_ratchet_version rt d cid alice b = Ok ((tx, st), b') \<Longrightarrow>
     ts_cid (pc_toolset b') = ts_cid (pc_toolset b) \<and> (\<exists>ts. b' = b\<lparr>pc_toolset := ts\<rparr>) \<and>
     most_recent_hyper_ratchet_version (pc_toolset b') = most_recent_hyper_ratchet_version (pc_toolset b) + 1 \<and>
     length (ts_map (pc_toolset b')) = Suc (length (ts_map (pc_toolset b))) \<and>
     st = (if MAX_HYPER_RATCHETS_IN_MEMORY \<le> length (ts_map (pc_toolset b))
           then CommittedNeedsSynchronization (most_recent_hyper_ratchet_version (pc_toolset b) + 1)
                  (oldest_hyper_ratchet_version (pc_toolset b))
           else Committed (most_recent_hyper_ratchet_version (pc_toolset b) + 1)) \<and>
     oldest_hyper_ratchet_version (pc_toolset b') = oldest_hyper_ratchet_version (pc_toolset b)"
  by (auto simp: commit_Ok_iff update_from_iff)

lemma window_truncated:
  assumes "same_window rt peers ta tb" and "length (ts_map ta) \<le> Suc MAX_HYPER_RATCHETS_IN_MEMORY"
    and "trunc = (if MAX_HYPER_RATCHETS_IN_MEMORY < length (ts_map ta) then Some (oldest_hyper_ratchet_version ta) else None)"
  shows "\<exists>ta' tb'. truncated trunc ta ta' \<and> truncated trunc tb tb' \<and> same_window rt peers ta' tb' \<and>
     length (ts_map ta') \<le> MAX_HYPER_RATCHETS_IN_MEMORY"
proof (cases trunc)
  case None
  with assms show ?thesis by (auto simp: truncated_def split: if_splits)
next
  case (Some v)
  with assms obtain ta' where ta': "deregister_oldest_hyper_ratchet v ta = Ok ta'"
    by (auto simp: deregister_oldest_iff split: if_splits)
  from same_window_truncate [OF assms(1) this] Some ta' assms(2) show ?thesis
    by (auto simp: truncated_def deregister_oldest_iff)
qed

lemma initiate_appends: "\<exists>xs. sn_out (snd (initiate_drill_update rt vt ticket A)) = sn_out A @ xs"
  by (auto simp: initiate_drill_update_def initiate_c2s_update_def initiate_p2p_update_def Let_def case_prod_beta
      split: virtual_connection_type.splits result.splits option.splits prod.splits)

lemma rekey_offer_Some:
  assumes "rekey_offer now rt vt ticket hb hr A B = Some (status, A1, B1)"
    and "vt_conn vt = header_conn ha" and "best_effort_node ha a A" and "best_effort_node hb b B" and "idle a" and "idle b"
    and "toolset_wf rt (pc_toolset a)"
  shows "\<exists>c tx opts d reply st b'. rt_next_alice_constructor rt (hd (ts_map (pc_toolset a))) = Ok c \<and>
     rt_stage0_alice rt c = Ok tx \<and> rt_get_next_constructor_opts rt hr = Ok opts \<and>
     rt_new_bob rt (header_local_cid hb) (get_declared_new_version tx) opts tx = Ok d \<and>
     commit_next_hyper_ratchet_version rt d (header_local_cid hb) False b = Ok ((Some reply, st), b') \<and>
     status = KemSome reply st \<and>
     crypt_of (header_conn ha) A1 = Some (locked a) \<and> pending_ctor (header_conn ha) A1 = Some c \<and>
     sn_settings A1 \<noteq> None \<and> get_secrecy_mode (get_resp_target_cid_from_header ha) A1 = Some BestEffort \<and>
     crypt_of (header_conn hb) B1 = Some (answered b') \<and> sn_settings B1 \<noteq> None \<and> to_primary_stream B1 \<and>
     get_secrecy_mode (get_resp_target_cid_from_header hb) B1 = Some BestEffort"
proof -
  from assms(1) obtain r t tx r' t' where
    init: "initiate_drill_update rt vt ticket A = (Ok (), A1)"
    and out: "drop (length (sn_out A)) (sn_out A1) = [OutRekey r t (Stage0 tx)]"
    and answer: "process_stage0 rt hb hr tx B = (Ok (ReplyToSender (OutRekey r' t' (Stage1 status))), B1)"
    by (auto simp: rekey_offer_def split: prod.splits result.splits list.splits node_out.splits rekey_msg.splits
        processor_result.splits)
  from initiate_appends [of rt vt ticket A] init out have "sn_out A1 = sn_out A @ [OutRekey r t (Stage0 tx)]" by auto
  from initiate_offer [OF init this, of a] bob_answer [OF answer, of b] assms(2-7) show ?thesis
    unfolding best_effort_node_def idle_def by fastforce
qed

lemma rekey_finish_Some:
  assumes "process_stage1 rt ha hra status A = (Ok (ReplyToSender (OutRekey r t (Truncate trunc))), A')"
    and "process_truncate now rt hb hrb trunc B = (Ok Void, B')"
    and "sn_out B' = sn_out B @ (case trunc of None \<Rightarrow> [] | Some v \<Rightarrow> [OutRekey r' t' (TruncateAck v)])"
    and "case trunc of None \<Rightarrow> A'' = A' | Some v \<Rightarrow> process_truncate_ack now rt ha hra' v A' = (Ok Void, A'')"
  shows "rekey_finish now rt ha hra hra' hb hrb status A B = Some (A'', B')"
  using assms by (cases trunc) (simp_all add: rekey_finish_def)

text \<open>The second half in terms of the containers: \<open>ta\<close> and \<open>tb\<close> are the committed windows, \<open>ta'\<close> and \<open>tb'\<close> the truncated ones.\<close>

lemma rekey_finish_idle:
  assumes A: "crypt_of (header_conn ha) A = Some (locked a)" "pending_ctor (header_conn ha) A = Some c" "routed ha"
      "sn_settings A \<noteq> None" "get_secrecy_mode (get_resp_target_cid_from_header ha) A = Some BestEffort"
    and B: "crypt_of (header_conn hb) B = Some (answered b)" "routed hb" "sn_settings B \<noteq> None" "to_primary_stream B"
      "get_secrecy_mode (get_resp_target_cid_from_header hb) B = Some BestEffort"
    and a: "idle a" "toolset_wf rt ta" "most_recent_hyper_ratchet_version ta = latest_usable_version a + 1"
    and b: "toolset_wf rt (pc_toolset b)" "most_recent_hyper_ratchet_version (pc_toolset b) = latest_usable_version b + 1"
    and stage: "rt_stage1_alice rt reply c = Ok c1"
      "commit_next_hyper_ratchet_version rt c1 (header_local_cid ha) True (locked a) =
         Ok ((None, st), (locked a)\<lparr>pc_toolset := ta\<rparr>)"
    and trunc: "trunc = requires_truncation (KemSome reply st)" "truncated trunc ta ta'" "truncated trunc (pc_toolset b) tb'"
    and hra: "rt_version rt hra' = Ok v"
  shows "\<exists>A2 B2 a2 b2. rekey_finish now rt ha hra hra' hb hrb (KemSome reply st) A B = Some (A2, B2) \<and>
     crypt_of (header_conn ha) A2 = Some a2 \<and> crypt_of (header_conn hb) B2 = Some b2 \<and>
     pc_toolset a2 = ta' \<and> pc_toolset b2 = tb' \<and> \<not> update_in_progress a2 \<and> \<not> update_in_progress b2 \<and>
     lock_set_by_alice a2 = None \<and> lock_set_by_alice b2 = None \<and>
     latest_usable_version a2 = most_recent_hyper_ratchet_version ta' \<and>
     latest_usable_version b2 = most_recent_hyper_ratchet_version tb'"
proof -
  let ?a = "a\<lparr>pc_toolset := ta', latest_usable_version := most_recent_hyper_ratchet_version ta',
        update_in_progress := trunc \<noteq> None, lock_set_by_alice := (if trunc = None then None else Some True)\<rparr>"
  from truncated_wf [OF trunc(2) a(2)] have wf: "toolset_wf rt ta'" by simp
  from a have vers: "most_recent_hyper_ratchet_version ta = most_recent_hyper_ratchet_version (pc_toolset a) + 1"
    by (simp add: idle_def)
  from alice_finish [OF A(2,1,4) alice_commit_Ok [OF a(1,2) vers stage trunc(2), unfolded trunc(1)]
      wf_latest_version [OF wf], of hra] obtain A' where
    A': "process_stage1 rt ha hra (KemSome reply st) A = (Ok (ReplyToSender (OutRekey (hd (ts_map ta'))
        (get_resp_target_cid_from_header ha) (Truncate trunc))), A')"
      "crypt_of (header_conn ha) A' = Some ?a" "sn_settings A' = sn_settings A"
      "\<forall>x. get_secrecy_mode x A' = get_secrecy_mode x A" unfolding trunc(1) by blast
  from bob_truncate [OF B(1-4) _ b trunc(3), of now hrb] B(5) obtain B' where
    B': "process_truncate now rt hb hrb trunc B = (Ok Void, B')"
      "crypt_of (header_conn hb) B' = Some (b\<lparr>pc_toolset := tb', update_in_progress := False, lock_set_by_alice := None,
         latest_usable_version := most_recent_hyper_ratchet_version tb'\<rparr>)"
      "sn_out B' = sn_out B @ (case trunc of None \<Rightarrow> []
         | Some v \<Rightarrow> [OutRekey hrb (get_resp_target_cid_from_header hb) (TruncateAck v)])" by auto
  have "\<exists>A''. (case trunc of None \<Rightarrow> A'' = A' | Some v \<Rightarrow> process_truncate_ack now rt ha hra' v A' = (Ok Void, A'')) \<and>
      crypt_of (header_conn ha) A'' = Some (?a\<lparr>update_in_progress := False, lock_set_by_alice := None\<rparr>)"
  proof (cases trunc)
    case (Some w)
    with alice_truncate_ack [OF A'(2) A(3) _ _ _ _ _ _ hra, of now w] A' A(4,5) wf show ?thesis by simp
  qed (use A'(2) in simp)
  then obtain A'' where A'': "case trunc of None \<Rightarrow> A'' = A'
      | Some v \<Rightarrow> process_truncate_ack now rt ha hra' v A' = (Ok Void, A'')"
    "crypt_of (header_conn ha) A'' = Some (?a\<lparr>update_in_progress := False, lock_set_by_alice := None\<rparr>)" by blast
  from rekey_finish_Some [OF A'(1) B'(1,3) A''(1)] A''(2) B'(2) show ?thesis by simp
qed

text \<open>The first half leaves Alice able to commit what Bob committed.\<close>

lemma rekey_offer_commits:
  assumes lib: "sound_lib lib" "sound_bank_codec ser de" and rt: "rt = stacked_trait lib ser de xr"
    and nodes: "vt_conn vt = header_conn ha" "best_effort_node ha a A" "best_effort_node hb b B"
    and sync: "synced rt ratchet_peers a b"
    and offer: "rekey_offer now rt vt ticket hb (hd (ts_map (pc_toolset b))) A B = Some (status, A1, B1)"
    and small: "\<forall>reply st. status = KemSome reply st \<longrightarrow> small_reply reply"
  shows "\<exists>c reply st b' c1 ta. status = KemSome reply st \<and> rt_stage1_alice rt reply c = Ok c1 \<and>
     commit_next_hyper_ratchet_version rt c1 (header_local_cid ha) True (locked a) =
       Ok ((None, st), (locked a)\<lparr>pc_toolset := ta\<rparr>) \<and>
     same_window rt ratchet_peers ta (pc_toolset b') \<and> length (ts_map ta) = Suc (length (ts_map (pc_toolset a))) \<and>
     most_recent_hyper_ratchet_version ta = latest_usable_version a + 1 \<and>
     most_recent_hyper_ratchet_version (pc_toolset b') = latest_usable_version b' + 1 \<and>
     requires_truncation status = (if MAX_HYPER_RATCHETS_IN_MEMORY < length (ts_map ta)
       then Some (oldest_hyper_ratchet_version ta) else None) \<and>
     crypt_of (header_conn ha) A1 = Some (locked a) \<and> pending_ctor (header_conn ha) A1 = Some c \<and>
     sn_settings A1 \<noteq> None \<and> get_secrecy_mode (get_resp_target_cid_from_header ha) A1 = Some BestEffort \<and>
     crypt_of (header_conn hb) B1 = Some (answered b') \<and> sn_settings B1 \<noteq> None \<and> to_primary_stream B1 \<and>
     get_secrecy_mode (get_resp_target_cid_from_header hb) B1 = Some BestEffort"
proof -
  let ?ta = "pc_toolset a" and ?tb = "pc_toolset b"
  from sync have win: "same_window rt ratchet_peers ?ta ?tb" and idle: "idle a" "idle b" by (simp_all add: synced_def)
  then have wf: "toolset_wf rt ?ta" "toolset_wf rt ?tb" by (simp_all add: same_window_def)
  note len = same_window_oldest [OF win]
  from rekey_offer_Some [OF offer nodes idle wf(1)] obtain c tx opts d reply st b' where
    o: "rt_next_alice_constructor rt (hd (ts_map ?ta)) = Ok c" "rt_stage0_alice rt c = Ok tx"
      "rt_get_next_constructor_opts rt (hd (ts_map ?tb)) = Ok opts"
      "rt_new_bob rt (header_local_cid hb) (get_declared_new_version tx) opts tx = Ok d"
    and commit: "commit_next_hyper_ratchet_version rt d (header_local_cid hb) False b = Ok ((Some reply, st), b')"
    and status: "status = KemSome reply st"
    and A1: "crypt_of (header_conn ha) A1 = Some (locked a)" "pending_ctor (header_conn ha) A1 = Some c"
      "sn_settings A1 \<noteq> None" "get_secrecy_mode (get_resp_target_cid_from_header ha) A1 = Some BestEffort"
    and B1: "crypt_of (header_conn hb) B1 = Some (answered b')" "sn_settings B1 \<noteq> None" "to_primary_stream B1"
      "get_secrecy_mode (get_resp_target_cid_from_header hb) B1 = Some BestEffort"
    by blast
  note b' = commit_keeps_cid [OF commit]
  have "sound_reply lib ser de reply" using lib small status by (simp add: sound_reply_def)
  from stacked_rekey.commit_agrees [of lib ser de xr "locked a" b, folded rt, OF _ _ same_window_hd [OF win] o commit this]
  obtain c1 ta where c1: "rt_stage1_alice rt reply c = Ok c1"
    "commit_next_hyper_ratchet_version rt c1 (header_local_cid ha) True (locked a) = Ok ((None, st), (locked a)\<lparr>pc_toolset := ta\<rparr>)"
    "same_window rt ratchet_peers ta (pc_toolset b')"
    using win idle nodes(2) by (auto simp: locked_def idle_def MAX_HYPER_RATCHETS_IN_MEMORY_def best_effort_node_def)
  note len' = same_window_oldest [OF c1(3)]
  have "most_recent_hyper_ratchet_version ta = latest_usable_version a + 1"
    "most_recent_hyper_ratchet_version (pc_toolset b') = latest_usable_version b' + 1"
    using b' c1(3) idle win by (auto simp: same_window_def idle_def)
  moreover have "requires_truncation status = (if MAX_HYPER_RATCHETS_IN_MEMORY < length (ts_map ta)
      then Some (oldest_hyper_ratchet_version ta) else None)"
    using b' status len' by (simp add: less_Suc_eq_le)
  moreover have "length (ts_map ta) = Suc (length (ts_map ?ta))" using b' len len' by simp
  ultimately show ?thesis using status c1 A1 B1 by blast
qed

text \<open>Two fresh sessions with ratchets of one layer.\<close>

definition demo_chain :: recursive_chain where
  "demo_chain = \<lparr>rc_chain = replicate 32 0, rc_alice = replicate 32 1, rc_bob = replicate 32 2, rc_first = False\<rparr>"

definition demo_peer :: "pq_node \<Rightarrow> stacked_ratchet" where
  "demo_peer node =
     (let k = \<lparr>rk_drill = demo_new_bank 7 0, rk_pqc = (demo_node node)\<lparr>pq_chain := Some demo_chain\<rparr>\<rparr> in
      \<lparr>sr_message = [k], sr_scramble = k, sr_default_security_level = Standard\<rparr>)"

definition demo_rt :: stacked_rt where
  "demo_rt = stacked_trait demo_lib (demo_ser (demo_new_bank 7 1)) (demo_de (demo_new_bank 7 1)) demo_exchange_rnd"

definition demo_crypto :: "pq_node \<Rightarrow> stacked_crypto" where
  "demo_crypto node = session_crypto_new (toolset_new 7 (demo_peer node)) (node = Alice)"

definition demo_session :: "secrecy_mode \<Rightarrow> pq_node \<Rightarrow> session_node" where
  "demo_session mode node =
     \<lparr>sn_connected = True, sn_settings = Some (Standard, mode), to_primary_stream = True, udp_disabled = True,
      sn_c2s = Some \<lparr>c2s_crypto = demo_crypto node, c2s_channel = ordered_channel_new\<rparr>, sn_vconns = [],
      sn_generated_ratchet = None, alice_hyper_ratchet = None, p2p_updates = [], current_local_requests = [],
      enqueued_packets = [], outbound_transmitters = [], sn_out = []\<rparr>"

definition demo_rekey_header :: hdp_header where
  "demo_rekey_header =
     \<lparr>cmd_primary = DO_DRILL_UPDATE, cmd_aux = DRILL_STAGE0, hh_algorithm = 0, hh_security_level = 0, context_info = 0,
      hh_group = 0, hh_wave_id = 0, session_cid = 7, drill_version = 0, hh_timestamp = 0, target_cid = 0\<rparr>"

lemma demo_peers: "ratchet_peers (demo_peer Alice) (demo_peer Bob)" "ratchet_id 0 7 (demo_peer n)"
proof -
  have id: "ratchet_id 0 7 (demo_peer n)" for n
    by (simp add: ratchet_id_def demo_peer_def Let_def demo_new_bank_def level_from_u8_def)
  have "aead_pair (aes_module demo_lib k) (aes_module demo_lib k)" for k
    using aead_pair_aes [OF demo_lib_sound(1)] .
  then have "ratchet_agree (demo_peer Alice) (demo_peer Bob)"
    by (auto simp: ratchet_agree_def demo_peer_def Let_def keys_agree_def pqc_agree_def demo_node_def chain32_def
        demo_chain_def same_bank_def pqc_opens_def get_encryption_key_def get_decryption_key_def default_crypto_parameters_def)
  from finished_peers [OF this id id] show "ratchet_peers (demo_peer Alice) (demo_peer Bob)" .
  show "ratchet_id 0 7 (demo_peer n)" by (rule id)
qed

lemma demo_synced: "synced demo_rt ratchet_peers (demo_crypto Alice) (demo_crypto Bob)"
proof -
  have "rt_version demo_rt (demo_peer n) = Ok 0" "rt_get_cid demo_rt (demo_peer n) = Ok 7" for n
    by (simp_all add: demo_rt_def stacked_trait_def sr_version_def sr_get_cid_def get_layer_def demo_peer_def Let_def
        demo_new_bank_def)
  from toolset_new_wf [OF this] show ?thesis
    by (simp add: synced_def same_window_def idle_def demo_crypto_def session_crypto_new_def toolset_new_def demo_peers(1)
        MAX_HYPER_RATCHETS_IN_MEMORY_def)
qed

lemma demo_next_opts:
  "\<exists>opts. get_next_constructor_opts demo_lib (demo_peer n) = Ok opts \<and> list_all aes_opts opts \<and> length opts = 1"
  by (auto simp: get_next_constructor_opts_def demo_peer_def Let_def get_chain_def demo_chain_def recursive_chain_new_def
      demo_lib_def aes_opts_def demo_node_def opts_new_from_previous_def opts_params_def)

lemma demo_exchange_run:
  assumes "ratchet_peers (demo_peer n) (demo_peer m)"
  shows "\<exists>c tx opts d d1 reply r. rt_next_alice_constructor demo_rt (demo_peer n) = Ok c \<and>
     rt_stage0_alice demo_rt c = Ok (A2B_Default tx) \<and> at_new_version tx = 1 \<and>
     rt_get_next_constructor_opts demo_rt (demo_peer m) = Ok opts \<and> rt_new_bob demo_rt 7 1 opts (A2B_Default tx) = Ok d \<and>
     rt_update_version demo_rt 1 d = Ok d1 \<and> rt_stage0_bob demo_rt d1 = Ok (B2A_Default reply) \<and>
     small_reply (B2A_Default reply) \<and> rt_finish_with_custom_cid demo_rt 7 d1 = Ok r \<and> rt_version demo_rt r = Ok 1 \<and>
     rt_get_cid demo_rt r = Ok 7"
proof -
  obtain oa ob where opts: "get_next_constructor_opts demo_lib (demo_peer n) = Ok oa" "list_all aes_opts oa" "length oa = 1"
    "get_next_constructor_opts demo_lib (demo_peer m) = Ok ob" "list_all aes_opts ob" "length ob = 1"
    using demo_next_opts [of n] demo_next_opts [of m] by blast
  have layers: "length oa = Suc (unat (level_value (level_or_standard (Some Standard))))"
    by (simp add: opts(3) level_or_standard_def)
  from demo_stacked_run [OF opts(2,5) _ layers, of "\<lambda>_ _. 0" 7 1 "\<lambda>_ _. 0" "\<lambda>_ _. 0" 7 1 1 "\<lambda>_ _. 0" "\<lambda>_ _. 0"] opts(3,6)
  obtain c tx d d1 reply where
    run: "sr_new_alice demo_lib (\<lambda>_ _. 0) oa 7 1 (Some Standard) = Ok c" "sr_stage0_alice demo_lib (\<lambda>_ _. 0) c = Ok tx"
     "at_new_version tx = 1" "sr_new_bob demo_lib (\<lambda>_ _. 0) (\<lambda>_. demo_bank_rnd) 7 1 ob tx = Ok d"
     "sr_update_version 1 d = Ok d1" "sr_stage0_bob demo_lib (demo_ser (demo_new_bank 7 1)) (\<lambda>_ _. 0) (\<lambda>_ _. 0) d1 = Ok reply"
     "\<forall>c \<in> insert (bt_encrypted_scramble_drill reply) (set (bt_encrypted_msg_drills reply)). length c = 17" by auto
  have rt: "rt_next_alice_constructor demo_rt (demo_peer n) = Ok c" "rt_stage0_alice demo_rt c = Ok (A2B_Default tx)"
    "rt_get_next_constructor_opts demo_rt (demo_peer m) = Ok ob" "rt_new_bob demo_rt 7 1 ob (A2B_Default tx) = Ok d"
    "rt_update_version demo_rt 1 d = Ok d1" "rt_stage0_bob demo_rt d1 = Ok (B2A_Default reply)"
    using run opts(1,4)
    by (simp_all add: demo_rt_def stacked_trait_def demo_exchange_rnd_def sr_next_alice_constructor_def sr_version_def
        sr_get_cid_def get_layer_def demo_peer_def Let_def demo_new_bank_def)
  have small: "small_reply (B2A_Default reply)" using run(7) by (auto simp: small_reply_def)
  then have "sound_reply demo_lib (demo_ser (demo_new_bank 7 1)) (demo_de (demo_new_bank 7 1)) (B2A_Default reply)"
    by (simp add: sound_reply_def demo_sound_lib demo_bank_codec)
  from stacked_rekey.exchange [OF assms rt [unfolded demo_rt_def] this, of 7 7, folded demo_rt_def] rt run(3) small
  show ?thesis by blast
qed

lemma demo_idle: "idle (demo_crypto n)" "toolset_wf demo_rt (pc_toolset (demo_crypto n))"
  "hd (ts_map (pc_toolset (demo_crypto n))) = demo_peer n"
  using demo_synced
  by (cases n; simp add: synced_def same_window_def demo_crypto_def session_crypto_new_def toolset_new_def)+

lemma demo_header_conn: "header_conn demo_rekey_header = None" "header_local_cid demo_rekey_header = 7"
  "routed demo_rekey_header" "get_resp_target_cid_from_header demo_rekey_header = 0"
  by (simp_all add: header_conn_def header_local_cid_def routed_def get_resp_target_cid_from_header_def demo_rekey_header_def
      C2S_ENCRYPTION_ONLY_def)

lemma demo_crypt_of: "crypt_of None (demo_session mode n) = Some (demo_crypto n)" "sn_out (demo_session mode n) = []"
  by (simp_all add: crypt_of_def demo_session_def)

lemma demo_best_effort: "best_effort_node demo_rekey_header (demo_crypto n) (demo_session BestEffort n)"
  by (simp add: best_effort_node_def demo_header_conn demo_crypt_of)
    (simp add: demo_session_def get_secrecy_mode_def demo_crypto_def session_crypto_new_def toolset_new_def
      C2S_ENCRYPTION_ONLY_def)

lemma demo_initiate:
  assumes "rt_next_alice_constructor demo_rt (demo_peer n) = Ok c" and "rt_stage0_alice demo_rt c = Ok tx"
  shows "\<exists>A1. initiate_drill_update demo_rt (LocalGroupServer 7) None (demo_session mode n) = (Ok (), A1) \<and>
     sn_out A1 = [OutRekey (demo_peer n) 0 (Stage0 tx)] \<and> crypt_of None A1 = Some (locked (demo_crypto n))"
  using idle_latest [OF demo_idle(1,2) [of n]] idle_next_constructor [OF demo_idle(1,2) [of n]] assms demo_idle(3) [of n]
  by (simp add: initiate_drill_update_def initiate_c2s_update_def demo_session_def get_primary_stream_def crypt_of_def
      set_crypt_def remember_request_def locked_def pc_get_hyper_ratchet_def emit_def C2S_ENCRYPTION_ONLY_def)

lemma demo_answer:
  assumes "rt_get_next_constructor_opts demo_rt (demo_peer m) = Ok opts" "rt_new_bob demo_rt 7 1 opts (A2B_Default tx) = Ok d"
    and "at_new_version tx = 1" and "crypt_of None B = Some b" and "update_sync_safe demo_rt d False 7 b = (Ok st, b')"
  shows "\<exists>B1. process_stage0 demo_rt demo_rekey_header (demo_peer m) (A2B_Default tx) B =
     (Ok (ReplyToSender (OutRekey (demo_peer m) 0 (Stage1 st))), B1)"
  using assms
  by (simp add: process_stage0_def attempt_kem_as_bob_def update_toolset_as_bob_def demo_rekey_header_def
      get_resp_target_cid_from_header_def conn_of_target_def C2S_ENCRYPTION_ONLY_def Let_def)

lemma demo_commit:
  assumes "rt_update_version demo_rt 1 d = Ok d1" "rt_stage0_bob demo_rt d1 = Ok reply"
    and "rt_finish_with_custom_cid demo_rt 7 d1 = Ok r" "rt_version demo_rt r = Ok 1" "rt_get_cid demo_rt r = Ok 7"
    and "b = demo_crypto Bob \<or> b = locked (demo_crypto Bob)"
  shows "\<exists>b'. update_sync_safe demo_rt d False 7 b = (Ok (KemSome reply (Committed 1)), b')"
proof -
  have b: "most_recent_hyper_ratchet_version (pc_toolset b) = 0" "ts_cid (pc_toolset b) = 7"
    "length (ts_map (pc_toolset b)) = 1" "\<not> local_is_initiator b"
    using assms(6) by (auto simp: demo_crypto_def locked_def session_crypto_new_def toolset_new_def)
  have "\<exists>b'. commit_next_hyper_ratchet_version demo_rt d 7 False b = Ok ((Some reply, Committed 1), b')"
    using assms(1-5) b by (auto simp: commit_Ok_iff update_from_iff MAX_HYPER_RATCHETS_IN_MEMORY_def)
  with b(4) show ?thesis by (auto simp: update_sync_safe_def)
qed

lemma demo_rekey_offer:
  "\<exists>status A1 B1. rekey_offer 0 demo_rt (LocalGroupServer 7) None demo_rekey_header (demo_peer Bob)
     (demo_session mode Alice) (demo_session mode Bob) = Some (status, A1, B1) \<and>
     (\<forall>reply st. status = KemSome reply st \<longrightarrow> small_reply reply)"
proof -
  from demo_exchange_run [OF demo_peers(1)] obtain c tx opts d d1 reply r where
    ex: "rt_next_alice_constructor demo_rt (demo_peer Alice) = Ok c" "rt_stage0_alice demo_rt c = Ok (A2B_Default tx)"
      "at_new_version tx = 1" "rt_get_next_constructor_opts demo_rt (demo_peer Bob) = Ok opts"
      "rt_new_bob demo_rt 7 1 opts (A2B_Default tx) = Ok d" "rt_update_version demo_rt 1 d = Ok d1"
      "rt_stage0_bob demo_rt d1 = Ok (B2A_Default reply)" "small_reply (B2A_Default reply)"
      "rt_finish_with_custom_cid demo_rt 7 d1 = Ok r" "rt_version demo_rt r = Ok 1" "rt_get_cid demo_rt r = Ok 7"
    by (elim exE conjE) (rule that)
  from demo_commit [OF ex(6,7,9-11)] obtain b' where
    "update_sync_safe demo_rt d False 7 (demo_crypto Bob) = (Ok (KemSome (B2A_Default reply) (Committed 1)), b')" by blast
  from demo_answer [OF ex(4,5,3) demo_crypt_of(1) [of mode] this] demo_initiate [OF ex(1,2), of mode] ex(8) show ?thesis
    by (auto simp: rekey_offer_def demo_crypt_of(2))
qed

section \<open>Properties\<close>

text \<open>
  C36: An update keeps the two ends of a connection in step when both use best-effort secrecy. Take two sessions in that
  mode, idle, whose toolsets hold the same window of versions with ratchets that belong together. If Alice's first message
  went out and Bob answered it, then the rest of the update runs through at both ends, including the truncation of the
  oldest version when the window is full, whichever ratchets the later packets are opened with; both ends are idle again
  and unlocked, their windows hold the same versions with ratchets that belong together, and the most recent version,
  now in use at both ends, is the next one. With perfect secrecy the handlers go on to poll the queue of waiting
  messages, and the statement does not extend to it: the theory \<open>Rekey_Hazards\<close> shows what happens there.
\<close>

theorem rekey_keeps_sync:
  assumes lib: "sound_lib lib" "sound_bank_codec ser de" and rt: "rt = stacked_trait lib ser de xr"
    and nodes: "vt_conn vt = header_conn ha" "best_effort_node ha a A" "best_effort_node hb b B"
    and sync: "synced rt ratchet_peers a b"
    and offer: "rekey_offer now rt vt ticket hb (hd (ts_map (pc_toolset b))) A B = Some (status, A1, B1)"
    and small: "\<forall>reply st. status = KemSome reply st \<longrightarrow> small_reply reply"
    and ack: "rt_version rt hra' = Ok v"
  shows "\<exists>A2 B2 a2 b2. rekey_finish now rt ha (hd (ts_map (pc_toolset a))) hra' hb hrb status A1 B1 = Some (A2, B2) \<and>
     crypt_of (header_conn ha) A2 = Some a2 \<and> crypt_of (header_conn hb) B2 = Some b2 \<and> synced rt ratchet_peers a2 b2 \<and>
     most_recent_hyper_ratchet_version (pc_toolset a2) = most_recent_hyper_ratchet_version (pc_toolset a) + 1 \<and>
     latest_usable_version a2 = most_recent_hyper_ratchet_version (pc_toolset a) + 1 \<and>
     latest_usable_version b2 = most_recent_hyper_ratchet_version (pc_toolset a) + 1"
proof -
  let ?ta = "pc_toolset a" and ?tb = "pc_toolset b" and ?trunc = "requires_truncation status"
  from sync have idle: "idle a" "idle b" and wf: "toolset_wf rt ?ta" by (simp_all add: synced_def same_window_def)
  from rekey_offer_commits [OF lib rt nodes sync offer small] obtain c reply st b' c1 ta where
    status: "status = KemSome reply st"
    and c1: "rt_stage1_alice rt reply c = Ok c1" "commit_next_hyper_ratchet_version rt c1 (header_local_cid ha) True (locked a) =
       Ok ((None, st), (locked a)\<lparr>pc_toolset := ta\<rparr>)"
    and win: "same_window rt ratchet_peers ta (pc_toolset b')" and len: "length (ts_map ta) = Suc (length (ts_map ?ta))"
    and vers: "most_recent_hyper_ratchet_version ta = latest_usable_version a + 1"
      "most_recent_hyper_ratchet_version (pc_toolset b') = latest_usable_version b' + 1"
    and trunc: "?trunc = (if MAX_HYPER_RATCHETS_IN_MEMORY < length (ts_map ta)
       then Some (oldest_hyper_ratchet_version ta) else None)"
    and A1: "crypt_of (header_conn ha) A1 = Some (locked a)" "pending_ctor (header_conn ha) A1 = Some c"
      "sn_settings A1 \<noteq> None" "get_secrecy_mode (get_resp_target_cid_from_header ha) A1 = Some BestEffort"
    and B1: "crypt_of (header_conn hb) B1 = Some (answered b')" "sn_settings B1 \<noteq> None" "to_primary_stream B1"
      "get_secrecy_mode (get_resp_target_cid_from_header hb) B1 = Some BestEffort" by (elim exE conjE) (rule that)
  have "length (ts_map ta) \<le> Suc MAX_HYPER_RATCHETS_IN_MEMORY" using idle(1) len by (simp add: idle_def)
  from window_truncated [OF win this trunc] obtain ta' tb' where
    t: "truncated ?trunc ta ta'" "truncated ?trunc (pc_toolset b') tb'" "same_window rt ratchet_peers ta' tb'"
      "length (ts_map ta') \<le> MAX_HYPER_RATCHETS_IN_MEMORY" by blast
  have wf': "toolset_wf rt ta" "toolset_wf rt (pc_toolset b')" using win by (simp_all add: same_window_def)
  have routed: "routed ha" "routed hb" using nodes(2,3) by (simp_all add: best_effort_node_def)
  from rekey_finish_idle [OF A1(1,2) routed(1) A1(3,4) B1(1) routed(2) B1(2-4) idle(1) wf'(1) vers(1) wf'(2) vers(2) c1
      _ t(1,2) ack, of now "hd (ts_map ?ta)" hrb] status
  obtain A2 B2 a2 b2 where fin: "rekey_finish now rt ha (hd (ts_map ?ta)) hra' hb hrb status A1 B1 = Some (A2, B2)"
    "crypt_of (header_conn ha) A2 = Some a2" "crypt_of (header_conn hb) B2 = Some b2" "pc_toolset a2 = ta'"
    "pc_toolset b2 = tb'" "\<not> update_in_progress a2" "\<not> update_in_progress b2" "lock_set_by_alice a2 = None"
    "lock_set_by_alice b2 = None" "latest_usable_version a2 = most_recent_hyper_ratchet_version ta'"
    "latest_usable_version b2 = most_recent_hyper_ratchet_version tb'" by blast
  have "synced rt ratchet_peers a2 b2"
    using fin t(3,4) same_window_oldest [OF t(3)] by (simp add: synced_def idle_def)
  moreover have "most_recent_hyper_ratchet_version ta' = most_recent_hyper_ratchet_version ?ta + 1"
    using truncated_wf [OF t(1) wf'(1)] vers(1) idle by (simp add: idle_def)
  moreover have "most_recent_hyper_ratchet_version tb' = most_recent_hyper_ratchet_version ta'"
    using t(3) by (simp add: same_window_def)
  ultimately show ?thesis using fin by auto
qed

theorem rekey_keeps_sync_witness:
  "\<exists>status A1 B1 A2 B2 a2 b2. rekey_offer 0 demo_rt (LocalGroupServer 7) None demo_rekey_header (demo_peer Bob)
       (demo_session BestEffort Alice) (demo_session BestEffort Bob) = Some (status, A1, B1) \<and>
     rekey_finish 0 demo_rt demo_rekey_header (demo_peer Alice) (demo_peer Alice) demo_rekey_header (demo_peer Bob) status A1 B1 =
       Some (A2, B2) \<and>
     crypt_of None A2 = Some a2 \<and> crypt_of None B2 = Some b2 \<and> synced demo_rt ratchet_peers a2 b2 \<and>
     most_recent_hyper_ratchet_version (pc_toolset (demo_crypto Alice)) = 0 \<and>
     latest_usable_version a2 = 1 \<and> latest_usable_version b2 = 1"
proof -
  let ?A = "demo_session BestEffort Alice" and ?B = "demo_session BestEffort Bob" and ?h = demo_rekey_header
  have vt: "vt_conn (LocalGroupServer 7) = header_conn ?h" by (simp add: vt_conn_def demo_header_conn)
  from demo_rekey_offer obtain status A1 B1 where
    offer: "rekey_offer 0 demo_rt (LocalGroupServer 7) None ?h (hd (ts_map (pc_toolset (demo_crypto Bob)))) ?A ?B =
      Some (status, A1, B1)" "\<forall>reply st. status = KemSome reply st \<longrightarrow> small_reply reply" unfolding demo_idle(3) by blast
  have v: "rt_version demo_rt (demo_peer Alice) = Ok 0"
    by (simp add: demo_rt_def stacked_trait_def sr_version_def get_layer_def demo_peer_def Let_def demo_new_bank_def)
  have zero: "most_recent_hyper_ratchet_version (pc_toolset (demo_crypto Alice)) = 0"
    by (simp add: demo_crypto_def session_crypto_new_def toolset_new_def)
  from rekey_keeps_sync [OF demo_sound_lib demo_bank_codec demo_rt_def vt demo_best_effort demo_best_effort demo_synced offer v,
      of "demo_peer Bob"] offer(1)
  show ?thesis unfolding demo_idle(3) zero by (fastforce simp: demo_header_conn)
qed

end
