(* ===== verification/Rekey_Hazards.thy ===== *)
theory Rekey_Hazards
  imports Rekey
begin

text \<open>
  Two ways in which the handlers of \<open>Session_Node\<close> leave a connection unusable: a poll of an empty queue in perfect secrecy mode
  (\<open>poll_next_enqueued\<close> in \<open>citadel_proto/src/proto/state_container.rs\<close>), and two updates that cross (\<open>process_rekey\<close> in
  \<open>citadel_proto/src/proto/packet_processor/rekey_packet.rs\<close>).
\<close>

section \<open>Perfect secrecy\<close>

text \<open>What the local side of a connection can do: send, poll the queue, ask for an update.\<close>

datatype local_event = SendMessage queued_message | PollQueue | RequestRekey virtual_connection_type

definition event_of :: "u64 \<Rightarrow> local_event \<Rightarrow> bool" where
  "event_of target ev = (case ev of
     SendMessage m \<Rightarrow> get_target_cid (fst (snd (snd m))) = target
   | PollQueue \<Rightarrow> True
   | RequestRekey vt \<Rightarrow> vt_conn vt = conn_of_target target)"

definition local_step :: "nat \<Rightarrow> stacked_rt \<Rightarrow> u64 \<Rightarrow> session_node \<Rightarrow> local_event \<Rightarrow> session_node" where
  "local_step now rt target node ev = (case ev of
     SendMessage m \<Rightarrow> snd (process_outbound_message now rt m False node)
   | PollQueue \<Rightarrow> snd (poll_next_enqueued now rt target node)
   | RequestRekey vt \<Rightarrow> snd (initiate_drill_update rt vt None node))"

definition stalled :: "u64 \<Rightarrow> session_node \<Rightarrow> bool" where
  "stalled target node \<longleftrightarrow> sn_connected node \<and> get_secrecy_mode target node = Some Perfect \<and>
     (\<exists>c. crypt_of (conn_of_target target) node = Some c \<and> update_in_progress c)"

lemma enqueue_frame [simp]:
  "sn_out (enqueue_packet t m node) = sn_out node" "sn_connected (enqueue_packet t m node) = sn_connected node"
  "get_secrecy_mode x (enqueue_packet t m node) = get_secrecy_mode x node"
  "crypt_of k (enqueue_packet t m node) = crypt_of k node"
  "sn_out (set_queue t q node) = sn_out node" "sn_connected (set_queue t q node) = sn_connected node"
  "get_secrecy_mode x (set_queue t q node) = get_secrecy_mode x node"
  "crypt_of k (set_queue t q node) = crypt_of k node"
  by (simp_all add: enqueue_packet_def set_queue_def get_secrecy_mode_def crypt_of_def split: option.split)

lemma stalled_send:
  assumes "stalled target node" and "get_target_cid (fst (snd (snd m))) = target"
  shows "process_outbound_message now rt m False node = (Ok (), enqueue_packet target m node)"
  using assms by (cases m) (auto simp: stalled_def process_outbound_message_def Let_def)

lemma stalled_poll:
  assumes "stalled target node"
  shows "\<exists>c. crypt_of (conn_of_target target) node = Some c \<and> update_in_progress c \<and>
     poll_next_enqueued now rt target node = (Ok False, set_crypt (conn_of_target target) c node)"
proof -
  from assms obtain c where c: "get_secrecy_mode target node = Some Perfect"
    "crypt_of (conn_of_target target) node = Some c" "update_in_progress c" by (auto simp: stalled_def)
  have same: "c\<lparr>update_in_progress := True\<rparr> = c" using c(3) by (cases c) simp
  have "poll_next_enqueued now rt target node =
      (Ok False, set_crypt (conn_of_target target) (c\<lparr>update_in_progress := True\<rparr>) node)"
    using c by (simp add: poll_next_enqueued_def fetch_nand_def)
  with c show ?thesis unfolding same by blast
qed

lemma locked_no_constructor: "update_in_progress c \<Longrightarrow> get_next_constructor rt False c = (Err (), c)"
  by (simp add: get_next_constructor_def)

lemma stalled_rekey:
  assumes "stalled target node" and "vt_conn vt = conn_of_target target"
  shows "\<exists>res c. crypt_of (conn_of_target target) node = Some c \<and> update_in_progress c \<and>
     (initiate_drill_update rt vt None node = (res, node) \<or>
      initiate_drill_update rt vt None node = (res, set_crypt (conn_of_target target) c node))"
proof -
  from assms(1) obtain c where c: "crypt_of (conn_of_target target) node = Some c" "update_in_progress c"
    by (auto simp: stalled_def)
  show ?thesis
  proof (cases vt)
    case (LocalGroupPeer cid peer)
    with c assms(2) show ?thesis
      by (auto simp: initiate_drill_update_def initiate_p2p_update_def vt_conn_def crypt_of_def locked_no_constructor
          already_in_progress_def Let_def split: option.splits)
  next
    case (LocalGroupServer cid)
    with c assms(2) show ?thesis
      by (auto simp: initiate_drill_update_def initiate_c2s_update_def vt_conn_def locked_no_constructor
          already_in_progress_def split: option.splits)
  qed (use c assms(2) in \<open>auto simp: initiate_drill_update_def\<close>)
qed

lemma stalled_step:
  assumes "stalled target node" and "event_of target ev"
  shows "stalled target (local_step now rt target node ev) \<and> sn_out (local_step now rt target node ev) = sn_out node"
proof (cases ev)
  case (SendMessage m)
  with stalled_send [OF assms(1), of m] assms show ?thesis by (auto simp: local_step_def event_of_def stalled_def)
next
  case PollQueue
  with stalled_poll [OF assms(1), of now rt] assms show ?thesis by (auto simp: local_step_def stalled_def)
next
  case (RequestRekey vt)
  with stalled_rekey [OF assms(1), of vt rt] assms show ?thesis by (auto simp: local_step_def stalled_def event_of_def)
qed

lemma stalled_run:
  assumes "stalled target node" and "list_all (event_of target) evs"
  shows "sn_out (foldl (local_step now rt target) node evs) = sn_out node"
  using assms
proof (induction evs arbitrary: node)
  case (Cons ev evs)
  with stalled_step [of target node ev now rt] show ?case by simp
qed simp

section \<open>Updates that cross\<close>

lemma next_version_missing:
  assumes "toolset_wf rt ts" and "length (ts_map ts) < 2 ^ 32"
  shows "ts_get_hyper_ratchet ts (most_recent_hyper_ratchet_version ts + 1) = None"
proof -
  have "unat (- 1 :: u32) = 2 ^ 32 - 1" by (simp add: unsigned_minus_1_eq_mask mask_eq_exp_minus_1)
  with assms(2) show ?thesis by (simp add: ts_get_hyper_ratchet_def get_adjusted_index_def)
qed

lemma stray_truncate:
  assumes node: "crypt_of (header_conn h) A = Some a" "routed h" "sn_settings A \<noteq> None"
    and a: "idle a" "toolset_wf rt (pc_toolset a)" "length (ts_map (pc_toolset a)) < 2 ^ 32"
  shows "process_truncate now rt h hr None A =
     (Ok Void, set_crypt (header_conn h)
        (a\<lparr>latest_usable_version := latest_usable_version a + 1, update_in_progress := True, lock_set_by_alice := None\<rparr>) A)"
  using assms next_version_missing [OF a(2,3)]
  by (auto simp: process_truncate_def routed_conn idle_def post_alice_stage1_or_post_stage1_bob_def maybe_unlock_def
      fetch_nand_def pc_get_hyper_ratchet_def Let_def)

lemma omitted_answer:
  assumes "pending_ctor (header_conn h) B = Some c" and "crypt_of (header_conn h) B = Some b" and "sn_settings B \<noteq> None"
    and "pc_get_hyper_ratchet b None = Some r" and "rt_version rt r = Ok v"
  shows "\<exists>B'. process_stage1 rt h hr Omitted B =
     (Ok (ReplyToSender (OutRekey r (get_resp_target_cid_from_header h) (Truncate None))), B')"
proof -
  obtain B0 where take: "take_constructor h B = (Some c, B0)"
    using assms(1) take_constructor_frame(1) [where h = h and A = B] by (cases "take_constructor h B") simp
  with take_constructor_frame(2,3) [where h = h and A = B] have B0: "crypt_of k B0 = crypt_of k B" "sn_settings B0 = sn_settings B"
    for k by (metis snd_conv)+
  have "fst (maybe_unlock True b) = Some r" using assms(4) by (simp add: maybe_unlock_def pc_get_hyper_ratchet_def Let_def)
  then have "\<exists>B''. attempt_kem_as_alice_finish rt (session_cid h) (target_cid h) Omitted (Some c) B0 = (Ok (Some r), B'')"
    using assms(2) B0(1)
    by (auto simp: attempt_kem_as_alice_finish_def header_conn_def Let_def case_prod_beta split: if_splits)
  with take B0 assms(3,5) show ?thesis by (auto simp: process_stage1_def Let_def)
qed

text \<open>Both ends start an update before either has seen the other's, and each answers the other's first message.\<close>

definition crossing_offers ::
    "nat \<Rightarrow> stacked_rt \<Rightarrow> virtual_connection_type \<Rightarrow> virtual_connection_type \<Rightarrow> hdp_header \<Rightarrow> stacked_ratchet \<Rightarrow>
     hdp_header \<Rightarrow> stacked_ratchet \<Rightarrow> session_node \<Rightarrow> session_node \<Rightarrow>
     (kem_transfer_status \<times> kem_transfer_status \<times> session_node \<times> session_node) option" where
  "crossing_offers now rt vta vtb ha hra hb hrb A B =
     (case (initiate_drill_update rt vta None A, initiate_drill_update rt vtb None B) of
        ((Ok u, A'), (Ok u', B')) \<Rightarrow>
          (case (drop (length (sn_out A)) (sn_out A'), drop (length (sn_out B)) (sn_out B')) of
             ([OutRekey r t (Stage0 txa)], [OutRekey r' t' (Stage0 txb)]) \<Rightarrow>
               (case (process_rekey_cmd now rt ha hra (Stage0 txb) A', process_rekey_cmd now rt hb hrb (Stage0 txa) B') of
                  ((Ok (ReplyToSender (OutRekey ra ta (Stage1 sa))), A''), (Ok (ReplyToSender (OutRekey rb tb (Stage1 sb))), B''))
                    \<Rightarrow> Some (sa, sb, A'', B'')
                | _ \<Rightarrow> None)
           | _ \<Rightarrow> None)
      | _ \<Rightarrow> None)"

text \<open>Each end handles the answer, and Alice then handles Bob's truncation.\<close>

definition crossing_truncate ::
    "nat \<Rightarrow> stacked_rt \<Rightarrow> hdp_header \<Rightarrow> stacked_ratchet \<Rightarrow> hdp_header \<Rightarrow> stacked_ratchet \<Rightarrow> kem_transfer_status \<Rightarrow>
     kem_transfer_status \<Rightarrow> session_node \<Rightarrow> session_node \<Rightarrow> session_node option" where
  "crossing_truncate now rt ha hra hb hrb sa sb A B =
     (case (process_rekey_cmd now rt ha hra (Stage1 sb) A, process_rekey_cmd now rt hb hrb (Stage1 sa) B) of
        ((Ok (ReplyToSender (OutRekey r t (Truncate va))), A'), (Ok (ReplyToSender (OutRekey r' t' (Truncate vb))), B')) \<Rightarrow>
          (case process_rekey_cmd now rt ha hra (Truncate vb) A' of (Ok Void, A'') \<Rightarrow> Some A'' | _ \<Rightarrow> None)
      | _ \<Rightarrow> None)"

lemma initiator_omits:
  assumes "process_stage0 rt h hr tx A = (Ok (ReplyToSender (OutRekey r t (Stage1 st))), A')"
    and "crypt_of (header_conn h) A = Some a" and "routed h" and "update_in_progress a" "local_is_initiator a"
  shows "st = Omitted \<and> A' = set_crypt (header_conn h) a A"
  using assms
  by (auto simp: process_stage0_def attempt_kem_as_bob_def routed_conn update_toolset_as_bob_def update_sync_safe_def Let_def
      split: result.splits prod.splits if_splits)

lemma pending_set_crypt [simp]: "pending_ctor k (set_crypt k' c node) = pending_ctor k node"
  by (simp add: pending_ctor_def split: option.split)

lemma initiate_offer_drop:
  assumes "initiate_drill_update rt vt ticket A = (Ok (), A1)"
    and "drop (length (sn_out A)) (sn_out A1) = [OutRekey r t (Stage0 tx)]"
    and "crypt_of (vt_conn vt) A = Some a" and "idle a" and "toolset_wf rt (pc_toolset a)"
  shows "\<exists>c. rt_next_alice_constructor rt (hd (ts_map (pc_toolset a))) = Ok c \<and> rt_stage0_alice rt c = Ok tx \<and>
     crypt_of (vt_conn vt) A1 = Some (locked a) \<and> pending_ctor (vt_conn vt) A1 = Some c \<and>
     sn_settings A1 = sn_settings A \<and> (\<forall>x. get_secrecy_mode x A1 = get_secrecy_mode x A)"
proof (rule initiate_offer [OF assms(1) _ assms(3-5)])
  from initiate_appends [of rt vt ticket A] assms(1,2) show "sn_out A1 = sn_out A @ [OutRekey r t (Stage0 tx)]" by auto
qed

lemma crossing_offers_Some:
  assumes "crossing_offers now rt vta vtb ha hra hb hrb A B = Some (sa, sb, A2, B2)"
    and "vt_conn vta = header_conn ha" "vt_conn vtb = header_conn hb" "best_effort_node ha a A" "best_effort_node hb b B"
    and "idle a" "idle b" "toolset_wf rt (pc_toolset a)" "toolset_wf rt (pc_toolset b)" "local_is_initiator a"
    and "\<not> local_is_initiator b"
  shows "\<exists>ca cb tx opts d reply st b'. rt_next_alice_constructor rt (hd (ts_map (pc_toolset a))) = Ok ca \<and>
     rt_stage0_alice rt ca = Ok tx \<and> rt_get_next_constructor_opts rt hrb = Ok opts \<and>
     rt_new_bob rt (header_local_cid hb) (get_declared_new_version tx) opts tx = Ok d \<and>
     commit_next_hyper_ratchet_version rt d (header_local_cid hb) False (locked b) = Ok ((Some reply, st), b') \<and>
     sa = Omitted \<and> sb = KemSome reply st \<and>
     crypt_of (header_conn ha) A2 = Some (locked a) \<and> pending_ctor (header_conn ha) A2 = Some ca \<and> sn_settings A2 \<noteq> None \<and>
     crypt_of (header_conn hb) B2 = Some (answered b') \<and> pending_ctor (header_conn hb) B2 = Some cb \<and> sn_settings B2 \<noteq> None"
proof -
  from assms(1) obtain A1 B1 r t txa r' t' txb ra ta rb tb where
    init: "initiate_drill_update rt vta None A = (Ok (), A1)" "initiate_drill_update rt vtb None B = (Ok (), B1)"
    and out: "drop (length (sn_out A)) (sn_out A1) = [OutRekey r t (Stage0 txa)]"
      "drop (length (sn_out B)) (sn_out B1) = [OutRekey r' t' (Stage0 txb)]"
    and answer: "process_stage0 rt ha hra txb A1 = (Ok (ReplyToSender (OutRekey ra ta (Stage1 sa))), A2)"
      "process_stage0 rt hb hrb txa B1 = (Ok (ReplyToSender (OutRekey rb tb (Stage1 sb))), B2)"
    by (auto simp: crossing_offers_def split: prod.splits result.splits list.splits node_out.splits rekey_msg.splits
        processor_result.splits)
  note nodes = assms(4,5) [unfolded best_effort_node_def]
  from initiate_offer_drop [OF init(1) out(1), of a] assms(2,6,8) nodes obtain ca where
    A1: "rt_next_alice_constructor rt (hd (ts_map (pc_toolset a))) = Ok ca" "rt_stage0_alice rt ca = Ok txa"
      "crypt_of (header_conn ha) A1 = Some (locked a)" "pending_ctor (header_conn ha) A1 = Some ca" "sn_settings A1 \<noteq> None"
    by auto
  from initiate_offer_drop [OF init(2) out(2), of b] assms(3,7,9) nodes obtain cb where
    B1: "crypt_of (header_conn hb) B1 = Some (locked b)" "pending_ctor (header_conn hb) B1 = Some cb" "sn_settings B1 \<noteq> None"
    by auto
  have "sa = Omitted \<and> A2 = set_crypt (header_conn ha) (locked a) A1"
    by (rule initiator_omits [OF answer(1) A1(3)]) (use nodes assms(10) in \<open>simp_all add: locked_def\<close>)
  moreover have "\<not> (update_in_progress (locked b) \<and> local_is_initiator (locked b))" using assms(11) by (simp add: locked_def)
  note bob_answer [OF answer(2) B1(1) _ this]
  ultimately show ?thesis using A1 B1 nodes by auto
qed

text \<open>Bob still uses the version before the one he committed.\<close>

lemma committed_still_usable:
  assumes "commit_next_hyper_ratchet_version rt d cid False (locked b) = Ok ((Some reply, st), b')"
    and "idle b" and "toolset_wf rt (pc_toolset b)"
  shows "\<exists>r v. pc_get_hyper_ratchet (answered b') None = Some r \<and> rt_version rt r = Ok v"
proof -
  obtain ts r where ts: "b' = (locked b)\<lparr>pc_toolset := ts\<rparr>" "ts_map ts = r # ts_map (pc_toolset b)"
    "most_recent_hyper_ratchet_version ts = latest_usable_version b + 1"
    using assms(1,2) by (auto simp: commit_Ok_iff update_from_iff locked_def idle_def)
  have "ts_map (pc_toolset b) \<noteq> []" using assms(3) by (simp add: toolset_wf_def)
  then have "pc_get_hyper_ratchet (answered b') None = Some (hd (ts_map (pc_toolset b)))"
    using ts by (simp add: answered_def locked_def pc_get_hyper_ratchet_def ts_get_hyper_ratchet_def get_adjusted_index_def
        Let_def hd_conv_nth)
  with wf_latest_version [OF assms(3)] show ?thesis by blast
qed

lemma broken_container:
  assumes "idle a" "toolset_wf rt (pc_toolset a)"
    and "a' = a\<lparr>latest_usable_version := latest_usable_version a + 1, update_in_progress := True, lock_set_by_alice := None\<rparr>"
  shows "pc_get_hyper_ratchet a' None = None \<and> update_in_progress a' \<and>
     decide_message rt mode level poll a' = (Panic, a')"
proof -
  have "length (ts_map (pc_toolset a)) < 2 ^ 32" using assms(1) by (simp add: idle_def MAX_HYPER_RATCHETS_IN_MEMORY_def)
  from next_version_missing [OF assms(2) this] have "pc_get_hyper_ratchet a' None = None"
    using assms(1,3) by (simp add: pc_get_hyper_ratchet_def idle_def)
  with assms(3) show ?thesis by (simp add: decide_message_def)
qed

lemma demo_crossing_offers:
  "\<exists>sa sb A2 B2. crossing_offers 0 demo_rt (LocalGroupServer 7) (LocalGroupServer 7) demo_rekey_header (demo_peer Alice)
     demo_rekey_header (demo_peer Bob) (demo_session BestEffort Alice) (demo_session BestEffort Bob) = Some (sa, sb, A2, B2) \<and>
     (\<forall>reply st. sb = KemSome reply st \<longrightarrow> small_reply reply)"
proof -
  from demo_exchange_run [OF demo_peers(1)] obtain c tx opts d d1 reply r where
    ex: "rt_next_alice_constructor demo_rt (demo_peer Alice) = Ok c" "rt_stage0_alice demo_rt c = Ok (A2B_Default tx)"
      "at_new_version tx = 1" "rt_get_next_constructor_opts demo_rt (demo_peer Bob) = Ok opts"
      "rt_new_bob demo_rt 7 1 opts (A2B_Default tx) = Ok d" "rt_update_version demo_rt 1 d = Ok d1"
      "rt_stage0_bob demo_rt d1 = Ok (B2A_Default reply)" "small_reply (B2A_Default reply)"
      "rt_finish_with_custom_cid demo_rt 7 d1 = Ok r" "rt_version demo_rt r = Ok 1" "rt_get_cid demo_rt r = Ok 7"
    by (elim exE conjE) (rule that)
  from demo_exchange_run [OF stacked_rekey.peers_sym [OF demo_peers(1)]] obtain c' tx' opts' d' where
    ex': "rt_next_alice_constructor demo_rt (demo_peer Bob) = Ok c'" "rt_stage0_alice demo_rt c' = Ok (A2B_Default tx')"
      "at_new_version tx' = 1" "rt_get_next_constructor_opts demo_rt (demo_peer Alice) = Ok opts'"
      "rt_new_bob demo_rt 7 1 opts' (A2B_Default tx') = Ok d'" by (elim exE conjE) (rule that)
  from demo_initiate [OF ex(1,2)] obtain A1 where
    A1: "initiate_drill_update demo_rt (LocalGroupServer 7) None (demo_session BestEffort Alice) = (Ok (), A1)"
      "sn_out A1 = [OutRekey (demo_peer Alice) 0 (Stage0 (A2B_Default tx))]" "crypt_of None A1 = Some (locked (demo_crypto Alice))"
    by blast
  from demo_initiate [OF ex'(1,2)] obtain B1 where
    B1: "initiate_drill_update demo_rt (LocalGroupServer 7) None (demo_session BestEffort Bob) = (Ok (), B1)"
      "sn_out B1 = [OutRekey (demo_peer Bob) 0 (Stage0 (A2B_Default tx'))]" "crypt_of None B1 = Some (locked (demo_crypto Bob))"
    by blast
  have "update_sync_safe demo_rt d' False 7 (locked (demo_crypto Alice)) = (Ok Omitted, locked (demo_crypto Alice))"
    by (simp add: update_sync_safe_def locked_def demo_crypto_def session_crypto_new_def)
  note omit = demo_answer [OF ex'(4,5,3) A1(3) this]
  from demo_commit [OF ex(6,7,9-11)] obtain b' where
    "update_sync_safe demo_rt d False 7 (locked (demo_crypto Bob)) = (Ok (KemSome (B2A_Default reply) (Committed 1)), b')" by blast
  from demo_answer [OF ex(4,5,3) B1(3) this] omit A1(1,2) B1(1,2) ex(8) show ?thesis
    by (auto simp: crossing_offers_def demo_crypt_of(2))
qed

section \<open>Properties\<close>

text \<open>
  C37: In perfect secrecy mode a poll of an empty queue stalls the connection. The poll sets the flag that marks an update as in
  progress and, finding nothing to send, leaves it set. Whatever the session then does by itself for this target, in any order, sending
  messages, polling and asking for updates, nothing is sent: the messages are only queued.
\<close>

theorem empty_poll_stalls_connection:
  assumes "sn_connected node" and "get_secrecy_mode target node = Some Perfect"
    and "crypt_of (conn_of_target target) node = Some c" and "\<not> update_in_progress c" and "queue_of target node = []"
    and "list_all (event_of target) evs"
  shows "fst (poll_next_enqueued now rt target node) = Ok False \<and>
     sn_out (foldl (local_step now rt target) node (PollQueue # evs)) = sn_out node"
proof -
  have q: "queue_of target (set_crypt k x node) = queue_of target node" for k x by (simp add: queue_of_def)
  have poll: "poll_next_enqueued now rt target node =
      (Ok False, set_queue target [] (set_crypt (conn_of_target target) (c\<lparr>update_in_progress := True\<rparr>) node))"
    using assms(2-5) by (simp add: poll_next_enqueued_def fetch_nand_def q)
  then have "stalled target (local_step now rt target node PollQueue)"
    using assms(1-3) by (simp add: local_step_def stalled_def)
  from stalled_run [OF this assms(6), of now rt] poll show ?thesis by (simp add: local_step_def)
qed

theorem empty_poll_stalls_connection_witness:
  "\<forall>packet. sn_out (foldl (local_step 0 demo_rt 0) (demo_session Perfect Alice)
     [PollQueue, SendMessage (1, packet, LocalGroupServer 7, Standard), PollQueue, RequestRekey (LocalGroupServer 7)]) = []"
proof
  fix packet
  have conn: "conn_of_target 0 = None" by (simp add: conn_of_target_def C2S_ENCRYPTION_ONLY_def)
  have node: "sn_connected (demo_session Perfect Alice)" "get_secrecy_mode 0 (demo_session Perfect Alice) = Some Perfect"
    "queue_of 0 (demo_session Perfect Alice) = []" "\<not> update_in_progress (demo_crypto Alice)"
    by (simp_all add: demo_session_def get_secrecy_mode_def queue_of_def demo_crypto_def session_crypto_new_def
        C2S_ENCRYPTION_ONLY_def)
  have evs: "list_all (event_of 0)
      [SendMessage (1, packet, LocalGroupServer 7, Standard), PollQueue, RequestRekey (LocalGroupServer 7)]"
    by (simp add: event_of_def vt_conn_def conn)
  from empty_poll_stalls_connection [OF node(1,2) demo_crypt_of(1) [of Perfect Alice, folded conn] node(4,3) evs] demo_crypt_of(2)
  show "sn_out (foldl (local_step 0 demo_rt 0) (demo_session Perfect Alice)
     [PollQueue, SendMessage (1, packet, LocalGroupServer 7, Standard), PollQueue, RequestRekey (LocalGroupServer 7)]) = []"
    by simp
qed

text \<open>
  C38: Updates that cross break the session of the initiator. Two idle sessions in step both start an update. The one that is marked as the
  initiator omits the other's update, the other one follows the initiator's; but it also answers the omission with a
  truncation. The initiator, whose own update is complete by then, takes it for the end of an update: it counts its usable version one past
  the newest version it has and sets the lock instead of releasing it. From then on it has no ratchet to send with, and sending panics.
\<close>

theorem crossing_updates_break_session:
  assumes lib: "sound_lib lib" "sound_bank_codec ser de" and rt: "rt = stacked_trait lib ser de xr"
    and nodes: "vt_conn vta = header_conn ha" "vt_conn vtb = header_conn hb" "best_effort_node ha a A" "best_effort_node hb b B"
    and sync: "synced rt ratchet_peers a b" and roles: "local_is_initiator a" "\<not> local_is_initiator b"
    and room: "length (ts_map (pc_toolset a)) < MAX_HYPER_RATCHETS_IN_MEMORY"
    and offers: "crossing_offers now rt vta vtb ha (hd (ts_map (pc_toolset a))) hb (hd (ts_map (pc_toolset b))) A B =
      Some (sa, sb, A2, B2)"
    and small: "\<forall>reply st. sb = KemSome reply st \<longrightarrow> small_reply reply"
  shows "\<exists>A4 a4. crossing_truncate now rt ha hra hb hrb sa sb A2 B2 = Some A4 \<and> crypt_of (header_conn ha) A4 = Some a4 \<and>
     pc_get_hyper_ratchet a4 None = None \<and> update_in_progress a4 \<and>
     (\<forall>mode level poll. decide_message rt mode level poll a4 = (Panic, a4))"
proof -
  from sync have win: "same_window rt ratchet_peers (pc_toolset a) (pc_toolset b)" and idle: "idle a" "idle b"
    and wf: "toolset_wf rt (pc_toolset a)" "toolset_wf rt (pc_toolset b)" by (simp_all add: synced_def same_window_def)
  from crossing_offers_Some [OF offers nodes idle wf roles] obtain ca cb tx opts d reply st b' where
    o: "rt_next_alice_constructor rt (hd (ts_map (pc_toolset a))) = Ok ca" "rt_stage0_alice rt ca = Ok tx"
      "rt_get_next_constructor_opts rt (hd (ts_map (pc_toolset b))) = Ok opts"
      "rt_new_bob rt (header_local_cid hb) (get_declared_new_version tx) opts tx = Ok d"
    and commit: "commit_next_hyper_ratchet_version rt d (header_local_cid hb) False (locked b) = Ok ((Some reply, st), b')"
    and s: "sa = Omitted" "sb = KemSome reply st"
    and A2: "crypt_of (header_conn ha) A2 = Some (locked a)" "pending_ctor (header_conn ha) A2 = Some ca" "sn_settings A2 \<noteq> None"
    and B2: "crypt_of (header_conn hb) B2 = Some (answered b')" "pending_ctor (header_conn hb) B2 = Some cb"
      "sn_settings B2 \<noteq> None" by blast
  have sound: "sound_reply lib ser de reply" using lib small s(2) by (simp add: sound_reply_def)
  have peers: "same_window rt ratchet_peers (pc_toolset (locked a)) (pc_toolset (locked b))" using win by (simp add: locked_def)
  from stacked_rekey.commit_agrees [of lib ser de xr "locked a" "locked b", folded rt, OF peers _ same_window_hd [OF win] o commit
      sound] idle(1) nodes(3) obtain c1 ta where
    c1: "rt_stage1_alice rt reply ca = Ok c1" "commit_next_hyper_ratchet_version rt c1 (header_local_cid ha) True (locked a) =
      Ok ((None, st), (locked a)\<lparr>pc_toolset := ta\<rparr>)" "toolset_wf rt ta"
    by (auto simp: locked_def idle_def MAX_HYPER_RATCHETS_IN_MEMORY_def best_effort_node_def same_window_def)
  have ta: "most_recent_hyper_ratchet_version ta = most_recent_hyper_ratchet_version (pc_toolset a) + 1"
    "length (ts_map ta) \<le> MAX_HYPER_RATCHETS_IN_MEMORY" "requires_truncation (KemSome reply st) = None"
    using commit_keeps_cid [OF c1(2)] room by (simp_all add: locked_def)
  have none: "truncated None ta ta" by (simp add: truncated_def)
  let ?a = "a\<lparr>pc_toolset := ta, latest_usable_version := most_recent_hyper_ratchet_version ta, update_in_progress := False,
      lock_set_by_alice := None\<rparr>"
  from alice_finish [OF A2(2,1,3), of rt reply st, unfolded ta(3)] alice_commit_Ok [OF idle(1) c1(3) ta(1) c1(1,2) none]
    wf_latest_version [OF c1(3)] obtain A3 where
    A3: "process_stage1 rt ha hra sb A2 = (Ok (ReplyToSender (OutRekey (hd (ts_map ta)) (get_resp_target_cid_from_header ha)
        (Truncate None))), A3)" "crypt_of (header_conn ha) A3 = Some ?a" "sn_settings A3 \<noteq> None"
    using A2(3) s(2) by fastforce
  from committed_still_usable [OF commit idle(2) wf(2)] omitted_answer [OF B2(2,1,3)] obtain r t B3 where
    B3: "process_stage1 rt hb hrb sa B2 = (Ok (ReplyToSender (OutRekey r t (Truncate None))), B3)" unfolding s(1) by blast
  have a3: "idle ?a" "toolset_wf rt (pc_toolset ?a)" "length (ts_map (pc_toolset ?a)) < 2 ^ 32" "routed ha"
    using c1(3) ta(2) nodes(3) by (simp_all add: idle_def MAX_HYPER_RATCHETS_IN_MEMORY_def best_effort_node_def)
  from stray_truncate [OF A3(2) a3(4) A3(3) a3(1-3), of now hra] A3 B3 broken_container [OF a3(1,2) refl]
  show ?thesis by (auto simp: crossing_truncate_def)
qed

theorem crossing_updates_break_session_witness:
  "\<exists>sa sb A2 B2 A4 a4. crossing_offers 0 demo_rt (LocalGroupServer 7) (LocalGroupServer 7) demo_rekey_header (demo_peer Alice)
       demo_rekey_header (demo_peer Bob) (demo_session BestEffort Alice) (demo_session BestEffort Bob) = Some (sa, sb, A2, B2) \<and>
     crossing_truncate 0 demo_rt demo_rekey_header (demo_peer Alice) demo_rekey_header (demo_peer Bob) sa sb A2 B2 = Some A4 \<and>
     crypt_of None A4 = Some a4 \<and> pc_get_hyper_ratchet a4 None = None \<and> update_in_progress a4"
proof -
  have vt: "vt_conn (LocalGroupServer 7) = header_conn demo_rekey_header" by (simp add: vt_conn_def demo_header_conn)
  have roles: "local_is_initiator (demo_crypto Alice)" "\<not> local_is_initiator (demo_crypto Bob)"
    "length (ts_map (pc_toolset (demo_crypto Alice))) < MAX_HYPER_RATCHETS_IN_MEMORY"
    by (simp_all add: demo_crypto_def session_crypto_new_def toolset_new_def MAX_HYPER_RATCHETS_IN_MEMORY_def)
  from demo_crossing_offers obtain sa sb A2 B2 where
    offers: "crossing_offers 0 demo_rt (LocalGroupServer 7) (LocalGroupServer 7) demo_rekey_header
        (hd (ts_map (pc_toolset (demo_crypto Alice)))) demo_rekey_header (hd (ts_map (pc_toolset (demo_crypto Bob))))
        (demo_session BestEffort Alice) (demo_session BestEffort Bob) = Some (sa, sb, A2, B2)"
      "\<forall>reply st. sb = KemSome reply st \<longrightarrow> small_reply reply" unfolding demo_idle(3) by blast
  from crossing_updates_break_session [OF demo_sound_lib demo_bank_codec demo_rt_def vt vt demo_best_effort demo_best_effort
      demo_synced roles offers, of "demo_peer Alice" "demo_peer Bob"] offers(1)
  show ?thesis unfolding demo_header_conn(1) demo_idle(3) by blast
qed

end
