(* ===== verification/Memory_Backend.thy ===== *)
theory Memory_Backend
  imports Prelude "HOL-Library.AList"
begin

text \<open>
  The in-memory account store of a node: \<open>citadel_user/src/backend/memory.rs\<close> and the mutual-peer functions of
  \<open>citadel_user/src/client_account.rs\<close> it calls. A \<open>HashMap\<close> is an association list whose order stands for the
  unspecified order of iteration; the multimap of mutual peers maps a key to the vector of its values. An account
  is held behind a shared lock; a change made through the store is a change of the stored value. The fields of an
  account the store never looks at (its toolset, network address and password hash) are left out.

  Shown: the mutual lists of two accounts stay symmetric under every operation a server uses, so deleting an
  account leaves no trace of it in any other, and the byte map is a store whose values are found again and whose
  keys are drained as a whole. The second contract is the locale \<open>byte_store\<close>, which the mailbox of the peer layer
  relies on.
\<close>

section \<open>Accounts\<close>

record mutual_peer =
  parent_icid :: u64
  mp_cid :: u64
  mp_username :: "string option"

type_synonym byte_map = "(u64 \<times> (string \<times> (string \<times> bytes) list) list) list"

record client_account =
  ca_cid :: u64
  is_personal :: bool
  creation_date :: string
  ca_username :: string
  ca_full_name :: string
  mutuals :: "(u64 \<times> mutual_peer list) list"
  byte_map :: byte_map

record cnac_metadata =
  cm_cid :: u64
  cm_username :: string
  cm_full_name :: string
  cm_is_personal :: bool
  cm_creation_date :: string

text \<open>The errors of the accounts and their texts, with numbers written in decimal.\<close>

datatype account_error =
    IoError string
  | ClientExists u64
  | ClientNonExists u64
  | ServerExists u64
  | ServerNonExists u64
  | InvalidUsername
  | InvalidPassword
  | Disengaged u64
  | AccountGeneric string

fun decimal :: "nat \<Rightarrow> string" where
  "decimal n = (if n < 10 then [char_of (48 + n)] else decimal (n div 10) @ [char_of (48 + n mod 10)])"

declare decimal.simps [simp del]

fun into_string :: "account_error \<Rightarrow> string" where
  "into_string (IoError e) = e"
| "into_string (AccountGeneric e) = e"
| "into_string InvalidUsername = ''Invalid username''"
| "into_string InvalidPassword = ''Invalid password''"
| "into_string (ClientExists cid) = ''Client '' @ decimal (unat cid) @ '' already exists''"
| "into_string (ClientNonExists cid) = ''Client '' @ decimal (unat cid) @ '' does not exist''"
| "into_string (ServerExists cid) = ''Server '' @ decimal (unat cid) @ '' already exists''"
| "into_string (ServerNonExists cid) = ''Server '' @ decimal (unat cid) @ '' does not exist''"
| "into_string (Disengaged cid) = ''Server '' @ decimal (unat cid) @ '' is not engaged''"

text \<open>A string is the list of the bytes of its text, which is what \<open>len\<close> counts.\<close>

definition check_credential_formatting ::
    "string \<Rightarrow> string option \<Rightarrow> string \<Rightarrow> (unit, account_error) result" where
  "check_credential_formatting username password full_name =
     (if length username < 3 \<or> length username > 37
      then Err (AccountGeneric (''Username must be between '' @ decimal 3 @ '' and '' @ decimal 37 @ '' characters''))
      else if CHR '' '' \<in> set username
      then Err (AccountGeneric ''Username cannot contain spaces. Use a period instead'')
      else
        rbind
          (case password of
             None \<Rightarrow> Ok ()
           | Some password \<Rightarrow>
               if length password < 7 \<or> length password > 17
               then Err (AccountGeneric (''Password must be between '' @ decimal 7 @ '' and '' @ decimal 17 @ '' characters''))
               else if CHR '' '' \<in> set password then Err (AccountGeneric ''Password cannot contain spaces'')
               else Ok ())
          (\<lambda>_. if length full_name < 2 \<or> length full_name > 77
                then Err (AccountGeneric (''Full name must be between '' @ decimal 2 @ '' and '' @ decimal 77 @ '' characters''))
                else Ok ()))"

lemma check_credential_formatting_Ok:
  "check_credential_formatting username password full_name = Ok () \<longleftrightarrow>
   length username \<in> {3..37} \<and> CHR '' '' \<notin> set username \<and>
   (\<forall>p. password = Some p \<longrightarrow> length p \<in> {7..17} \<and> CHR '' '' \<notin> set p) \<and> length full_name \<in> {2..77}"
  by (auto simp: check_credential_formatting_def split: option.split)

definition HYPERLAN_IDX :: u64 where
  "HYPERLAN_IDX = 0"

definition get_metadata :: "client_account \<Rightarrow> cnac_metadata" where
  "get_metadata self =
     \<lparr>cm_cid = ca_cid self, cm_username = ca_username self, cm_full_name = ca_full_name self,
      cm_is_personal = is_personal self, cm_creation_date = creation_date self\<rparr>"

text \<open>
  The multimap of the account: \<open>insert\<close> appends to the vector of the key, creating it if need be, \<open>get_vec\<close> is the
  vector if there is one.
\<close>

definition multimap_insert :: "'k \<Rightarrow> 'v \<Rightarrow> ('k \<times> 'v list) list \<Rightarrow> ('k \<times> 'v list) list" where
  "multimap_insert k v m = (case map_of m k of None \<Rightarrow> AList.update k [v] m | Some vs \<Rightarrow> AList.update k (vs @ [v]) m)"

definition multimap_insert_many :: "'k \<Rightarrow> 'v list \<Rightarrow> ('k \<times> 'v list) list \<Rightarrow> ('k \<times> 'v list) list" where
  "multimap_insert_many k ws m = (case map_of m k of None \<Rightarrow> AList.update k ws m | Some vs \<Rightarrow> AList.update k (vs @ ws) m)"

definition account_peer_list :: "client_account \<Rightarrow> u64 list option" where
  "account_peer_list self = map_option (map mp_cid) (map_of (mutuals self) HYPERLAN_IDX)"

definition account_peer_mutuals :: "client_account \<Rightarrow> mutual_peer list option" where
  "account_peer_mutuals self = map_of (mutuals self) HYPERLAN_IDX"

definition get_hyperwan_peer_list :: "u64 \<Rightarrow> client_account \<Rightarrow> u64 list option" where
  "get_hyperwan_peer_list icid self = map_option (map mp_cid) (map_of (mutuals self) icid)"

definition account_peer :: "u64 \<Rightarrow> client_account \<Rightarrow> mutual_peer option" where
  "account_peer cid self =
     Option.bind (map_of (mutuals self) HYPERLAN_IDX) (List.find (\<lambda>peer. mp_cid peer = cid))"

definition account_peers :: "u64 list \<Rightarrow> client_account \<Rightarrow> mutual_peer list option" where
  "account_peers peers self =
     map_option
       (\<lambda>hyperlan_peers. List.map_filter (\<lambda>peer_wanted. List.find (\<lambda>peer. mp_cid peer = peer_wanted) hyperlan_peers) peers)
       (map_of (mutuals self) HYPERLAN_IDX)"

definition hyperlan_peers_exist :: "u64 list \<Rightarrow> client_account \<Rightarrow> bool list" where
  "hyperlan_peers_exist peers self =
     (case map_of (mutuals self) HYPERLAN_IDX of
        Some hyperlan_peers \<Rightarrow> map (\<lambda>peer. list_ex (\<lambda>hyperlan_peer. mp_cid hyperlan_peer = peer) hyperlan_peers) peers
      | None \<Rightarrow> map (\<lambda>_. False) peers)"

definition synchronize_hyperlan_peer_list :: "mutual_peer list \<Rightarrow> client_account \<Rightarrow> client_account" where
  "synchronize_hyperlan_peer_list peers self =
     self\<lparr>mutuals := multimap_insert_many HYPERLAN_IDX peers (AList.delete HYPERLAN_IDX (mutuals self))\<rparr>"

definition insert_hyperlan_peer :: "u64 \<Rightarrow> string \<Rightarrow> client_account \<Rightarrow> client_account" where
  "insert_hyperlan_peer cid username self =
     self\<lparr>mutuals := multimap_insert HYPERLAN_IDX
       \<lparr>parent_icid = HYPERLAN_IDX, mp_cid = cid, mp_username = Some username\<rparr> (mutuals self)\<rparr>"

text \<open>\<open>position\<close> followed by \<open>remove\<close>: the first peer with that CID goes.\<close>

fun remove_first :: "('a \<Rightarrow> bool) \<Rightarrow> 'a list \<Rightarrow> 'a list" where
  "remove_first P [] = []"
| "remove_first P (x # xs) = (if P x then xs else x # remove_first P xs)"

definition remove_hyperlan_peer :: "u64 \<Rightarrow> client_account \<Rightarrow> mutual_peer option \<times> client_account" where
  "remove_hyperlan_peer cid self =
     (case map_of (mutuals self) HYPERLAN_IDX of
        None \<Rightarrow> (None, self)
      | Some hyperlan_peers \<Rightarrow>
          (case List.find (\<lambda>peer. mp_cid peer = cid) hyperlan_peers of
             None \<Rightarrow> (None, self)
           | Some removed_peer \<Rightarrow>
               (Some removed_peer,
                self\<lparr>mutuals := AList.update HYPERLAN_IDX (remove_first (\<lambda>peer. mp_cid peer = cid) hyperlan_peers)
                   (mutuals self)\<rparr>)))"

definition register_hyperlan_p2p_as_server :: "client_account \<Rightarrow> client_account \<Rightarrow> client_account \<times> client_account" where
  "register_hyperlan_p2p_as_server this other =
     (this\<lparr>mutuals := multimap_insert HYPERLAN_IDX
        \<lparr>parent_icid = HYPERLAN_IDX, mp_cid = ca_cid other, mp_username = Some (ca_username other)\<rparr> (mutuals this)\<rparr>,
      other\<lparr>mutuals := multimap_insert HYPERLAN_IDX
        \<lparr>parent_icid = HYPERLAN_IDX, mp_cid = ca_cid this, mp_username = Some (ca_username this)\<rparr> (mutuals other)\<rparr>)"

section \<open>The store\<close>

type_synonym backend = "(u64 \<times> client_account) list"

text \<open>\<open>limit as usize\<close> of an \<open>i32\<close>: a negative limit wraps to a number larger than any list.\<close>

definition take_limit :: "32 word option \<Rightarrow> 'a list \<Rightarrow> 'a list" where
  "take_limit limit xs = (case limit of None \<Rightarrow> xs | Some l \<Rightarrow> take (unat (scast l :: u64)) xs)"

definition save_cnac :: "client_account \<Rightarrow> backend \<Rightarrow> backend" where
  "save_cnac cnac self = AList.update (ca_cid cnac) cnac self"

definition get_cnac_by_cid :: "u64 \<Rightarrow> backend \<Rightarrow> client_account option" where
  "get_cnac_by_cid cid self = map_of self cid"

definition cid_is_registered :: "u64 \<Rightarrow> backend \<Rightarrow> bool" where
  "cid_is_registered cid self = (map_of self cid \<noteq> None)"

text \<open>\<open>forget_in\<close> is the loop of the deletion over the peers of the deleted account.\<close>

fun forget_in :: "u64 \<Rightarrow> u64 list \<Rightarrow> backend \<Rightarrow> backend" where
  "forget_in cid [] self = self"
| "forget_in cid (p # peers) self =
     forget_in cid peers
       (case map_of self p of None \<Rightarrow> self | Some peer \<Rightarrow> AList.update p (snd (remove_hyperlan_peer cid peer)) self)"

definition delete_cnac_by_cid :: "u64 \<Rightarrow> backend \<Rightarrow> (unit, account_error) result \<times> backend" where
  "delete_cnac_by_cid cid self =
     (case map_of self cid of
        None \<Rightarrow> (Err (ClientNonExists cid), self)
      | Some cl \<Rightarrow>
          (Ok (),
           case account_peer_list cl of
             None \<Rightarrow> AList.delete cid self
           | Some peers \<Rightarrow> forget_in cid peers (AList.delete cid self)))"

definition purge :: "backend \<Rightarrow> nat \<times> backend" where
  "purge self = (length self, [])"

definition get_registered_impersonal_cids :: "32 word option \<Rightarrow> backend \<Rightarrow> u64 list option" where
  "get_registered_impersonal_cids limit self =
     (let ret = take_limit limit (map fst (filter (\<lambda>r. \<not> is_personal (snd r)) self))
      in if ret = [] then None else Some ret)"

definition get_username_by_cid :: "u64 \<Rightarrow> backend \<Rightarrow> string option" where
  "get_username_by_cid cid self = map_option ca_username (map_of self cid)"

text \<open>
  Registration takes the write locks of both accounts one after the other. When both CIDs are the same, the second
  lock is never granted and the call does not return, which is the outcome \<open>None\<close>.
\<close>

definition register_p2p_as_server :: "u64 \<Rightarrow> u64 \<Rightarrow> backend \<Rightarrow> ((unit, account_error) result \<times> backend) option" where
  "register_p2p_as_server cid0 cid1 self =
     (case map_of self cid0 of
        None \<Rightarrow> Some (Err (ClientNonExists cid0), self)
      | Some cnac0 \<Rightarrow>
          (case map_of self cid1 of
             None \<Rightarrow> Some (Err (ClientNonExists cid0), self)
           | Some cnac1 \<Rightarrow>
               if cid0 = cid1 then None
               else
                 let r = register_hyperlan_p2p_as_server cnac0 cnac1
                 in Some (Ok (), AList.update cid1 (snd r) (AList.update cid0 (fst r) self))))"

definition register_p2p_as_client ::
    "u64 \<Rightarrow> u64 \<Rightarrow> string \<Rightarrow> backend \<Rightarrow> (unit, account_error) result \<times> backend" where
  "register_p2p_as_client implicated_cid peer_cid peer_username self =
     (case map_of self implicated_cid of
        None \<Rightarrow> (Err (ClientNonExists implicated_cid), self)
      | Some cnac \<Rightarrow> (Ok (), AList.update implicated_cid (insert_hyperlan_peer peer_cid peer_username cnac) self))"

text \<open>
  The two removals of a deregistration take one lock at a time, so the second one sees the effect of the first even
  when both CIDs are the same.
\<close>

definition deregister_p2p_as_server :: "u64 \<Rightarrow> u64 \<Rightarrow> backend \<Rightarrow> (unit, account_error) result \<times> backend" where
  "deregister_p2p_as_server cid0 cid1 self =
     (case map_of self cid0 of
        None \<Rightarrow> (Err (ClientNonExists cid0), self)
      | Some cnac0 \<Rightarrow>
          (case map_of self cid1 of
             None \<Rightarrow> (Err (ClientNonExists cid0), self)
           | Some cnac1 \<Rightarrow>
               (case remove_hyperlan_peer (ca_cid cnac1) cnac0 of
                  (None, _) \<Rightarrow> (Err (ClientNonExists (ca_cid cnac1)), self)
                | (Some _, cnac0') \<Rightarrow>
                    let self' = AList.update cid0 cnac0' self
                    in case remove_hyperlan_peer (ca_cid cnac0) (the (map_of self' cid1)) of
                         (None, _) \<Rightarrow> (Err (AccountGeneric ''Could not remove self from other cnac''), self')
                       | (Some _, cnac1') \<Rightarrow> (Ok (), AList.update cid1 cnac1' self'))))"

definition deregister_p2p_as_client ::
    "u64 \<Rightarrow> u64 \<Rightarrow> backend \<Rightarrow> (mutual_peer option, account_error) result \<times> backend" where
  "deregister_p2p_as_client implicated_cid peer_cid self =
     (case map_of self implicated_cid of
        None \<Rightarrow> (Err (ClientNonExists implicated_cid), self)
      | Some cnac \<Rightarrow>
          let r = remove_hyperlan_peer peer_cid cnac
          in (Ok (fst r), AList.update implicated_cid (snd r) self))"

definition get_hyperlan_peer_list :: "u64 \<Rightarrow> backend \<Rightarrow> u64 list option" where
  "get_hyperlan_peer_list implicated_cid self = Option.bind (map_of self implicated_cid) account_peer_list"

definition get_client_metadata :: "u64 \<Rightarrow> backend \<Rightarrow> cnac_metadata option" where
  "get_client_metadata implicated_cid self = map_option get_metadata (map_of self implicated_cid)"

definition get_clients_metadata :: "32 word option \<Rightarrow> backend \<Rightarrow> cnac_metadata list" where
  "get_clients_metadata limit self = map get_metadata (take_limit limit (map snd self))"

definition get_hyperlan_peer_by_cid :: "u64 \<Rightarrow> u64 \<Rightarrow> backend \<Rightarrow> mutual_peer option" where
  "get_hyperlan_peer_by_cid implicated_cid peer_cid self =
     Option.bind (map_of self implicated_cid) (account_peer peer_cid)"

definition hyperlan_peer_exists :: "u64 \<Rightarrow> u64 \<Rightarrow> backend \<Rightarrow> bool" where
  "hyperlan_peer_exists implicated_cid peer_cid self = (get_hyperlan_peer_by_cid implicated_cid peer_cid self \<noteq> None)"

definition hyperlan_peers_are_mutuals :: "u64 \<Rightarrow> u64 list \<Rightarrow> backend \<Rightarrow> bool list" where
  "hyperlan_peers_are_mutuals implicated_cid peers self =
     (if peers = [] then []
      else case map_of self implicated_cid of None \<Rightarrow> [] | Some cnac \<Rightarrow> hyperlan_peers_exist peers cnac)"

definition get_hyperlan_peers :: "u64 \<Rightarrow> u64 list \<Rightarrow> backend \<Rightarrow> mutual_peer list" where
  "get_hyperlan_peers implicated_cid peers self =
     (if peers = [] then []
      else case map_of self implicated_cid of
             None \<Rightarrow> []
           | Some cnac \<Rightarrow> (case account_peers peers cnac of None \<Rightarrow> [] | Some found \<Rightarrow> found))"

definition get_hyperlan_peer_list_as_server :: "u64 \<Rightarrow> backend \<Rightarrow> mutual_peer list option" where
  "get_hyperlan_peer_list_as_server implicated_cid self =
     Option.bind (map_of self implicated_cid) account_peer_mutuals"

section \<open>The byte map\<close>

text \<open>
  Every access creates the maps on the way to its key: \<open>with_submap\<close> is the chain of \<open>entry(..).or_default()\<close> down to
  the map of a key, on which \<open>f\<close> works; \<open>slot\<close> is what is found there.
\<close>

definition or_default :: "('k \<times> 'v list) list \<Rightarrow> 'k \<Rightarrow> 'v list" where
  "or_default m k = (case map_of m k of None \<Rightarrow> [] | Some v \<Rightarrow> v)"

definition slot :: "byte_map \<Rightarrow> u64 \<Rightarrow> string \<Rightarrow> (string \<times> bytes) list" where
  "slot m peer_cid key = or_default (or_default m peer_cid) key"

definition with_submap ::
    "u64 \<Rightarrow> string \<Rightarrow> ((string \<times> bytes) list \<Rightarrow> (string \<times> bytes) list) \<Rightarrow> client_account \<Rightarrow> client_account" where
  "with_submap peer_cid key f cnac =
     cnac\<lparr>byte_map := AList.update peer_cid
        (AList.update key (f (slot (byte_map cnac) peer_cid key)) (or_default (byte_map cnac) peer_cid)) (byte_map cnac)\<rparr>"

definition get_byte_map_value :: "u64 \<Rightarrow> u64 \<Rightarrow> string \<Rightarrow> string \<Rightarrow> backend \<Rightarrow> bytes option \<times> backend" where
  "get_byte_map_value implicated_cid peer_cid key sub_key self =
     (case map_of self implicated_cid of
        None \<Rightarrow> (None, self)
      | Some cnac \<Rightarrow>
          (map_of (slot (byte_map cnac) peer_cid key) sub_key,
           AList.update implicated_cid (with_submap peer_cid key (\<lambda>m. m) cnac) self))"

definition remove_byte_map_value :: "u64 \<Rightarrow> u64 \<Rightarrow> string \<Rightarrow> string \<Rightarrow> backend \<Rightarrow> bytes option \<times> backend" where
  "remove_byte_map_value implicated_cid peer_cid key sub_key self =
     (case map_of self implicated_cid of
        None \<Rightarrow> (None, self)
      | Some cnac \<Rightarrow>
          (map_of (slot (byte_map cnac) peer_cid key) sub_key,
           AList.update implicated_cid (with_submap peer_cid key (AList.delete sub_key) cnac) self))"

definition store_byte_map_value ::
    "u64 \<Rightarrow> u64 \<Rightarrow> string \<Rightarrow> string \<Rightarrow> bytes \<Rightarrow> backend \<Rightarrow> bytes option \<times> backend" where
  "store_byte_map_value implicated_cid peer_cid key sub_key value self =
     (case map_of self implicated_cid of
        None \<Rightarrow> (None, self)
      | Some cnac \<Rightarrow>
          (map_of (slot (byte_map cnac) peer_cid key) sub_key,
           AList.update implicated_cid (with_submap peer_cid key (AList.update sub_key value) cnac) self))"

definition get_byte_map_values_by_key :: "u64 \<Rightarrow> u64 \<Rightarrow> string \<Rightarrow> backend \<Rightarrow> (string \<times> bytes) list \<times> backend" where
  "get_byte_map_values_by_key implicated_cid peer_cid key self =
     (case map_of self implicated_cid of
        None \<Rightarrow> ([], self)
      | Some cnac \<Rightarrow>
          (slot (byte_map cnac) peer_cid key,
           AList.update implicated_cid (with_submap peer_cid key (\<lambda>m. m) cnac) self))"

definition remove_byte_map_values_by_key :: "u64 \<Rightarrow> u64 \<Rightarrow> string \<Rightarrow> backend \<Rightarrow> (string \<times> bytes) list \<times> backend" where
  "remove_byte_map_values_by_key implicated_cid peer_cid key self =
     (case map_of self implicated_cid of
        None \<Rightarrow> ([], self)
      | Some cnac \<Rightarrow>
          (slot (byte_map cnac) peer_cid key,
           AList.update implicated_cid
             (cnac\<lparr>byte_map := AList.update peer_cid (AList.delete key (or_default (byte_map cnac) peer_cid)) (byte_map cnac)\<rparr>)
             self))"

section \<open>Mutual lists stay symmetric\<close>

text \<open>How often one account lists a peer, and the states a server reaches with the operations it uses.\<close>

definition peer_vec :: "client_account \<Rightarrow> mutual_peer list" where
  "peer_vec c = or_default (mutuals c) HYPERLAN_IDX"

definition listed :: "client_account \<Rightarrow> u64 \<Rightarrow> nat" where
  "listed c b = length (filter (\<lambda>p. mp_cid p = b) (peer_vec c))"

definition mutual_count :: "backend \<Rightarrow> u64 \<Rightarrow> u64 \<Rightarrow> nat" where
  "mutual_count s a b = (case map_of s a of None \<Rightarrow> 0 | Some c \<Rightarrow> listed c b)"

inductive served :: "backend \<Rightarrow> bool" where
  empty: "served []"
| created: "served s \<Longrightarrow> \<not> cid_is_registered (ca_cid c) s \<Longrightarrow> mutuals c = [] \<Longrightarrow> served (save_cnac c s)"
| saved: "served s \<Longrightarrow> get_cnac_by_cid (ca_cid c) s = Some c \<Longrightarrow> served (save_cnac c s)"
| registered: "served s \<Longrightarrow> register_p2p_as_server a b s = Some (r, s') \<Longrightarrow> served s'"
| deregistered: "served s \<Longrightarrow> deregister_p2p_as_server a b s = (r, s') \<Longrightarrow> served s'"
| deleted: "served s \<Longrightarrow> delete_cnac_by_cid a s = (r, s') \<Longrightarrow> served s'"
| purged: "served s \<Longrightarrow> purge s = (n, s') \<Longrightarrow> served s'"
| fetched: "served s \<Longrightarrow> get_byte_map_value a p k sk s = (v, s') \<Longrightarrow> served s'"
| stored: "served s \<Longrightarrow> store_byte_map_value a p k sk x s = (v, s') \<Longrightarrow> served s'"
| removed: "served s \<Longrightarrow> remove_byte_map_value a p k sk s = (v, s') \<Longrightarrow> served s'"
| viewed: "served s \<Longrightarrow> get_byte_map_values_by_key a p k s = (vs, s') \<Longrightarrow> served s'"
| drained: "served s \<Longrightarrow> remove_byte_map_values_by_key a p k s = (vs, s') \<Longrightarrow> served s'"

definition keyed :: "backend \<Rightarrow> bool" where
  "keyed s \<longleftrightarrow> (\<forall>k c. map_of s k = Some c \<longrightarrow> ca_cid c = k)"

lemma keyedD: "keyed s \<Longrightarrow> map_of s k = Some c \<Longrightarrow> ca_cid c = k"
  by (simp add: keyed_def)

lemma keyed_update: "keyed s \<Longrightarrow> ca_cid c = k \<Longrightarrow> keyed (AList.update k c s)"
  by (simp add: keyed_def update_conv')

lemma keyed_delete: "keyed s \<Longrightarrow> keyed (AList.delete k s)"
  by (simp add: keyed_def delete_conv' restrict_map_def)

lemma map_of_multimap_insert:
  "map_of (multimap_insert k v m) = (map_of m)(k \<mapsto> or_default m k @ [v])"
  by (auto simp: multimap_insert_def or_default_def update_conv' split: option.split)

lemma find_Some_filter: "List.find P xs = Some x \<Longrightarrow> Q x \<Longrightarrow> 0 < length (filter Q xs)"
  by (induction xs) (auto split: if_splits)

lemma filter_remove_first:
  "length (filter Q (remove_first P xs)) =
   length (filter Q xs) - (if \<exists>x. List.find P xs = Some x \<and> Q x then 1 else 0)"
  by (induction xs) (auto dest: find_Some_filter)

lemma listed_inserted [simp]:
  "listed (c\<lparr>mutuals := multimap_insert HYPERLAN_IDX p (mutuals c)\<rparr>) b = listed c b + (if mp_cid p = b then 1 else 0)"
  by (simp add: listed_def peer_vec_def or_default_def map_of_multimap_insert)

lemma filter_empty_find: "filter P xs = [] \<longleftrightarrow> List.find P xs = None"
  by (auto simp: find_None_iff filter_empty_conv)

lemma remove_hyperlan_peer_None: "fst (remove_hyperlan_peer cid c) = None \<longleftrightarrow> listed c cid = 0"
  by (auto simp: remove_hyperlan_peer_def listed_def peer_vec_def or_default_def filter_empty_find
      split: option.split)

lemma listed_removed:
  "listed (snd (remove_hyperlan_peer cid c)) b = listed c b - (if b = cid then 1 else 0)"
proof (cases "map_of (mutuals c) HYPERLAN_IDX")
  case (Some ps)
  show ?thesis
  proof (cases "List.find (\<lambda>p. mp_cid p = cid) ps")
    case None
    then have "filter (\<lambda>p. mp_cid p = cid) ps = []" by (simp add: filter_empty_find)
    with None Some show ?thesis
      by (simp add: remove_hyperlan_peer_def listed_def peer_vec_def or_default_def)
  next
    case (Some p)
    then have "mp_cid p = cid" by (auto simp: find_Some_iff)
    with Some \<open>map_of (mutuals c) HYPERLAN_IDX = Some ps\<close> show ?thesis
      by (auto simp: remove_hyperlan_peer_def listed_def peer_vec_def or_default_def update_conv' filter_remove_first)
  qed
qed (simp add: remove_hyperlan_peer_def listed_def peer_vec_def or_default_def)

lemma ca_cid_removed [simp]: "ca_cid (snd (remove_hyperlan_peer cid c)) = ca_cid c"
  by (simp add: remove_hyperlan_peer_def split: option.split)

lemma mutual_count_update:
  "mutual_count (AList.update k c s) a b = (if a = k then listed c b else mutual_count s a b)"
  by (simp add: mutual_count_def update_conv')

lemma mutual_count_delete:
  "mutual_count (AList.delete k s) a b = (if a = k then 0 else mutual_count s a b)"
  by (simp add: mutual_count_def delete_conv' restrict_map_def)

lemma mutual_count_Some: "map_of s a = Some c \<Longrightarrow> mutual_count s a b = listed c b"
  by (simp add: mutual_count_def)

lemma mutual_count_None: "map_of s a = None \<Longrightarrow> mutual_count s a b = 0"
  by (simp add: mutual_count_def)

lemma forget_in_count:
  "mutual_count (forget_in cid peers s) a b =
   mutual_count s a b - (if b = cid then length (filter (\<lambda>p. p = a) peers) else 0)"
proof (induction peers arbitrary: s)
  case (Cons p peers)
  show ?case
    by (cases "map_of s p")
       (auto simp: Cons.IH mutual_count_update mutual_count_Some mutual_count_None listed_removed)
qed simp

lemma keyed_forget_in: "keyed s \<Longrightarrow> keyed (forget_in cid peers s)"
proof (induction peers arbitrary: s)
  case (Cons p peers)
  then show ?case by (auto split: option.split intro!: Cons.IH keyed_update dest: keyedD)
qed simp

definition balanced :: "backend \<Rightarrow> bool" where
  "balanced s \<longleftrightarrow> keyed s \<and> (\<forall>a b. mutual_count s a b = mutual_count s b a)"

lemma balancedI: "keyed s \<Longrightarrow> (\<And>a b. mutual_count s a b = mutual_count s b a) \<Longrightarrow> balanced s"
  by (simp add: balanced_def)

lemma balanced_sym: "balanced s \<Longrightarrow> mutual_count s a b = mutual_count s b a"
  by (simp add: balanced_def)

lemma balanced_keyed: "balanced s \<Longrightarrow> keyed s"
  by (simp add: balanced_def)

lemma listed_same_mutuals: "mutuals c' = mutuals c \<Longrightarrow> listed c' b = listed c b"
  by (simp add: listed_def peer_vec_def)

lemma balanced_same_mutuals:
  assumes "balanced s" "map_of s k = Some c" "ca_cid c' = ca_cid c" "mutuals c' = mutuals c"
  shows "balanced (AList.update k c' s)"
proof -
  have "mutual_count (AList.update k c' s) a b = mutual_count s a b" for a b
    using assms by (simp add: mutual_count_update mutual_count_Some listed_same_mutuals [of c' c])
  moreover have "keyed (AList.update k c' s)"
    using assms by (auto intro!: keyed_update simp: balanced_def dest: keyedD)
  ultimately show ?thesis using assms(1) by (simp add: balanced_def)
qed

lemma balanced_created:
  assumes "balanced s" "\<not> cid_is_registered (ca_cid c) s" "mutuals c = []"
  shows "balanced (save_cnac c s)"
proof (rule balancedI)
  show "keyed (save_cnac c s)" using assms by (simp add: save_cnac_def keyed_update balanced_def)
  have l: "listed c b = 0" for b using assms(3) by (simp add: listed_def peer_vec_def or_default_def)
  have "mutual_count s a (ca_cid c) = 0" for a
    using assms(1,2) by (simp add: balanced_sym [of s a] mutual_count_None cid_is_registered_def)
  then show "mutual_count (save_cnac c s) a b = mutual_count (save_cnac c s) b a" for a b
    using balanced_sym [OF assms(1)] l by (simp add: save_cnac_def mutual_count_update)
qed

lemma balanced_registered:
  assumes "balanced s" "register_p2p_as_server cid0 cid1 s = Some (r, s')"
  shows "balanced s'"
proof (cases "\<exists>c0 c1. map_of s cid0 = Some c0 \<and> map_of s cid1 = Some c1")
  case True
  then obtain c0 c1 where m: "map_of s cid0 = Some c0" "map_of s cid1 = Some c1" by blast
  with assms(2) have ne: "cid0 \<noteq> cid1" by (auto simp: register_p2p_as_server_def)
  have id: "ca_cid c0 = cid0" "ca_cid c1 = cid1"
    using m balanced_keyed [OF assms(1)] by (auto dest: keyedD)
  have s': "s' = AList.update cid1 (snd (register_hyperlan_p2p_as_server c0 c1))
      (AList.update cid0 (fst (register_hyperlan_p2p_as_server c0 c1)) s)"
    using assms(2) m ne by (simp add: register_p2p_as_server_def Let_def)
  have cnt: "mutual_count s' a b =
      mutual_count s a b + (if a = cid0 \<and> b = cid1 \<or> a = cid1 \<and> b = cid0 then 1 else 0)" for a b
    using ne m id by (auto simp: s' mutual_count_update register_hyperlan_p2p_as_server_def mutual_count_Some)
  have "keyed s'"
    unfolding s' using balanced_keyed [OF assms(1)] id
    by (auto intro!: keyed_update simp: register_hyperlan_p2p_as_server_def)
  then show ?thesis
  proof (rule balancedI)
    show "mutual_count s' a b = mutual_count s' b a" for a b
      using balanced_sym [OF assms(1), of a b] by (auto simp: cnt)
  qed
qed (use assms in \<open>auto simp: register_p2p_as_server_def split: option.splits\<close>)

lemma balanced_deregistered:
  assumes "balanced s" "deregister_p2p_as_server cid0 cid1 s = (r, s')"
  shows "balanced s'"
proof (cases "\<exists>c0 c1. map_of s cid0 = Some c0 \<and> map_of s cid1 = Some c1")
  case True
  then obtain c0 c1 where m: "map_of s cid0 = Some c0" "map_of s cid1 = Some c1" by blast
  have id: "ca_cid c0 = cid0" "ca_cid c1 = cid1"
    using m balanced_keyed [OF assms(1)] by (auto dest: keyedD)
  have cnt: "listed c0 b = mutual_count s cid0 b" "listed c1 b = mutual_count s cid1 b" for b
    using m by (simp_all add: mutual_count_Some)
  have eq: "listed c0 cid1 = listed c1 cid0"
    using balanced_sym [OF assms(1), of cid0 cid1] m by (simp add: mutual_count_Some)
  define s1 where "s1 = AList.update cid0 (snd (remove_hyperlan_peer cid1 c0)) s"
  define c1' where "c1' = the (map_of s1 cid1)"
  define s2 where "s2 = AList.update cid1 (snd (remove_hyperlan_peer cid0 c1')) s1"
  have k: "keyed s1" "map_of s1 cid1 = Some c1'" "ca_cid c1' = cid1"
    using balanced_keyed [OF assms(1)] m id by (auto simp: s1_def c1'_def update_conv' intro!: keyed_update)
  have k2: "keyed s2" using k by (auto simp: s2_def intro!: keyed_update)
  have "s' = s \<or> s' = s1 \<and> cid0 = cid1 \<or> s' = s2 \<and> listed c0 cid1 \<noteq> 0"
    using assms(2) m id eq remove_hyperlan_peer_None [of cid1 c0] remove_hyperlan_peer_None [of cid0 c1']
    by (auto simp: deregister_p2p_as_server_def Let_def s1_def s2_def c1'_def update_conv' split: prod.splits option.splits if_splits)
  moreover have "balanced s1" if "cid0 = cid1"
  proof (rule balancedI [OF k(1)])
    show "mutual_count s1 a b = mutual_count s1 b a" for a b
      using balanced_sym [OF assms(1), of a b] that
      by (auto simp: s1_def mutual_count_update listed_removed cnt)
  qed
  moreover have "balanced s2"
  proof (rule balancedI [OF k2])
    show "mutual_count s2 a b = mutual_count s2 b a" for a b
      using balanced_sym [OF assms(1), of a b] m(2)
      by (auto simp: s2_def c1'_def s1_def update_conv' mutual_count_update listed_removed cnt)
  qed
  ultimately show ?thesis using assms(1) by blast
qed (use assms in \<open>auto simp: deregister_p2p_as_server_def split: option.splits\<close>)

lemma account_peer_list_count:
  "length (filter (\<lambda>p. p = a) (case account_peer_list c of None \<Rightarrow> [] | Some ps \<Rightarrow> ps)) = listed c a"
  by (simp add: account_peer_list_def listed_def peer_vec_def or_default_def filter_map comp_def split: option.split)

lemma delete_cnac_by_cid_Some:
  assumes "map_of s cid = Some c"
  shows "delete_cnac_by_cid cid s =
    (Ok (), forget_in cid (case account_peer_list c of None \<Rightarrow> [] | Some ps \<Rightarrow> ps) (AList.delete cid s))"
  using assms by (simp add: delete_cnac_by_cid_def split: option.split)

lemma delete_count:
  assumes "balanced s" "map_of s cid = Some c"
  shows "mutual_count (snd (delete_cnac_by_cid cid s)) a b = (if a = cid \<or> b = cid then 0 else mutual_count s a b)"
  using assms balanced_sym [OF assms(1), of a cid]
  by (simp add: delete_cnac_by_cid_Some forget_in_count mutual_count_delete account_peer_list_count mutual_count_Some)

lemma balanced_deleted:
  assumes "balanced s" "delete_cnac_by_cid cid s = (r, s')"
  shows "balanced s'"
proof (cases "map_of s cid")
  case None
  with assms show ?thesis by (simp add: delete_cnac_by_cid_def)
next
  case (Some c)
  have s': "s' = snd (delete_cnac_by_cid cid s)" using assms(2) by simp
  show ?thesis
  proof (rule balancedI)
    show "keyed s'" using Some balanced_keyed [OF assms(1)]
      by (simp add: s' delete_cnac_by_cid_Some keyed_forget_in keyed_delete)
    show "mutual_count s' a b = mutual_count s' b a" for a b
      using balanced_sym [OF assms(1), of a b] by (simp add: s' delete_count [OF assms(1) Some])
  qed
qed

lemma map_of_forget_in: "map_of (forget_in cid peers s) k = None \<longleftrightarrow> map_of s k = None"
  by (induction peers arbitrary: s) (auto simp: update_conv' split: option.split)

lemmas byte_map_ops = get_byte_map_value_def store_byte_map_value_def remove_byte_map_value_def
  get_byte_map_values_by_key_def remove_byte_map_values_by_key_def

lemma byte_map_ops_balanced:
  assumes "balanced s"
  shows "balanced (snd (get_byte_map_value a p k sk s))"
    and "balanced (snd (store_byte_map_value a p k sk x s))"
    and "balanced (snd (remove_byte_map_value a p k sk s))"
    and "balanced (snd (get_byte_map_values_by_key a p k s))"
    and "balanced (snd (remove_byte_map_values_by_key a p k s))"
  using assms
  by (auto simp: byte_map_ops with_submap_def split: option.split intro: balanced_same_mutuals)

lemma served_balanced: "served s \<Longrightarrow> balanced s"
proof (induction rule: served.induct)
  case empty
  show ?case by (simp add: balanced_def keyed_def mutual_count_def)
next
  case (created s c)
  then show ?case by (simp add: balanced_created)
next
  case (saved s c)
  then show ?case by (simp add: save_cnac_def get_cnac_by_cid_def balanced_same_mutuals)
next
  case (purged s n s')
  then show ?case by (simp add: purge_def balanced_def keyed_def mutual_count_def)
next
  case (deleted s a r s')
  then show ?case by (blast intro: balanced_deleted)
next
  case (deregistered s a b r s')
  then show ?case by (blast intro: balanced_deregistered)
qed (use byte_map_ops_balanced in \<open>auto dest: balanced_registered dest!: arg_cong [where f = snd]\<close>)

lemma peer_exists_count: "hyperlan_peer_exists a b s \<longleftrightarrow> mutual_count s a b \<noteq> 0"
  by (auto simp: hyperlan_peer_exists_def get_hyperlan_peer_by_cid_def account_peer_def mutual_count_def listed_def
      peer_vec_def or_default_def filter_empty_find split: option.split)

lemma delete_keeps_registered:
  "cid_is_registered k (snd (delete_cnac_by_cid cid s)) \<longleftrightarrow> cid_is_registered k s \<and> k \<noteq> cid"
  by (cases "map_of s cid")
     (auto simp: cid_is_registered_def delete_cnac_by_cid_def map_of_forget_in delete_conv' restrict_map_def
        simp del: not_None_eq split: option.split)

text \<open>
  C9: In every state a server reaches by creating, saving, registering, deregistering and deleting accounts and by
  using their byte maps, the mutual lists agree: one account knows another exactly when the other knows it, and
  both are registered. Deleting an account then removes it and every entry that names it, and keeps every other
  account and every other acquaintance.
\<close>

theorem mutuals_symmetric_and_deletion_complete:
  assumes "served s"
  shows "(hyperlan_peer_exists a b s \<longleftrightarrow> hyperlan_peer_exists b a s) \<and>
    (hyperlan_peer_exists a b s \<longrightarrow> cid_is_registered a s \<and> cid_is_registered b s) \<and>
    (cid_is_registered cid s \<longrightarrow>
      (\<exists>s'. delete_cnac_by_cid cid s = (Ok (), s') \<and>
         (\<forall>x. cid_is_registered x s' \<longleftrightarrow> cid_is_registered x s \<and> x \<noteq> cid) \<and>
         (\<forall>x y. hyperlan_peer_exists x y s' \<longleftrightarrow> hyperlan_peer_exists x y s \<and> x \<noteq> cid \<and> y \<noteq> cid)))"
proof -
  have b: "balanced s" by (rule served_balanced [OF assms])
  have "hyperlan_peer_exists a b s \<longleftrightarrow> hyperlan_peer_exists b a s"
    by (simp add: peer_exists_count balanced_sym [OF b, of a b])
  moreover have "hyperlan_peer_exists a b s \<longrightarrow> cid_is_registered a s \<and> cid_is_registered b s"
    using balanced_sym [OF b, of a b] mutual_count_None [of s b a] mutual_count_None [of s a b]
    by (metis peer_exists_count cid_is_registered_def)
  moreover have "\<exists>s'. delete_cnac_by_cid cid s = (Ok (), s') \<and>
         (\<forall>x. cid_is_registered x s' \<longleftrightarrow> cid_is_registered x s \<and> x \<noteq> cid) \<and>
         (\<forall>x y. hyperlan_peer_exists x y s' \<longleftrightarrow> hyperlan_peer_exists x y s \<and> x \<noteq> cid \<and> y \<noteq> cid)"
    if "cid_is_registered cid s"
  proof -
    from that obtain c where c: "map_of s cid = Some c" by (auto simp: cid_is_registered_def)
    show ?thesis
      using delete_keeps_registered [of _ cid s] delete_count [OF b c]
      by (intro exI [of _ "snd (delete_cnac_by_cid cid s)"])
         (auto simp: peer_exists_count delete_cnac_by_cid_Some [OF c])
  qed
  ultimately show ?thesis by blast
qed

definition demo_account :: "u64 \<Rightarrow> string \<Rightarrow> client_account" where
  "demo_account cid name =
     \<lparr>ca_cid = cid, is_personal = False, creation_date = '''', ca_username = name, ca_full_name = name,
      mutuals = [], byte_map = []\<rparr>"

text \<open>Alice and Bob register with the server and with each other; Carol only with the server.\<close>

definition demo_store :: backend where
  "demo_store =
     (let s = save_cnac (demo_account 3 ''carol'') (save_cnac (demo_account 2 ''bob'') (save_cnac (demo_account 1 ''alice'') []))
      in snd (the (register_p2p_as_server 1 2 s)))"

lemmas demo_store_simps = demo_store_def save_cnac_def demo_account_def register_p2p_as_server_def Let_def
  register_hyperlan_p2p_as_server_def multimap_insert_def HYPERLAN_IDX_def

lemma demo_store_served: "served demo_store"
proof -
  have 1: "served (save_cnac (demo_account 1 ''alice'') [])"
    by (rule served.created [OF served.empty]) (simp_all add: cid_is_registered_def demo_account_def)
  have 2: "served (save_cnac (demo_account 2 ''bob'') (save_cnac (demo_account 1 ''alice'') []))"
    by (rule served.created [OF 1]) (simp_all add: cid_is_registered_def save_cnac_def demo_account_def)
  have 3: "served (save_cnac (demo_account 3 ''carol'') (save_cnac (demo_account 2 ''bob'')
      (save_cnac (demo_account 1 ''alice'') [])))"
    by (rule served.created [OF 2]) (simp_all add: cid_is_registered_def save_cnac_def demo_account_def)
  show ?thesis
    by (rule served.registered [OF 3, of 1 2 "Ok ()"]) (simp add: demo_store_simps)
qed

theorem mutuals_symmetric_and_deletion_complete_witness:
  "served demo_store \<and> hyperlan_peer_exists 1 2 demo_store \<and> hyperlan_peer_exists 2 1 demo_store \<and>
   (\<exists>s'. delete_cnac_by_cid 2 demo_store = (Ok (), s') \<and> cid_is_registered 1 s' \<and> \<not> hyperlan_peer_exists 1 2 s')"
proof -
  have 1: "hyperlan_peer_exists 1 2 demo_store" and 2: "cid_is_registered 2 demo_store" "cid_is_registered 1 demo_store"
    by (simp_all add: hyperlan_peer_exists_def get_hyperlan_peer_by_cid_def account_peer_def cid_is_registered_def
        demo_store_simps)
  note ok = mutuals_symmetric_and_deletion_complete [OF demo_store_served, of 1 2 2]
  have 3: "hyperlan_peer_exists 2 1 demo_store" using ok 1 by simp
  from mp [OF conjunct2 [OF conjunct2 [OF ok]] 2(1)] obtain s' where s': "delete_cnac_by_cid 2 demo_store = (Ok (), s')"
      "\<forall>x. cid_is_registered x s' \<longleftrightarrow> cid_is_registered x demo_store \<and> x \<noteq> 2"
      "\<forall>x y. hyperlan_peer_exists x y s' \<longleftrightarrow> hyperlan_peer_exists x y demo_store \<and> x \<noteq> 2 \<and> y \<noteq> 2"
    by (elim exE conjE) (rule that)
  have "cid_is_registered 1 s'" "\<not> hyperlan_peer_exists 1 2 s'" using s'(2,3) 2(2) by simp_all
  with 1 3 s'(1) show ?thesis using demo_store_served by simp
qed

section \<open>The byte map as an interface\<close>

text \<open>
  A persistence handler is any backend; the record holds the operations the peer layer and the handlers of peer
  signals call, each of
  which may fail. \<open>memory_persistence\<close> is the in-memory one.
\<close>

record 's persistence =
  p_store :: "u64 \<Rightarrow> u64 \<Rightarrow> string \<Rightarrow> string \<Rightarrow> bytes \<Rightarrow> 's \<Rightarrow> (bytes option, account_error) result \<times> 's"
  p_drain :: "u64 \<Rightarrow> u64 \<Rightarrow> string \<Rightarrow> 's \<Rightarrow> ((string \<times> bytes) list, account_error) result \<times> 's"
  p_mutuals :: "u64 \<Rightarrow> u64 list \<Rightarrow> 's \<Rightarrow> (bool list, account_error) result"
  p_registered :: "u64 \<Rightarrow> 's \<Rightarrow> (bool, account_error) result"
  p_register :: "u64 \<Rightarrow> u64 \<Rightarrow> 's \<Rightarrow> ((unit, account_error) result \<times> 's) option"
  p_deregister :: "u64 \<Rightarrow> u64 \<Rightarrow> 's \<Rightarrow> (unit, account_error) result \<times> 's"
  p_impersonal :: "32 word option \<Rightarrow> 's \<Rightarrow> (u64 list option, account_error) result"
  p_peer_list :: "u64 \<Rightarrow> 's \<Rightarrow> (u64 list option, account_error) result"
  p_username :: "u64 \<Rightarrow> 's \<Rightarrow> (string option, account_error) result"

definition memory_persistence :: "backend persistence" where
  "memory_persistence =
     \<lparr>p_store = (\<lambda>c p k sk v s. apfst Ok (store_byte_map_value c p k sk v s)),
      p_drain = (\<lambda>c p k s. apfst Ok (remove_byte_map_values_by_key c p k s)),
      p_mutuals = (\<lambda>c peers s. Ok (hyperlan_peers_are_mutuals c peers s)),
      p_registered = (\<lambda>c s. Ok (cid_is_registered c s)),
      p_register = register_p2p_as_server,
      p_deregister = deregister_p2p_as_server,
      p_impersonal = (\<lambda>limit s. Ok (get_registered_impersonal_cids limit s)),
      p_peer_list = (\<lambda>c s. Ok (get_hyperlan_peer_list c s)),
      p_username = (\<lambda>c s. Ok (get_username_by_cid c s))\<rparr>"

text \<open>
  What a client of the byte map may rely on, in a state where the handler works: a value stored under a known
  account is there, draining a key returns all of its values once and leaves none, and nothing else changes.
\<close>

locale byte_store =
  fixes pers :: "'s persistence"
    and sound :: "'s \<Rightarrow> bool"
    and known :: "'s \<Rightarrow> u64 \<Rightarrow> bool"
    and contents :: "'s \<Rightarrow> u64 \<Rightarrow> u64 \<Rightarrow> string \<Rightarrow> string \<Rightarrow> bytes option"
  assumes store_ok: "sound s \<Longrightarrow> \<exists>old. fst (p_store pers c p k sk v s) = Ok old"
    and store_sound: "sound s \<Longrightarrow> sound (snd (p_store pers c p k sk v s))"
    and store_known: "sound s \<Longrightarrow> known (snd (p_store pers c p k sk v s)) = known s"
    and store_same: "sound s \<Longrightarrow> known s c \<Longrightarrow>
      contents (snd (p_store pers c p k sk v s)) c p k = (contents s c p k)(sk \<mapsto> v)"
    and store_other: "sound s \<Longrightarrow> (c', p', k') \<noteq> (c, p, k) \<Longrightarrow>
      contents (snd (p_store pers c p k sk v s)) c' p' k' = contents s c' p' k'"
    and drain_ok: "sound s \<Longrightarrow>
      \<exists>items. fst (p_drain pers c p k s) = Ok items \<and> map_of items = contents s c p k \<and> distinct (map fst items)"
    and drain_sound: "sound s \<Longrightarrow> sound (snd (p_drain pers c p k s))"
    and drain_known: "sound s \<Longrightarrow> known (snd (p_drain pers c p k s)) = known s"
    and drain_same: "sound s \<Longrightarrow> contents (snd (p_drain pers c p k s)) c p k = (\<lambda>_. None)"
    and drain_other: "sound s \<Longrightarrow> (c', p', k') \<noteq> (c, p, k) \<Longrightarrow>
      contents (snd (p_drain pers c p k s)) c' p' k' = contents s c' p' k'"

definition backend_sound :: "backend \<Rightarrow> bool" where
  "backend_sound s \<longleftrightarrow>
     (\<forall>c a p k. map_of s c = Some a \<longrightarrow> distinct (map fst (slot (byte_map a) p k)))"

definition backend_contents :: "backend \<Rightarrow> u64 \<Rightarrow> u64 \<Rightarrow> string \<Rightarrow> string \<Rightarrow> bytes option" where
  "backend_contents s c p k = (case map_of s c of None \<Rightarrow> (\<lambda>_. None) | Some a \<Rightarrow> map_of (slot (byte_map a) p k))"

lemma slot_with_submap:
  "slot (byte_map (with_submap p k f a)) p' k' =
   (if p' = p \<and> k' = k then f (slot (byte_map a) p k) else slot (byte_map a) p' k')"
  by (simp add: slot_def with_submap_def or_default_def update_conv' split: option.split)

lemma slot_drained:
  "slot (AList.update p (AList.delete k (or_default m p)) m) p' k' = (if p' = p \<and> k' = k then [] else slot m p' k')"
  by (simp add: slot_def or_default_def update_conv' delete_conv' restrict_map_def split: option.split)

lemma backend_sound_update:
  "backend_sound s \<Longrightarrow> (\<And>p k. distinct (map fst (slot (byte_map a) p k))) \<Longrightarrow> backend_sound (AList.update c a s)"
  by (simp add: backend_sound_def update_conv')

lemma backend_soundD: "backend_sound s \<Longrightarrow> map_of s c = Some a \<Longrightarrow> distinct (map fst (slot (byte_map a) p k))"
  by (simp add: backend_sound_def)

lemma backend_contents_update:
  "backend_contents (AList.update c a s) c' p k =
   (if c' = c then map_of (slot (byte_map a) p k) else backend_contents s c' p k)"
  by (simp add: backend_contents_def update_conv')

lemma registered_update: "map_of s c \<noteq> None \<Longrightarrow> cid_is_registered c' (AList.update c a s) = cid_is_registered c' s"
  by (simp add: cid_is_registered_def update_conv')

lemmas memory_simps = memory_persistence_def store_byte_map_value_def remove_byte_map_values_by_key_def
  backend_contents_update slot_with_submap slot_drained registered_update

interpretation memory_store: byte_store memory_persistence backend_sound "\<lambda>s c. cid_is_registered c s" backend_contents
proof unfold_locales
  fix s c p k sk v c' p' k'
  assume s: "backend_sound s"
  show "\<exists>old. fst (p_store memory_persistence c p k sk v s) = Ok old"
    by (simp add: memory_simps split: option.split)
  show "backend_sound (snd (p_store memory_persistence c p k sk v s))"
    using s by (auto simp: memory_simps distinct_update backend_soundD split: option.split intro!: backend_sound_update)
  show "(\<lambda>c'. cid_is_registered c' (snd (p_store memory_persistence c p k sk v s))) = (\<lambda>c'. cid_is_registered c' s)"
    by (simp add: memory_simps split: option.split)
  show "backend_contents (snd (p_store memory_persistence c p k sk v s)) c p k = (backend_contents s c p k)(sk \<mapsto> v)"
    if "cid_is_registered c s"
    using that by (auto simp: memory_simps cid_is_registered_def backend_contents_def update_conv')
  show "backend_contents (snd (p_store memory_persistence c p k sk v s)) c' p' k' = backend_contents s c' p' k'"
    if "(c', p', k') \<noteq> (c, p, k)"
    using that by (auto simp: memory_simps backend_contents_def update_conv' split: option.split)
  show "\<exists>items. fst (p_drain memory_persistence c p k s) = Ok items \<and> map_of items = backend_contents s c p k \<and>
      distinct (map fst items)"
    using s by (auto simp: memory_simps backend_contents_def backend_soundD split: option.split)
  show "backend_sound (snd (p_drain memory_persistence c p k s))"
    using s by (auto simp: memory_simps backend_soundD split: option.split intro!: backend_sound_update)
  show "(\<lambda>c'. cid_is_registered c' (snd (p_drain memory_persistence c p k s))) = (\<lambda>c'. cid_is_registered c' s)"
    by (simp add: memory_simps split: option.split)
  show "backend_contents (snd (p_drain memory_persistence c p k s)) c p k = (\<lambda>_. None)"
    by (auto simp: memory_simps backend_contents_def update_conv' split: option.split)
  show "backend_contents (snd (p_drain memory_persistence c p k s)) c' p' k' = backend_contents s c' p' k'"
    if "(c', p', k') \<noteq> (c, p, k)"
    using that by (auto simp: memory_simps backend_contents_def update_conv' split: option.split)
qed

end
