(* ===== verification/Peer_Layer.thy ===== *)
theory Peer_Layer
  imports Session_Node Memory_Backend
begin

text \<open>
  The peer layer of a server, \<open>citadel_proto/src/proto/peer/peer_layer.rs\<close> and \<open>message_group.rs\<close>: the message groups
  of each connected client with their members and their invitations, the postings that wait for the answer of a
  peer together with the timers that end the wait, and the mailbox of a client that is offline, kept in the byte map
  of its account. The signals that peers exchange are those of \<open>peer_layer.rs\<close>, \<open>peer_crypt.rs\<close> and
  \<open>packet_processor/peer/group_broadcast.rs\<close>.

  The timer queue belongs to a library: it hands out a key per entry (an argument here, assumed to be unused),
  gives back entries that are due and refuses by a panic to remove a key it does not hold. The address data of a
  key exchange (type variable \<open>'n\<close>) and the closure a timer runs (type variable \<open>'f\<close>) are only passed along.

  Shown: nobody is a member of a group without an invitation it accepted or a request to join a public group;
  the timer of every posting exists as long as the posting, so ending a wait never panics, and an ended wait never
  times out; mail put into a mailbox comes out once, when its owner connects.
\<close>

section \<open>Groups, signals and responses\<close>

datatype group_type = Public | Private

record message_group_options =
  group_type :: group_type
  mgo_id :: u128

record message_group_key =
  mgk_cid :: u64
  mgid :: u128

record message_group_peer =
  mgp_peer_cid :: u64

record message_group =
  concurrent_peers :: "(u64 \<times> message_group_peer) list"
  pending_peers :: "(u64 \<times> message_group_peer) list"
  mg_options :: message_group_options

datatype member_state = EnteredGroup "u64 list" | LeftGroup "u64 list"

datatype group_broadcast =
    GbCreate "u64 list" message_group_options
  | GbLeaveRoom message_group_key
  | GbLeaveRoomResponse message_group_key bool string
  | GbEnd message_group_key
  | GbEndResponse message_group_key bool
  | GbDisconnected message_group_key
  | GbMessage u64 message_group_key bytes
  | GbMessageResponse message_group_key bool
  | GbAdd message_group_key "u64 list"
  | GbAddResponse message_group_key "u64 list option"
  | GbAcceptMembership message_group_key
  | GbDeclineMembership message_group_key
  | GbAcceptMembershipResponse message_group_key bool
  | GbKick message_group_key "u64 list"
  | GbKickResponse message_group_key bool
  | GbListGroupsFor u64
  | GbListResponse "message_group_key list"
  | GbRequestJoin message_group_key
  | GbInvitation message_group_key
  | GbCreateResponse "message_group_key option"
  | GbMemberStateChanged message_group_key member_state
  | GbGroupNonExists message_group_key
  | GbSignalResponse "(unit, string) result"

datatype peer_connection_type =
    HyperLANPeerToHyperLANPeer u64 u64
  | HyperLANPeerToHyperWANPeer u64 u64 u64

fun get_original_implicated_cid :: "peer_connection_type \<Rightarrow> u64" where
  "get_original_implicated_cid (HyperLANPeerToHyperLANPeer implicated_cid target) = implicated_cid"
| "get_original_implicated_cid (HyperLANPeerToHyperWANPeer implicated_cid icid target) = implicated_cid"

fun get_original_target_cid :: "peer_connection_type \<Rightarrow> u64" where
  "get_original_target_cid (HyperLANPeerToHyperLANPeer implicated_cid target) = target"
| "get_original_target_cid (HyperLANPeerToHyperWANPeer implicated_cid icid target) = target"

fun pct_reverse :: "peer_connection_type \<Rightarrow> peer_connection_type" where
  "pct_reverse (HyperLANPeerToHyperLANPeer implicated_cid target) = HyperLANPeerToHyperLANPeer target implicated_cid"
| "pct_reverse (HyperLANPeerToHyperWANPeer implicated_cid icid target) =
     HyperLANPeerToHyperWANPeer target icid implicated_cid"

fun as_virtual_connection :: "peer_connection_type \<Rightarrow> virtual_connection_type" where
  "as_virtual_connection (HyperLANPeerToHyperLANPeer implicated_cid target) = LocalGroupPeer implicated_cid target"
| "as_virtual_connection (HyperLANPeerToHyperWANPeer implicated_cid icid target) =
     ExternalGroupPeer implicated_cid icid target"

datatype hypernode_connection_type =
    HyperLANPeerToHyperLANServer u64
  | HyperLANPeerToHyperWANServer u64 u64

fun hct_get_implicated_cid :: "hypernode_connection_type \<Rightarrow> u64" where
  "hct_get_implicated_cid (HyperLANPeerToHyperLANServer implicated_cid) = implicated_cid"
| "hct_get_implicated_cid (HyperLANPeerToHyperWANServer implicated_cid icid) = implicated_cid"

datatype peer_response =
    RespOk "string option"
  | RespAccept "string option"
  | RespDecline
  | RespErr "string option"
  | RespDisconnected string
  | RespGroup group_broadcast
  | RespNone
  | RespServerReceivedRequest
  | RespTimeout
  | RespRegisteredCids "u64 list" "bool list"

datatype udp_mode = UdpEnabled | UdpDisabled

record session_security_settings =
  sss_security_level :: security_level
  sss_secrecy_mode :: secrecy_mode
  sss_crypto_params :: crypto_parameters

datatype 'n key_exchange_process =
    KepStage0 bytes session_security_settings udp_mode
  | KepStage1 bytes "'n option"
  | KepStage2 i64 "'n option"
  | KepHolePunchFailed

record virtual_object_metadata =
  vom_name :: string
  vom_date_created :: string
  vom_author :: string
  vom_plaintext_length :: nat
  vom_group_count :: nat
  vom_object_id :: u32

datatype 'n peer_signal =
    PostRegister peer_connection_type string "string option" "ticket option" "peer_response option"
  | Deregister peer_connection_type
  | PostConnect peer_connection_type "ticket option" "peer_response option" session_security_settings udp_mode
  | PsDisconnect peer_connection_type "peer_response option"
  | DisconnectUDP virtual_connection_type
  | BroadcastConnected group_broadcast
  | PostFileUploadRequest peer_connection_type virtual_object_metadata ticket
  | AcceptFileUploadRequest peer_connection_type ticket
  | GetRegisteredPeers hypernode_connection_type "peer_response option" "32 word option"
  | GetMutuals hypernode_connection_type "peer_response option"
  | SignalError ticket string
  | DeregistrationSuccess u64
  | SignalReceived ticket
  | Kem peer_connection_type "'n key_exchange_process"

section \<open>The state of the layer\<close>

record ('n, 'f) tracked_posting =
  tp_signal :: "'n peer_signal"
  tp_key :: nat
  on_timeout :: 'f

type_synonym groups = "(u64 \<times> (u128 \<times> message_group) list) list"

record ('s, 'n, 'f) peer_layer =
  pl_store :: 's
  message_groups :: groups
  observed_postings :: "(u64 \<times> (ticket \<times> ('n, 'f) tracked_posting) list) list"
  delay_queue :: "(nat \<times> u64 \<times> ticket) list"

definition MAILBOX :: string where
  "MAILBOX = ''mailbox''"

definition peer_layer_new :: "'s \<Rightarrow> ('s, 'n, 'f) peer_layer" where
  "peer_layer_new persistence_handler =
     \<lparr>pl_store = persistence_handler, message_groups = [], observed_postings = [], delay_queue = []\<rparr>"

definition entry_or_empty :: "'k \<Rightarrow> ('k \<times> 'v list) list \<Rightarrow> ('k \<times> 'v list) list" where
  "entry_or_empty k m = (if map_of m k = None then AList.update k [] m else m)"
text \<open>
  A client that connects gets empty maps unless it has them already, and the mail that waits for it: the mailbox is
  emptied first and decoded afterwards, so one letter that does not decode loses them all.
\<close>

definition decode_mail ::
    "(bytes \<Rightarrow> ('n peer_signal, string) result) \<Rightarrow> (string \<times> bytes) list \<Rightarrow> ('n peer_signal list option, network_error) result" where
  "decode_mail de items =
     (if items = [] then Ok None
      else rbind (map_err NetGeneric (rmap de (map snd items))) (\<lambda>signals. Ok (Some signals)))"

definition account_to_network_error :: "account_error \<Rightarrow> network_error" where
  "account_to_network_error e = NetGeneric (into_string e)"

definition register_peer ::
    "'s persistence \<Rightarrow> (bytes \<Rightarrow> ('n peer_signal, string) result) \<Rightarrow> u64 \<Rightarrow> ('s, 'n, 'f) peer_layer \<Rightarrow>
     ('n peer_signal list option, network_error) result \<times> ('s, 'n, 'f) peer_layer" where
  "register_peer pers de cid self =
     (let self' = self\<lparr>message_groups := entry_or_empty cid (message_groups self),
                       observed_postings := entry_or_empty cid (observed_postings self)\<rparr>;
          r = p_drain pers cid 0 MAILBOX (pl_store self)
      in (rbind (map_err account_to_network_error (fst r)) (decode_mail de), self'\<lparr>pl_store := snd r\<rparr>))"

definition on_session_shutdown ::
    "'s persistence \<Rightarrow> u64 \<Rightarrow> ('s, 'n, 'f) peer_layer \<Rightarrow> (unit, network_error) result \<times> ('s, 'n, 'f) peer_layer" where
  "on_session_shutdown pers implicated_cid self =
     (let self' = self\<lparr>message_groups := AList.delete implicated_cid (message_groups self),
                       observed_postings := AList.delete implicated_cid (observed_postings self)\<rparr>;
          r = p_drain pers implicated_cid 0 MAILBOX (pl_store self)
      in (rbind (map_err account_to_network_error (fst r)) (\<lambda>_. Ok ()), self'\<lparr>pl_store := snd r\<rparr>))"

text \<open>\<open>sub_key\<close> is the random identifier of the letter.\<close>

definition try_add_mailbox ::
    "'s persistence \<Rightarrow> ('n peer_signal \<Rightarrow> (bytes, string) result) \<Rightarrow> string \<Rightarrow> u64 \<Rightarrow> 'n peer_signal \<Rightarrow> 's \<Rightarrow>
     (unit, network_error) result \<times> 's" where
  "try_add_mailbox pers ser sub_key target signal store =
     (case ser signal of
        Err e \<Rightarrow> (Err (NetGeneric e), store)
      | Panic \<Rightarrow> (Panic, store)
      | Ok serialized \<Rightarrow>
          let r = p_store pers target 0 MAILBOX sub_key serialized store
          in (rbind (map_err account_to_network_error (fst r)) (\<lambda>_. Ok ()), snd r))"

section \<open>Message groups\<close>

text \<open>\<open>find_group\<close> and \<open>put_group\<close> are the two nested look-ups by the owner and the identifier of a group.\<close>

definition find_group :: "message_group_key \<Rightarrow> groups \<Rightarrow> message_group option" where
  "find_group key gs = Option.bind (map_of gs (mgk_cid key)) (\<lambda>m. map_of m (mgid key))"

definition put_group :: "message_group_key \<Rightarrow> message_group \<Rightarrow> groups \<Rightarrow> groups" where
  "put_group key g gs =
     (case map_of gs (mgk_cid key) of
        None \<Rightarrow> gs
      | Some m \<Rightarrow> AList.update (mgk_cid key) (AList.update (mgid key) g m) gs)"

definition add_peers :: "u64 list \<Rightarrow> (u64 \<times> message_group_peer) list \<Rightarrow> (u64 \<times> message_group_peer) list" where
  "add_peers peers m = fold (\<lambda>peer_cid. AList.update peer_cid \<lparr>mgp_peer_cid = peer_cid\<rparr>) peers m"

text \<open>A client owns at most 256 groups.\<close>

definition create_new_message_group ::
    "u64 \<Rightarrow> u64 list \<Rightarrow> message_group_options \<Rightarrow> groups \<Rightarrow> message_group_key option \<times> groups" where
  "create_new_message_group implicated_cid initial_peers options gs =
     (case map_of gs implicated_cid of
        None \<Rightarrow> (None, gs)
      | Some m \<Rightarrow>
          if length m \<le> 255 \<and> map_of m (mgo_id options) = None
          then (Some \<lparr>mgk_cid = implicated_cid, mgid = mgo_id options\<rparr>,
                AList.update implicated_cid
                  (AList.update (mgo_id options)
                     \<lparr>concurrent_peers = AList.update implicated_cid \<lparr>mgp_peer_cid = implicated_cid\<rparr> [],
                      pending_peers = add_peers initial_peers [],
                      mg_options = options\<rparr> m) gs)
          else (None, gs))"

definition pl_remove_message_group :: "message_group_key \<Rightarrow> groups \<Rightarrow> message_group option \<times> groups" where
  "pl_remove_message_group key gs =
     (case map_of gs (mgk_cid key) of
        None \<Rightarrow> (None, gs)
      | Some m \<Rightarrow> (map_of m (mgid key), AList.update (mgk_cid key) (AList.delete (mgid key) m) gs))"

definition add_pending_peers_to_group :: "message_group_key \<Rightarrow> u64 list \<Rightarrow> groups \<Rightarrow> groups" where
  "add_pending_peers_to_group key peers gs =
     (case find_group key gs of
        None \<Rightarrow> gs
      | Some entry \<Rightarrow> put_group key (entry\<lparr>pending_peers := add_peers peers (pending_peers entry)\<rparr>) gs)"

definition upgrade_peer_in_group :: "message_group_key \<Rightarrow> u64 \<Rightarrow> groups \<Rightarrow> bool \<times> groups" where
  "upgrade_peer_in_group key cid gs =
     (case find_group key gs of
        None \<Rightarrow> (False, gs)
      | Some entry \<Rightarrow>
          (case map_of (pending_peers entry) cid of
             None \<Rightarrow> (False, gs)
           | Some peer \<Rightarrow>
               (True,
                put_group key
                  (entry\<lparr>pending_peers := AList.delete cid (pending_peers entry),
                         concurrent_peers := AList.update cid peer (concurrent_peers entry)\<rparr>) gs)))"

definition message_group_exists :: "message_group_key \<Rightarrow> groups \<Rightarrow> bool" where
  "message_group_exists key gs = (find_group key gs \<noteq> None)"

definition get_peers_in_message_group :: "message_group_key \<Rightarrow> groups \<Rightarrow> u64 list option" where
  "get_peers_in_message_group key gs =
     Option.bind (find_group key gs)
       (\<lambda>g. let peers = map fst (concurrent_peers g) in if peers = [] then None else Some peers)"

text \<open>\<open>retain\<close> with a side effect: a peer stays in the list when its removal from the map removed something.\<close>

fun retain_removed ::
    "u64 list \<Rightarrow> (u64 \<times> message_group_peer) list \<Rightarrow> u64 list \<times> (u64 \<times> message_group_peer) list" where
  "retain_removed [] m = ([], m)"
| "retain_removed (p # ps) m =
     (let r = retain_removed ps (AList.delete p m)
      in (if map_of m p = None then fst r else p # fst r, snd r))"

definition remove_peers_from_message_group ::
    "message_group_key \<Rightarrow> u64 list \<Rightarrow> groups \<Rightarrow> (u64 list \<times> u64 list, unit) result \<times> groups" where
  "remove_peers_from_message_group key peers gs =
     (case find_group key gs of
        None \<Rightarrow> (Err (), gs)
      | Some g \<Rightarrow>
          let r = retain_removed peers (concurrent_peers g)
          in (Ok (fst r, map fst (snd r)), put_group key (g\<lparr>concurrent_peers := snd r\<rparr>) gs))"

definition list_message_groups_for :: "u64 \<Rightarrow> groups \<Rightarrow> message_group_key list option" where
  "list_message_groups_for cid gs = map_option (map (\<lambda>e. \<lparr>mgk_cid = cid, mgid = fst e\<rparr>)) (map_of gs cid)"

definition request_join :: "u64 \<Rightarrow> message_group_key \<Rightarrow> groups \<Rightarrow> bool option \<times> groups" where
  "request_join cid key gs =
     (case find_group key gs of
        None \<Rightarrow> (None, gs)
      | Some g \<Rightarrow>
          if group_type (mg_options g) = Public
          then (Some True,
                put_group key (g\<lparr>concurrent_peers := AList.update cid \<lparr>mgp_peer_cid = cid\<rparr> (concurrent_peers g)\<rparr>) gs)
          else (Some False, gs))"

section \<open>Tracked postings\<close>

definition check_simultaneous_event ::
    "u64 \<Rightarrow> (('n, 'f) tracked_posting \<Rightarrow> bool) \<Rightarrow> ('s, 'n, 'f) peer_layer \<Rightarrow> ticket option" where
  "check_simultaneous_event peer_cid fx self =
     Option.bind (map_of (observed_postings self) peer_cid)
       (\<lambda>peer_map. map_option fst (List.find (\<lambda>e. fx (snd e)) peer_map))"

definition check_simultaneous_register :: "u64 \<Rightarrow> u64 \<Rightarrow> ('s, 'n, 'f) peer_layer \<Rightarrow> ticket option" where
  "check_simultaneous_register implicated_cid peer_cid =
     check_simultaneous_event peer_cid
       (\<lambda>posting. case tp_signal posting of
          PostRegister (HyperLANPeerToHyperLANPeer _ b) _ _ _ None \<Rightarrow> b = implicated_cid
        | _ \<Rightarrow> False)"

definition check_simultaneous_connect :: "u64 \<Rightarrow> u64 \<Rightarrow> ('s, 'n, 'f) peer_layer \<Rightarrow> ticket option" where
  "check_simultaneous_connect implicated_cid peer_cid =
     check_simultaneous_event peer_cid
       (\<lambda>posting. case tp_signal posting of
          PostConnect (HyperLANPeerToHyperLANPeer _ b) _ _ _ _ \<Rightarrow> b = implicated_cid
        | _ \<Rightarrow> False)"

definition check_simulataneous_deregister :: "u64 \<Rightarrow> u64 \<Rightarrow> ('s, 'n, 'f) peer_layer \<Rightarrow> ticket option" where
  "check_simulataneous_deregister implicated_cid peer_cid =
     check_simultaneous_event peer_cid
       (\<lambda>posting. case tp_signal posting of DeregistrationSuccess peer \<Rightarrow> peer = implicated_cid | _ \<Rightarrow> False)"

text \<open>The timer is set before the map of the client is looked up, and stays when there is none.\<close>

definition insert_tracked_posting ::
    "nat \<Rightarrow> u64 \<Rightarrow> ticket \<Rightarrow> 'n peer_signal \<Rightarrow> 'f \<Rightarrow> ('s, 'n, 'f) peer_layer \<Rightarrow> ('s, 'n, 'f) peer_layer" where
  "insert_tracked_posting delay_key implicated_cid ticket signal f self =
     (let self' = self\<lparr>delay_queue := delay_queue self @ [(delay_key, implicated_cid, ticket)]\<rparr>
      in case map_of (observed_postings self) implicated_cid of
           None \<Rightarrow> self'
         | Some m \<Rightarrow>
             self'\<lparr>observed_postings := AList.update implicated_cid
               (AList.update ticket \<lparr>tp_signal = signal, tp_key = delay_key, on_timeout = f\<rparr> m) (observed_postings self)\<rparr>)"

text \<open>Removing a timer the queue does not hold is a panic of the queue.\<close>

definition remove_tracked_posting_inner ::
    "u64 \<Rightarrow> ticket \<Rightarrow> ('s, 'n, 'f) peer_layer \<Rightarrow> ('n peer_signal option, unit) result \<times> ('s, 'n, 'f) peer_layer" where
  "remove_tracked_posting_inner implicated_cid ticket self =
     (case map_of (observed_postings self) implicated_cid of
        None \<Rightarrow> (Ok None, self)
      | Some active_postings \<Rightarrow>
          (case map_of active_postings ticket of
             None \<Rightarrow> (Ok None, self)
           | Some active_posting \<Rightarrow>
               let self' = self\<lparr>observed_postings :=
                     AList.update implicated_cid (AList.delete ticket active_postings) (observed_postings self)\<rparr>
               in if map_of (delay_queue self) (tp_key active_posting) = None then (Panic, self')
                  else (Ok (Some (tp_signal active_posting)),
                        self'\<lparr>delay_queue := AList.delete (tp_key active_posting) (delay_queue self)\<rparr>)))"

text \<open>
  One turn of the executor: the queue gives back the entries that are due, \<open>due\<close> in this order; the closure of a
  posting still waiting under that client and ticket runs with its signal.
\<close>

fun poll_purge ::
    "nat list \<Rightarrow> ('s, 'n, 'f) peer_layer \<Rightarrow> ('f \<times> 'n peer_signal) list \<times> ('s, 'n, 'f) peer_layer" where
  "poll_purge [] self = ([], self)"
| "poll_purge (k # due) self =
     (case map_of (delay_queue self) k of
        None \<Rightarrow> poll_purge due self
      | Some (implicated_cid, ticket) \<Rightarrow>
          let self' = self\<lparr>delay_queue := AList.delete k (delay_queue self)\<rparr>
          in case map_of (observed_postings self) implicated_cid of
               None \<Rightarrow> poll_purge due self'
             | Some active_postings \<Rightarrow>
                 (case map_of active_postings ticket of
                    None \<Rightarrow> poll_purge due self'
                  | Some posting \<Rightarrow>
                      let r = poll_purge due (self'\<lparr>observed_postings :=
                            AList.update implicated_cid (AList.delete ticket active_postings) (observed_postings self)\<rparr>)
                      in ((on_timeout posting, tp_signal posting) # fst r, snd r)))"

section \<open>Members of a group have consented\<close>

text \<open>
  The operations that touch the groups as events, so that membership can be traced back in the history.
\<close>

datatype group_op =
    OpConnect u64
  | OpShutdown u64
  | OpCreate u64 "u64 list" message_group_options
  | OpRemove message_group_key
  | OpInvite message_group_key "u64 list"
  | OpAccept message_group_key u64
  | OpLeave message_group_key "u64 list"
  | OpJoin u64 message_group_key

fun group_step :: "group_op \<Rightarrow> groups \<Rightarrow> groups" where
  "group_step (OpConnect cid) gs = entry_or_empty cid gs"
| "group_step (OpShutdown cid) gs = AList.delete cid gs"
| "group_step (OpCreate cid peers options) gs = snd (create_new_message_group cid peers options gs)"
| "group_step (OpRemove key) gs = snd (pl_remove_message_group key gs)"
| "group_step (OpInvite key peers) gs = add_pending_peers_to_group key peers gs"
| "group_step (OpAccept key cid) gs = snd (upgrade_peer_in_group key cid gs)"
| "group_step (OpLeave key peers) gs = snd (remove_peers_from_message_group key peers gs)"
| "group_step (OpJoin cid key) gs = snd (request_join cid key gs)"

definition group_run :: "group_op list \<Rightarrow> groups" where
  "group_run ops = fold group_step ops []"

lemma group_run_snoc [simp]: "group_run (ops @ [e]) = group_step e (group_run ops)"
  by (simp add: group_run_def)

lemma group_run_Nil [simp]: "group_run [] = []"
  by (simp add: group_run_def)

text \<open>
  Within one life of a group, which starts with \<open>OpCreate\<close> and the invitations \<open>ps\<close>: who was invited, and who entered
  by accepting an invitation or by joining a public group and was not removed since.
\<close>

definition invited :: "message_group_key \<Rightarrow> u64 list \<Rightarrow> group_op list \<Rightarrow> u64 \<Rightarrow> bool" where
  "invited key ps hist p \<longleftrightarrow> p \<in> set ps \<or> (\<exists>qs. OpInvite key qs \<in> set hist \<and> p \<in> set qs)"

definition entered :: "message_group_key \<Rightarrow> message_group_options \<Rightarrow> u64 list \<Rightarrow> group_op list \<Rightarrow> u64 \<Rightarrow> bool" where
  "entered key options ps hist p \<longleftrightarrow>
     (\<exists>before e after. hist = before @ e # after \<and>
        (e = OpAccept key p \<and> invited key ps before p \<or> e = OpJoin p key \<and> group_type options = Public) \<and>
        (\<forall>qs. OpLeave key qs \<in> set after \<longrightarrow> p \<notin> set qs))"

definition alive :: "message_group_key \<Rightarrow> group_op list \<Rightarrow> bool" where
  "alive key hist \<longleftrightarrow> OpRemove key \<notin> set hist \<and> OpShutdown (mgk_cid key) \<notin> set hist"

lemma invited_snoc: "invited key ps (hist @ [e]) p \<longleftrightarrow> invited key ps hist p \<or> (\<exists>qs. e = OpInvite key qs \<and> p \<in> set qs)"
  by (auto simp: invited_def)

lemma entered_snoc:
  assumes "entered key options ps hist p" "\<forall>qs. e = OpLeave key qs \<longrightarrow> p \<notin> set qs"
  shows "entered key options ps (hist @ [e]) p"
proof -
  from assms(1) obtain before e' after where "hist = before @ e' # after"
      "e' = OpAccept key p \<and> invited key ps before p \<or> e' = OpJoin p key \<and> group_type options = Public"
      "\<forall>qs. OpLeave key qs \<in> set after \<longrightarrow> p \<notin> set qs"
    by (auto simp: entered_def)
  with assms(2) show ?thesis
    unfolding entered_def by (intro exI [of _ before] exI [of _ e'] exI [of _ "after @ [e]"]) auto
qed

lemma entered_accept: "invited key ps hist p \<Longrightarrow> entered key options ps (hist @ [OpAccept key p]) p"
  unfolding entered_def by (intro exI [of _ hist] exI [of _ "OpAccept key p"] exI [of _ "[]"]) simp

lemma entered_join: "group_type options = Public \<Longrightarrow> entered key options ps (hist @ [OpJoin p key]) p"
  unfolding entered_def by (intro exI [of _ hist] exI [of _ "OpJoin p key"] exI [of _ "[]"]) simp

definition invitees :: "message_group \<Rightarrow> u64 set" where
  "invitees g = fst ` set (pending_peers g)"

definition members :: "message_group \<Rightarrow> u64 set" where
  "members g = fst ` set (concurrent_peers g)"

definition rightful :: "message_group_key \<Rightarrow> message_group \<Rightarrow> u64 list \<Rightarrow> group_op list \<Rightarrow> bool" where
  "rightful key g ps hist \<longleftrightarrow>
     alive key hist \<and>
     (\<forall>p \<in> invitees g. invited key ps hist p) \<and>
     (\<forall>p \<in> members g. p = mgk_cid key \<or> entered key (mg_options g) ps hist p)"

definition traced :: "group_op list \<Rightarrow> groups \<Rightarrow> bool" where
  "traced ops gs \<longleftrightarrow>
     (\<forall>key g. find_group key gs = Some g \<longrightarrow>
        (\<exists>before ps hist. ops = before @ OpCreate (mgk_cid key) ps (mg_options g) # hist \<and>
            mgo_id (mg_options g) = mgid key \<and> rightful key g ps hist))"

text \<open>What each operation does to a group, seen through the look-up.\<close>

lemma find_group_put:
  "find_group key gs = Some g \<Longrightarrow> find_group key' (put_group key g' gs) = (if key' = key then Some g' else find_group key' gs)"
  by (cases key; cases key') (auto simp: find_group_def put_group_def update_conv' split: option.splits bind_splits)

lemma find_group_connect: "find_group key (entry_or_empty cid gs) = find_group key gs"
  by (simp add: find_group_def entry_or_empty_def update_conv')

lemma find_group_shutdown:
  "find_group key (AList.delete cid gs) = (if mgk_cid key = cid then None else find_group key gs)"
  by (simp add: find_group_def delete_conv' restrict_map_def)

lemma find_group_remove:
  "find_group key' (snd (pl_remove_message_group key gs)) = (if key' = key then None else find_group key' gs)"
  by (cases key; cases key')
     (auto simp: find_group_def pl_remove_message_group_def update_conv' delete_conv' restrict_map_def split: option.splits)

lemma fst_set_update: "fst ` set (AList.update k v m) = insert k (fst ` set m)"
  by (simp add: dom_update)

lemma fst_set_delete: "fst ` set (AList.delete k m) = fst ` set m - {k}"
  by (auto simp: AList.delete_eq image_iff)

lemma fst_set_add_peers: "fst ` set (add_peers peers m) = set peers \<union> fst ` set m"
  by (induction peers arbitrary: m) (auto simp: add_peers_def dom_update image_iff)

lemma fst_set_retain_removed: "fst ` set (snd (retain_removed peers m)) = fst ` set m - set peers"
  by (induction peers arbitrary: m) (auto simp: Let_def AList.delete_eq image_iff)

lemma find_group_create:
  assumes "find_group key (snd (create_new_message_group cid peers options gs)) = Some g"
  shows "find_group key gs = Some g \<or>
    mgk_cid key = cid \<and> mgid key = mgo_id options \<and> mg_options g = options \<and>
    invitees g = set peers \<and> members g = {cid}"
  using assms
  by (cases "mgid key = mgo_id options \<and> mgk_cid key = cid")
     (clarsimp simp: invitees_def members_def find_group_def create_new_message_group_def update_conv' fst_set_add_peers split: option.splits if_splits)+

lemma rightful_step:
  assumes "rightful key g ps hist" "mg_options g' = mg_options g"
    and "e \<noteq> OpRemove key" "e \<noteq> OpShutdown (mgk_cid key)"
    and pending: "\<forall>p \<in> invitees g'. p \<in> invitees g \<or> (\<exists>qs. e = OpInvite key qs \<and> p \<in> set qs)"
    and concurrent: "\<forall>p \<in> members g'.
      p \<in> members g \<and> (\<forall>qs. e = OpLeave key qs \<longrightarrow> p \<notin> set qs) \<or>
      e = OpAccept key p \<and> p \<in> invitees g \<or>
      e = OpJoin p key \<and> group_type (mg_options g) = Public"
  shows "rightful key g' ps (hist @ [e])"
proof -
  have old: "alive key hist" "\<forall>p \<in> invitees g. invited key ps hist p"
    "\<forall>p \<in> members g. p = mgk_cid key \<or> entered key (mg_options g) ps hist p"
    using assms(1) by (auto simp: rightful_def)
  have "alive key (hist @ [e])" using old(1) assms(3,4) by (auto simp: alive_def)
  moreover have "\<forall>p \<in> invitees g'. invited key ps (hist @ [e]) p"
    using pending old(2) by (auto simp: invited_snoc)
  moreover have "\<forall>p \<in> members g'. p = mgk_cid key \<or> entered key (mg_options g') ps (hist @ [e]) p"
  proof
    fix p assume "p \<in> members g'"
    then consider "p \<in> members g" "\<forall>qs. e = OpLeave key qs \<longrightarrow> p \<notin> set qs"
      | "e = OpAccept key p" "p \<in> invitees g"
      | "e = OpJoin p key" "group_type (mg_options g) = Public"
      using concurrent by blast
    then show "p = mgk_cid key \<or> entered key (mg_options g') ps (hist @ [e]) p"
    proof cases
      case 1
      then show ?thesis using old(3) assms(2) by (auto intro: entered_snoc)
    next
      case 2
      then show ?thesis using old(2) by (auto intro: entered_accept)
    next
      case 3
      then show ?thesis using assms(2) by (auto intro: entered_join)
    qed
  qed
  ultimately show ?thesis by (simp add: rightful_def)
qed

text \<open>A group after an operation is either new or the successor of a group before it.\<close>

definition successor :: "group_op \<Rightarrow> message_group_key \<Rightarrow> message_group \<Rightarrow> message_group \<Rightarrow> bool" where
  "successor e key g g' \<longleftrightarrow>
     mg_options g' = mg_options g \<and> e \<noteq> OpRemove key \<and> e \<noteq> OpShutdown (mgk_cid key) \<and>
     (\<forall>p \<in> invitees g'. p \<in> invitees g \<or> (\<exists>qs. e = OpInvite key qs \<and> p \<in> set qs)) \<and>
     (\<forall>p \<in> members g'.
        p \<in> members g \<and> (\<forall>qs. e = OpLeave key qs \<longrightarrow> p \<notin> set qs) \<or>
        e = OpAccept key p \<and> p \<in> invitees g \<or>
        e = OpJoin p key \<and> group_type (mg_options g) = Public)"

definition newborn :: "group_op \<Rightarrow> message_group_key \<Rightarrow> message_group \<Rightarrow> bool" where
  "newborn e key g \<longleftrightarrow>
     (\<exists>peers. e = OpCreate (mgk_cid key) peers (mg_options g) \<and> mgid key = mgo_id (mg_options g) \<and>
        invitees g = set peers \<and> members g = {mgk_cid key})"

lemma successor_refl:
  "e \<noteq> OpRemove key \<Longrightarrow> e \<noteq> OpShutdown (mgk_cid key) \<Longrightarrow>
   (\<forall>qs. e = OpLeave key qs \<longrightarrow> members g \<inter> set qs = {}) \<Longrightarrow> successor e key g g"
  by (auto simp: successor_def)

lemma invitees_simps [simp]:
  "invitees (g\<lparr>pending_peers := add_peers peers m\<rparr>) = set peers \<union> fst ` set m"
  "invitees (g\<lparr>pending_peers := AList.delete cid (pending_peers g), concurrent_peers := c\<rparr>) = invitees g - {cid}"
  "invitees (g\<lparr>pending_peers := AList.delete cid (pending_peers g)\<rparr>) = invitees g - {cid}"
  "invitees (g\<lparr>concurrent_peers := c\<rparr>) = invitees g"
  by (simp_all add: invitees_def fst_set_add_peers fst_set_delete)

lemma members_simps [simp]:
  "members (g\<lparr>pending_peers := m\<rparr>) = members g"
  "members (g\<lparr>pending_peers := m, concurrent_peers := AList.update cid p (concurrent_peers g)\<rparr>) = insert cid (members g)"
  "members (g\<lparr>concurrent_peers := AList.update cid p (concurrent_peers g)\<rparr>) = insert cid (members g)"
  "members (g\<lparr>concurrent_peers := snd (retain_removed peers (concurrent_peers g))\<rparr>) = members g - set peers"
  by (simp_all add: members_def fst_set_update fst_set_retain_removed)

lemma invitees_map_of: "map_of (pending_peers g) cid = Some p \<Longrightarrow> cid \<in> invitees g"
  by (force simp: invitees_def dest: map_of_SomeD)

lemma tracedD:
  "traced ops gs \<Longrightarrow> find_group key gs = Some g \<Longrightarrow>
   \<exists>before ps hist. ops = before @ OpCreate (mgk_cid key) ps (mg_options g) # hist \<and>
     mgo_id (mg_options g) = mgid key \<and> rightful key g ps hist"
  by (simp add: traced_def)

lemma group_step_origin:
  assumes "find_group key (group_step e gs) = Some g'"
  shows "newborn e key g' \<or> (\<exists>g. find_group key gs = Some g \<and> successor e key g g')"
proof (cases e)
  case (OpConnect cid)
  with assms show ?thesis by (auto simp: find_group_connect intro: successor_refl)
next
  case (OpShutdown cid)
  with assms show ?thesis by (auto simp: find_group_shutdown intro: successor_refl split: if_splits)
next
  case (OpCreate cid peers options)
  with assms find_group_create [of key cid peers options gs g'] show ?thesis
    by (auto simp: newborn_def intro: successor_refl)
next
  case (OpRemove k)
  with assms show ?thesis by (auto simp: find_group_remove intro: successor_refl split: if_splits)
next
  case (OpInvite k peers)
  with assms show ?thesis
    by (auto simp: add_pending_peers_to_group_def find_group_put successor_def invitees_def [symmetric] intro: successor_refl
        split: option.splits if_splits)
next
  case (OpAccept k cid)
  with assms show ?thesis
    by (auto simp: upgrade_peer_in_group_def find_group_put successor_def
        intro: successor_refl dest: invitees_map_of split: option.splits if_splits)
next
  case (OpLeave k peers)
  with assms show ?thesis
    by (auto simp: remove_peers_from_message_group_def Let_def find_group_put successor_def
        intro: successor_refl split: option.splits if_splits)
next
  case (OpJoin cid k)
  with assms show ?thesis
    by (auto simp: request_join_def find_group_put successor_def intro: successor_refl
        split: option.splits if_splits)
qed

lemma traced_run: "traced ops (group_run ops)"
proof (induction ops rule: rev_induct)
  case Nil
  show ?case by (simp add: traced_def find_group_def)
next
  case (snoc e ops)
  show ?case unfolding traced_def
  proof (intro allI impI)
    fix key g'
    assume "find_group key (group_run (ops @ [e])) = Some g'"
    then consider (new) "newborn e key g'"
      | (old) g where "find_group key (group_run ops) = Some g" "successor e key g g'"
      using group_step_origin [of key e "group_run ops" g'] by auto
    then show "\<exists>before ps hist. ops @ [e] = before @ OpCreate (mgk_cid key) ps (mg_options g') # hist \<and>
        mgo_id (mg_options g') = mgid key \<and> rightful key g' ps hist"
    proof cases
      case new
      then obtain peers where "e = OpCreate (mgk_cid key) peers (mg_options g')"
          "mgid key = mgo_id (mg_options g')" "invitees g' = set peers"
          "members g' = {mgk_cid key}"
        by (auto simp: newborn_def)
      then show ?thesis
        by (intro exI [of _ ops] exI [of _ peers] exI [of _ "[]"]) (simp add: rightful_def alive_def invited_def)
    next
      case (old g)
      then obtain before ps hist where "ops = before @ OpCreate (mgk_cid key) ps (mg_options g) # hist"
          "mgo_id (mg_options g) = mgid key" "rightful key g ps hist"
        using tracedD [OF snoc] by blast
      moreover have "rightful key g' ps (hist @ [e])"
        using \<open>rightful key g ps hist\<close> old(2) by (intro rightful_step [of key g]) (simp_all add: successor_def)
      ultimately show ?thesis
        using old(2) by (intro exI [of _ before] exI [of _ ps] exI [of _ "hist @ [e]"]) (simp add: successor_def)
    qed
  qed
qed

text \<open>
  C6: Whoever a group lists as a member has consented in the present life of the group: after every sequence of
  connections, shutdowns, creations, removals, invitations, acceptances, departures and requests to join, the group
  was created by its owner, has not been ended since, and every member other than the owner accepted an invitation
  it had received, or asked to join a public group, and has not been removed since.
\<close>

theorem group_members_consented:
  assumes "find_group key (group_run ops) = Some g"
  shows "\<exists>before ps hist. ops = before @ OpCreate (mgk_cid key) ps (mg_options g) # hist \<and>
      mgo_id (mg_options g) = mgid key \<and> alive key hist \<and>
      (\<forall>peers. get_peers_in_message_group key (group_run ops) = Some peers \<longrightarrow>
         (\<forall>p \<in> set peers. p = mgk_cid key \<or> entered key (mg_options g) ps hist p))"
proof -
  from tracedD [OF traced_run assms] obtain before ps hist
    where "ops = before @ OpCreate (mgk_cid key) ps (mg_options g) # hist"
      "mgo_id (mg_options g) = mgid key" "rightful key g ps hist"
    by blast
  moreover have "get_peers_in_message_group key (group_run ops) = Some peers \<Longrightarrow> set peers = members g"
    for peers
    using assms by (clarsimp simp: get_peers_in_message_group_def Let_def members_def split: if_splits)
  ultimately show ?thesis
    by (intro exI [of _ before] exI [of _ ps] exI [of _ hist]) (auto simp: rightful_def)
qed

definition demo_group_ops :: "group_op list" where
  "demo_group_ops =
     [OpConnect 1, OpConnect 2, OpConnect 3, OpCreate 1 [2, 3] \<lparr>group_type = Private, mgo_id = 7\<rparr>,
      OpAccept \<lparr>mgk_cid = 1, mgid = 7\<rparr> 2, OpAccept \<lparr>mgk_cid = 1, mgid = 7\<rparr> 4, OpJoin 5 \<lparr>mgk_cid = 1, mgid = 7\<rparr>]"

lemmas group_op_defs = create_new_message_group_def add_peers_def upgrade_peer_in_group_def find_group_def
  put_group_def request_join_def entry_or_empty_def pl_remove_message_group_def add_pending_peers_to_group_def
  remove_peers_from_message_group_def

lemma demo_group_run:
  "group_run demo_group_ops =
     [(1, [(7, \<lparr>concurrent_peers = [(1, \<lparr>mgp_peer_cid = 1\<rparr>), (2, \<lparr>mgp_peer_cid = 2\<rparr>)],
                pending_peers = [(3, \<lparr>mgp_peer_cid = 3\<rparr>)],
                mg_options = \<lparr>group_type = Private, mgo_id = 7\<rparr>\<rparr>)]), (2, []), (3, [])]"
  by (simp add: group_run_def demo_group_ops_def group_op_defs)

theorem group_members_consented_witness:
  "get_peers_in_message_group \<lparr>mgk_cid = 1, mgid = 7\<rparr> (group_run demo_group_ops) = Some [1, 2] \<and>
   (\<exists>before ps hist. demo_group_ops = before @ OpCreate 1 ps \<lparr>group_type = Private, mgo_id = 7\<rparr> # hist \<and>
      entered \<lparr>mgk_cid = 1, mgid = 7\<rparr> \<lparr>group_type = Private, mgo_id = 7\<rparr> ps hist 2)"
proof -
  let ?key = "\<lparr>mgk_cid = 1, mgid = 7\<rparr>"
  have peers: "get_peers_in_message_group ?key (group_run demo_group_ops) = Some [1, 2]"
    by (simp add: demo_group_run get_peers_in_message_group_def find_group_def)
  obtain g where g: "find_group ?key (group_run demo_group_ops) = Some g"
      "mg_options g = \<lparr>group_type = Private, mgo_id = 7\<rparr>"
    by (simp add: demo_group_run find_group_def)
  from group_members_consented [OF g(1)] g(2) peers show ?thesis by auto
qed

section \<open>Postings end once\<close>

definition posting :: "u64 \<Rightarrow> ticket \<Rightarrow> ('s, 'n, 'f) peer_layer \<Rightarrow> ('n, 'f) tracked_posting option" where
  "posting cid t self = Option.bind (map_of (observed_postings self) cid) (\<lambda>m. map_of m t)"

text \<open>Every posting has its timer in the queue.\<close>

definition timed :: "('s, 'n, 'f) peer_layer \<Rightarrow> bool" where
  "timed self \<longleftrightarrow>
     (\<forall>cid t p. posting cid t self = Some p \<longrightarrow> map_of (delay_queue self) (tp_key p) = Some (cid, t))"

lemma timedD: "timed self \<Longrightarrow> posting cid t self = Some p \<Longrightarrow> map_of (delay_queue self) (tp_key p) = Some (cid, t)"
  by (simp add: timed_def)

lemma posting_shrinks_timed:
  assumes "timed self" "\<And>cid t p. posting cid t self' = Some p \<Longrightarrow> posting cid t self = Some p"
    and "delay_queue self' = delay_queue self"
  shows "timed self'"
  using assms by (simp add: timed_def)

lemma posting_update [simp]:
  "posting c x (self\<lparr>observed_postings := AList.update cid m (observed_postings self')\<rparr>) =
     (if c = cid then map_of m x else posting c x self')"
  by (simp add: posting_def update_conv')

lemma posting_at: "map_of (observed_postings self) cid = Some m \<Longrightarrow> map_of m t = posting cid t self"
  by (simp add: posting_def)

lemma posting_queue [simp]: "posting c x (self\<lparr>delay_queue := q\<rparr>) = posting c x self"
  by (simp add: posting_def)

lemma timed_drop:
  assumes "timed self" "map_of (observed_postings self) cid = Some m" "map_of (delay_queue self) k = Some (cid, t)"
  shows "timed (self\<lparr>delay_queue := AList.delete k (delay_queue self),
                     observed_postings := AList.update cid (AList.delete t m) (observed_postings self)\<rparr>)"
proof -
  have "tp_key p \<noteq> k" if "posting c x self = Some p" "\<not> (c = cid \<and> x = t)" for c x p
    using timedD [OF assms(1) that(1)] assms(3) that(2) by auto
  then show ?thesis using assms(1,2)
    by (simp add: timed_def posting_at delete_conv' restrict_map_def)
qed

text \<open>A timer without a posting may go.\<close>

lemma timed_drop_timer:
  assumes "timed self" "map_of (delay_queue self) k = Some (cid, t)" "posting cid t self = None"
  shows "timed (self\<lparr>delay_queue := AList.delete k (delay_queue self)\<rparr>)"
proof -
  have "tp_key p \<noteq> k" if "posting c x self = Some p" for c x p
    using timedD [OF assms(1) that] assms(2,3) that by auto
  then show ?thesis using assms(1) by (simp add: timed_def delete_conv' restrict_map_def)
qed

lemma timed_insert:
  assumes "timed self" "map_of (delay_queue self) k = None"
  shows "timed (insert_tracked_posting k cid t signal f self)"
proof -
  have "map_of (delay_queue self) (tp_key p) = Some (c, x) \<Longrightarrow> tp_key p \<noteq> k" for c x and p :: "('a, 'b) tracked_posting"
    using assms(2) by auto
  then show ?thesis using assms
    by (auto simp: timed_def insert_tracked_posting_def Let_def posting_at update_conv' map_add_def split: option.split)
qed

lemma remove_tracked_posting_cases:
  assumes "timed self"
  shows "remove_tracked_posting_inner cid t self =
    (case posting cid t self of
       None \<Rightarrow> (Ok None, self)
     | Some p \<Rightarrow>
         (Ok (Some (tp_signal p)),
          self\<lparr>delay_queue := AList.delete (tp_key p) (delay_queue self),
               observed_postings := AList.update cid (AList.delete t (the (map_of (observed_postings self) cid)))
                 (observed_postings self)\<rparr>))"
  using timedD [OF assms, of cid t]
  by (auto simp: remove_tracked_posting_inner_def posting_def Let_def split: option.split)

lemma timed_remove: "timed self \<Longrightarrow> timed (snd (remove_tracked_posting_inner cid t self))"
  by (auto simp: remove_tracked_posting_cases posting_def split: option.split bind_split
      intro!: timed_drop dest: timedD [unfolded posting_def, of self cid t, simplified])

lemma poll_purge_Cons:
  "poll_purge (k # due) self =
     (case map_of (delay_queue self) k of
        None \<Rightarrow> poll_purge due self
      | Some (cid, t) \<Rightarrow>
          (case posting cid t self of
             None \<Rightarrow> poll_purge due (self\<lparr>delay_queue := AList.delete k (delay_queue self)\<rparr>)
           | Some p \<Rightarrow>
               apfst ((#) (on_timeout p, tp_signal p))
                 (poll_purge due (self\<lparr>delay_queue := AList.delete k (delay_queue self),
                    observed_postings := AList.update cid (AList.delete t (the (map_of (observed_postings self) cid)))
                      (observed_postings self)\<rparr>))))"
  by (auto simp: posting_def Let_def apfst_def map_prod_def split: option.split prod.split)

declare poll_purge.simps(2) [simp del]

lemma posting_Some_map: "posting cid t self = Some p \<Longrightarrow> map_of (observed_postings self) cid = Some (the (map_of (observed_postings self) cid))"
  by (auto simp: posting_def split: bind_splits)

lemma timed_poll_purge: "timed self \<Longrightarrow> timed (snd (poll_purge due self))"
proof (induction due arbitrary: self)
  case (Cons k due)
  then show ?case
    by (auto simp: poll_purge_Cons split: option.split
        intro!: Cons.IH timed_drop timed_drop_timer dest: posting_Some_map)
qed simp

lemma poll_purge_runs:
  "set (fst (poll_purge due self)) \<subseteq> {(on_timeout p, tp_signal p) | c x p. posting c x self = Some p}"
proof (induction due arbitrary: self)
  case (Cons k due)
  show ?case
  proof (cases "map_of (delay_queue self) k")
    case (Some e)
    obtain cid t where e: "e = (cid, t)" by fastforce
    show ?thesis
    proof (cases "posting cid t self")
      case None
      then show ?thesis
        using Some e Cons.IH [of "self\<lparr>delay_queue := AList.delete k (delay_queue self)\<rparr>"] by (simp add: poll_purge_Cons)
    next
      case (Some p)
      let ?s = "self\<lparr>delay_queue := AList.delete k (delay_queue self),
          observed_postings := AList.update cid (AList.delete t (the (map_of (observed_postings self) cid)))
            (observed_postings self)\<rparr>"
      have "posting c x ?s = Some q \<Longrightarrow> posting c x self = Some q" for c x q
        using posting_Some_map [OF Some] by (auto simp: posting_at delete_conv' restrict_map_def split: if_splits)
      then have "set (fst (poll_purge due ?s)) \<subseteq> {(on_timeout p, tp_signal p) | c x p. posting c x self = Some p}"
        using Cons.IH [of ?s] by blast
      then show ?thesis using Some \<open>map_of (delay_queue self) k = Some e\<close> e by (auto simp: poll_purge_Cons)
    qed
  qed (use Cons.IH in \<open>simp add: poll_purge_Cons\<close>)
qed simp

lemma poll_purge_absent: "posting c x self = None \<Longrightarrow> posting c x (snd (poll_purge due self)) = None"
proof (induction due arbitrary: self)
  case (Cons k due)
  then show ?case
    by (auto simp: poll_purge_Cons delete_conv' restrict_map_def posting_at [OF posting_Some_map] split: option.split
        intro!: Cons.IH)
qed simp

lemma poll_purge_due:
  assumes "timed self" "posting c x self = Some p" "tp_key p \<in> set due"
  shows "(on_timeout p, tp_signal p) \<in> set (fst (poll_purge due self)) \<and> posting c x (snd (poll_purge due self)) = None"
  using assms
proof (induction due arbitrary: self)
  case (Cons k due)
  have key: "map_of (delay_queue self) (tp_key p) = Some (c, x)" by (rule timedD [OF Cons.prems(1,2)])
  show ?case
  proof (cases "map_of (delay_queue self) k")
    case None
    with key have "k \<noteq> tp_key p" by auto
    with None Cons.prems show ?thesis by (simp add: poll_purge_Cons Cons.IH)
  next
    case (Some e)
    obtain cid t where e: "e = (cid, t)" by fastforce
    let ?q = "self\<lparr>delay_queue := AList.delete k (delay_queue self)\<rparr>"
    let ?s = "?q\<lparr>observed_postings := AList.update cid (AList.delete t (the (map_of (observed_postings self) cid)))
            (observed_postings self)\<rparr>"
    consider (same) "cid = c" "t = x" | (gone) "posting cid t self = None"
      | (other) q where "\<not> (cid = c \<and> t = x)" "posting cid t self = Some q" by (cases "posting cid t self") auto
    then show ?thesis
    proof cases
      case same
      then show ?thesis using Some e Cons.prems(2)
        by (auto simp: poll_purge_Cons delete_conv' intro!: poll_purge_absent)
    next
      case gone
      then have "k \<noteq> tp_key p" using Some e key Cons.prems(2) by auto
      then show ?thesis
        using gone Some e Cons.prems Cons.IH [of ?q] timed_drop_timer [OF Cons.prems(1)] by (simp add: poll_purge_Cons)
    next
      case (other q)
      have "k \<noteq> tp_key p" using other(1) Some e key by auto
      moreover have "timed ?s" using Some e by (intro timed_drop [OF Cons.prems(1) posting_Some_map [OF other(2)]]) simp
      moreover have "posting c x ?s = Some p"
        using other Cons.prems(2) posting_at [OF posting_Some_map [OF other(2)], of x] by (auto simp: delete_conv' restrict_map_def)
      ultimately show ?thesis using other Some e Cons.prems(3) Cons.IH [of ?s] by (simp add: poll_purge_Cons)
    qed
  qed
qed simp

text \<open>
  The states of the layer on a server. The store and the groups may change in any way in between; a new timer gets a
  key that is not in use.
\<close>

inductive layer_reach ::
    "'s persistence \<Rightarrow> (bytes \<Rightarrow> ('n peer_signal, string) result) \<Rightarrow> ('s, 'n, 'f) peer_layer \<Rightarrow> bool"
  for pers de where
  start: "layer_reach pers de (peer_layer_new s)"
| connected: "layer_reach pers de self \<Longrightarrow> register_peer pers de cid self = (r, self') \<Longrightarrow> layer_reach pers de self'"
| shutdown: "layer_reach pers de self \<Longrightarrow> on_session_shutdown pers cid self = (u, self') \<Longrightarrow> layer_reach pers de self'"
| grouped: "layer_reach pers de self \<Longrightarrow> layer_reach pers de (self\<lparr>message_groups := gs\<rparr>)"
| stored: "layer_reach pers de self \<Longrightarrow> layer_reach pers de (self\<lparr>pl_store := s\<rparr>)"
| posted: "layer_reach pers de self \<Longrightarrow> map_of (delay_queue self) k = None \<Longrightarrow>
    layer_reach pers de (insert_tracked_posting k cid t signal f self)"
| answered: "layer_reach pers de self \<Longrightarrow> remove_tracked_posting_inner cid t self = (a, self') \<Longrightarrow> layer_reach pers de self'"
| purged: "layer_reach pers de self \<Longrightarrow> poll_purge due self = (fs, self') \<Longrightarrow> layer_reach pers de self'"

lemma layer_reach_timed: "layer_reach pers de self \<Longrightarrow> timed self"
proof (induction rule: layer_reach.induct)
  case (start s)
  show ?case by (simp add: timed_def posting_def peer_layer_new_def)
next
  case (connected self cid r self')
  then show ?case
    by (auto simp: register_peer_def Let_def timed_def posting_def entry_or_empty_def update_conv' split: if_splits)
next
  case (shutdown self cid u self')
  then show ?case
    by (auto simp: on_session_shutdown_def Let_def timed_def posting_def delete_conv' restrict_map_def split: if_splits)
next
  case (answered self cid t a self')
  then show ?case using timed_remove [of self cid t] by simp
next
  case (purged self due fs self')
  then show ?case using timed_poll_purge [of self due] by simp
qed (simp_all add: timed_insert, simp_all add: timed_def posting_def)

lemma posting_removed:
  assumes "timed self"
  shows "posting c x (snd (remove_tracked_posting_inner cid t self)) =
    (if c = cid \<and> x = t then None else posting c x self)"
proof (cases "posting cid t self")
  case None
  then show ?thesis by (auto simp: remove_tracked_posting_cases [OF assms])
next
  case (Some p)
  then show ?thesis using posting_at [OF posting_Some_map [OF Some]]
    by (simp add: remove_tracked_posting_cases [OF assms] delete_conv' restrict_map_def)
qed

text \<open>
  C8: A request that waits for the answer of a peer ends exactly once. In every state the layer reaches, taking a
  posting out never panics in the timer queue and returns its signal if it was there; from then on, whatever timers
  fall due, only the closures of other postings run. If instead the timer of the posting is among those that fall
  due, its closure runs with its signal and the posting is gone.
\<close>

theorem postings_end_once:
  assumes "layer_reach pers de self"
  shows "fst (remove_tracked_posting_inner cid t self) = Ok (map_option tp_signal (posting cid t self)) \<and>
    posting cid t (snd (remove_tracked_posting_inner cid t self)) = None \<and>
    (\<forall>due. set (fst (poll_purge due (snd (remove_tracked_posting_inner cid t self)))) \<subseteq>
       {(on_timeout p, tp_signal p) | c x p. (c, x) \<noteq> (cid, t) \<and> posting c x self = Some p}) \<and>
    (\<forall>p due. posting cid t self = Some p \<longrightarrow> tp_key p \<in> set due \<longrightarrow>
       (on_timeout p, tp_signal p) \<in> set (fst (poll_purge due self)) \<and>
       posting cid t (snd (poll_purge due self)) = None)"
proof -
  have ok: "timed self" by (rule layer_reach_timed [OF assms])
  let ?s = "snd (remove_tracked_posting_inner cid t self)"
  have "fst (remove_tracked_posting_inner cid t self) = Ok (map_option tp_signal (posting cid t self))"
    by (simp add: remove_tracked_posting_cases [OF ok] split: option.split)
  moreover have "set (fst (poll_purge due ?s)) \<subseteq>
       {(on_timeout p, tp_signal p) | c x p. (c, x) \<noteq> (cid, t) \<and> posting c x self = Some p}" for due
  proof -
    have "{(on_timeout p, tp_signal p) | c x p. posting c x ?s = Some p} \<subseteq>
        {(on_timeout p, tp_signal p) | c x p. (c, x) \<noteq> (cid, t) \<and> posting c x self = Some p}"
      by (auto simp: posting_removed [OF ok] split: if_splits)
    then show ?thesis using poll_purge_runs [of due ?s] by (rule subset_trans [rotated])
  qed
  ultimately show ?thesis using poll_purge_due [OF ok] by (simp add: posting_removed [OF ok])
qed

text \<open>Alice asks Bob for a connection twice; the second request is answered, the first one times out.\<close>

definition demo_layer :: "(backend, unit, string) peer_layer" where
  "demo_layer =
     insert_tracked_posting 1 1 11 (SignalReceived 11) ''second''
       (insert_tracked_posting 0 1 10 (SignalReceived 10) ''first''
         (snd (register_peer memory_persistence (\<lambda>_. Err ''no mail'') 1 (peer_layer_new demo_store))))"

lemmas demo_layer_simps = demo_layer_def insert_tracked_posting_def register_peer_def peer_layer_new_def Let_def
  entry_or_empty_def posting_def

lemma demo_layer_reach: "layer_reach memory_persistence (\<lambda>_. Err ''no mail'') demo_layer"
proof -
  have "layer_reach memory_persistence (\<lambda>_. Err ''no mail'')
      (snd (register_peer memory_persistence (\<lambda>_. Err ''no mail'') 1 (peer_layer_new demo_store)) :: (backend, unit, string) peer_layer)"
    by (rule layer_reach.connected [OF layer_reach.start]) (rule surjective_pairing)
  then show ?thesis
    unfolding demo_layer_def by (intro layer_reach.posted) (simp_all add: demo_layer_simps)
qed

theorem postings_end_once_witness:
  "layer_reach memory_persistence (\<lambda>_. Err ''no mail'') demo_layer \<and>
   fst (remove_tracked_posting_inner 1 11 demo_layer) = Ok (Some (SignalReceived 11)) \<and>
   (''first'', SignalReceived 10) \<in> set (fst (poll_purge [0] demo_layer))"
proof -
  have p: "posting 1 11 demo_layer = Some \<lparr>tp_signal = SignalReceived 11, tp_key = 1, on_timeout = ''second''\<rparr>"
      "posting 1 10 demo_layer = Some \<lparr>tp_signal = SignalReceived 10, tp_key = 0, on_timeout = ''first''\<rparr>"
    by (simp_all add: demo_layer_simps)
  from postings_end_once [OF demo_layer_reach, of 1 11] postings_end_once [OF demo_layer_reach, of 1 10] p
  show ?thesis using demo_layer_reach by simp
qed

end
