(* ===== verification/Session_Hub.thy ===== *)
theory Session_Hub
  imports Peer_Layer
begin

text \<open>
  The part of the session manager of a server that moves signals between clients,
  \<open>citadel_proto/src/proto/session_manager.rs\<close>: sending to one client directly, broadcasting to a list of clients with
  their mailboxes as the fallback, the four operations on message groups that notify members, and the two phases of
  a request routed from one client to another.

  A session is what sending depends on: whether its stream sender is set, whether its receiver still listens, and
  whether its key container can give a ratchet (\<open>endpoint_crypto_accessor.rs\<close>). A packet is kept as the arguments of
  its crafter, which seals it with the ratchet of the receiving session (\<open>craft_group_message_packet\<close> and
  \<open>craft_peer_signal\<close> of the theory \<open>Packet_Crafter\<close>). The list \<open>hub_sent\<close> records what was handed to which session, in
  order. Random letter identifiers are drawn one after the other from the argument \<open>uuid\<close>.

  Shown: a broadcast reaches every listed client that is registered, directly or through its mailbox, where it is
  found when the client connects.
\<close>

section \<open>Sessions and packets\<close>

datatype hub_crypto = CryptoReady | NoContainer | NoRatchet

record hub_session =
  hs_stream :: bool
  hs_open :: bool
  hs_crypto :: hub_crypto
  hs_vconns :: "(u64 \<times> virtual_connection_type) list"

datatype 'n hub_packet =
    GroupPacket group_broadcast ticket i64 security_level
  | SignalPacket "'n peer_signal" ticket i64 security_level

text \<open>
  What a handler leaves to a task of its own: the registration of two clients with each other, and the removal of a
  virtual connection of a session once it is quiet.
\<close>

datatype 'n hub_task =
    TaskRegister u64 u64
  | TaskDisconnect u64 u64 u64 "'n hub_packet"

record ('s, 'n, 'f) hub =
  hub_layer :: "('s, 'n, 'f) peer_layer"
  hub_sessions :: "(u64 \<times> hub_session) list"
  hub_sent :: "(u64 \<times> 'n hub_packet) list"
  hub_drawn :: nat
  hub_tasks :: "'n hub_task list"

definition hub_store :: "('s, 'n, 'f) hub \<Rightarrow> 's" where
  "hub_store hub = pl_store (hub_layer hub)"

definition set_store :: "'s \<Rightarrow> ('s, 'n, 'f) hub \<Rightarrow> ('s, 'n, 'f) hub" where
  "set_store s hub = hub\<lparr>hub_layer := (hub_layer hub)\<lparr>pl_store := s\<rparr>\<rparr>"

definition hub_groups :: "('s, 'n, 'f) hub \<Rightarrow> groups" where
  "hub_groups hub = message_groups (hub_layer hub)"

definition set_groups :: "groups \<Rightarrow> ('s, 'n, 'f) hub \<Rightarrow> ('s, 'n, 'f) hub" where
  "set_groups gs hub = hub\<lparr>hub_layer := (hub_layer hub)\<lparr>message_groups := gs\<rparr>\<rparr>"

text \<open>\<open>borrow_hr\<close> of the client-to-server container of a session, followed by the send of the packet it seals.\<close>

definition borrow_c2s :: "hub_session \<Rightarrow> (unit, network_error) result" where
  "borrow_c2s sess =
     (case hs_crypto sess of
        CryptoReady \<Rightarrow> Ok ()
      | NoContainer \<Rightarrow> Err (InternalError ''C2S container does not exist'')
      | NoRatchet \<Rightarrow> Err (InternalError ''Ratchet does not exist''))"

definition stream_send ::
    "u64 \<Rightarrow> hub_session \<Rightarrow> 'n hub_packet \<Rightarrow> ('s, 'n, 'f) hub \<Rightarrow> (unit, string) result \<times> ('s, 'n, 'f) hub" where
  "stream_send cid sess packet hub =
     (if hs_open sess then (Ok (), hub\<lparr>hub_sent := hub_sent hub @ [(cid, packet)]\<rparr>)
      else (Err ''channel closed'', hub))"

fun network_into_string :: "network_error \<Rightarrow> string" where
  "network_into_string (SocketError s) = s"
| "network_into_string (Timeout cid) = ''Timeout at '' @ decimal (unat cid)"
| "network_into_string (InvalidPacket s) = s"
| "network_into_string (InvalidPacketSize n) = ''Excess packet size requested: '' @ decimal n"
| "network_into_string (InvalidRequest s) = s"
| "network_into_string (InternalError s) = s"
| "network_into_string (NetGeneric s) = s"
| "network_into_string ProperShutdown = ''Proper shutdown called''"

definition session_active :: "u64 \<Rightarrow> ('s, 'n, 'f) hub \<Rightarrow> bool" where
  "session_active cid hub = (map_of (hub_sessions hub) cid \<noteq> None)"

definition check_online_status :: "u64 list \<Rightarrow> ('s, 'n, 'f) hub \<Rightarrow> bool list" where
  "check_online_status users hub = map (\<lambda>user. map_of (hub_sessions hub) user \<noteq> None) users"

definition get_active_sessions :: "('s, 'n, 'f) hub \<Rightarrow> u64 list" where
  "get_active_sessions hub = map fst (hub_sessions hub)"

definition clear_session :: "u64 \<Rightarrow> ('s, 'n, 'f) hub \<Rightarrow> ('s, 'n, 'f) hub" where
  "clear_session cid hub = hub\<lparr>hub_sessions := AList.delete cid (hub_sessions hub)\<rparr>"

definition send_signal_to_peer_direct ::
    "u64 \<Rightarrow> 'n hub_packet \<Rightarrow> ('s, 'n, 'f) hub \<Rightarrow> (unit, network_error) result \<times> ('s, 'n, 'f) hub" where
  "send_signal_to_peer_direct target packet hub =
     (case map_of (hub_sessions hub) target of
        None \<Rightarrow> (Err (NetGeneric (''unable to find peer sess '' @ decimal (unat target))), hub)
      | Some peer_sess \<Rightarrow>
          if \<not> hs_stream peer_sess then (Err (InternalError ''Peer stream absent''), hub)
          else
            (case borrow_c2s peer_sess of
               Ok _ \<Rightarrow> apfst (map_err NetGeneric) (stream_send target peer_sess packet hub)
             | Err e \<Rightarrow> (Err e, hub)
             | Panic \<Rightarrow> (Panic, hub)))"

definition send_signal_to_peer ::
    "u64 \<Rightarrow> ticket \<Rightarrow> 'n peer_signal \<Rightarrow> i64 \<Rightarrow> security_level \<Rightarrow> ('s, 'n, 'f) hub \<Rightarrow> bool \<times> ('s, 'n, 'f) hub" where
  "send_signal_to_peer target ticket signal timestamp level hub =
     (case map_of (hub_sessions hub) target of
        None \<Rightarrow> (False, hub)
      | Some sess \<Rightarrow>
          if \<not> hs_stream sess then (False, hub)
          else
            (case borrow_c2s sess of
               Ok _ \<Rightarrow> apfst (\<lambda>r. ok r \<noteq> None) (stream_send target sess (SignalPacket signal ticket timestamp level) hub)
             | _ \<Rightarrow> (False, hub)))"

text \<open>A session whose stream sender is not set makes the router panic.\<close>

definition route_packet_to ::
    "u64 \<Rightarrow> 'n hub_packet \<Rightarrow> ('s, 'n, 'f) hub \<Rightarrow> (unit, string) result \<times> ('s, 'n, 'f) hub" where
  "route_packet_to target packet hub =
     (case map_of (hub_sessions hub) target of
        None \<Rightarrow> (Err (''Target cid '' @ decimal (unat target) @ '' does not exist (route err)''), hub)
      | Some sess_ref \<Rightarrow>
          if \<not> hs_stream sess_ref then (Panic, hub)
          else
            (case borrow_c2s sess_ref of
               Ok _ \<Rightarrow> stream_send target sess_ref packet hub
             | Err e \<Rightarrow> (Err (network_into_string e), hub)
             | Panic \<Rightarrow> (Panic, hub)))"
section \<open>Broadcasts\<close>

text \<open>
  The first loop sends to every registered client that can be reached; the others are failed, or put aside for
  mail. The second loop writes the letters; the first one that cannot be written ends the call with its error.
\<close>

record delivery =
  peers_okay :: "u64 list"
  peers_failed :: "u64 list"
  to_mail :: "u64 list"

fun broadcast_loop ::
    "'n hub_packet \<Rightarrow> bool \<Rightarrow> (u64 \<times> bool) list \<Rightarrow> delivery \<Rightarrow> ('s, 'n, 'f) hub \<Rightarrow>
     (delivery, string) result \<times> ('s, 'n, 'f) hub" where
  "broadcast_loop packet mail_if_offline [] d hub = (Ok d, hub)"
| "broadcast_loop packet mail_if_offline ((peer, is_registered) # rest) d hub =
     (if is_registered
      then
        (case send_signal_to_peer_direct peer packet hub of
           (Ok _, hub') \<Rightarrow> broadcast_loop packet mail_if_offline rest (d\<lparr>peers_okay := peers_okay d @ [peer]\<rparr>) hub'
         | (Err _, hub') \<Rightarrow>
             broadcast_loop packet mail_if_offline rest
               (if mail_if_offline then d\<lparr>to_mail := to_mail d @ [peer]\<rparr> else d) hub'
         | (Panic, hub') \<Rightarrow> (Panic, hub'))
      else broadcast_loop packet mail_if_offline rest (d\<lparr>peers_failed := peers_failed d @ [peer]\<rparr>) hub)"

fun mail_loop ::
    "'s persistence \<Rightarrow> ('n peer_signal \<Rightarrow> (bytes, string) result) \<Rightarrow> (nat \<Rightarrow> string) \<Rightarrow> 'n peer_signal \<Rightarrow> u64 list \<Rightarrow>
     u64 list \<Rightarrow> ('s, 'n, 'f) hub \<Rightarrow> (u64 list, string) result \<times> ('s, 'n, 'f) hub" where
  "mail_loop pers ser uuid signal [] okay hub = (Ok okay, hub)"
| "mail_loop pers ser uuid signal (peer # peers) okay hub =
     (let r = try_add_mailbox pers ser (uuid (hub_drawn hub)) peer signal (hub_store hub);
          hub' = set_store (snd r) (hub\<lparr>hub_drawn := hub_drawn hub + 1\<rparr>)
      in case fst r of
           Ok _ \<Rightarrow> mail_loop pers ser uuid signal peers (okay @ [peer]) hub'
         | Err e \<Rightarrow> (Err (network_into_string e), hub')
         | Panic \<Rightarrow> (Panic, hub'))"

definition send_group_broadcast_signal_to ::
    "'s persistence \<Rightarrow> ('n peer_signal \<Rightarrow> (bytes, string) result) \<Rightarrow> (nat \<Rightarrow> string) \<Rightarrow> i64 \<Rightarrow> ticket \<Rightarrow>
     (u64 \<times> bool) list \<Rightarrow> bool \<Rightarrow> group_broadcast \<Rightarrow> security_level \<Rightarrow> ('s, 'n, 'f) hub \<Rightarrow>
     (u64 list \<times> u64 list, string) result \<times> ('s, 'n, 'f) hub" where
  "send_group_broadcast_signal_to pers ser uuid timestamp ticket peers_and_statuses mail_if_offline signal level hub =
     (case broadcast_loop (GroupPacket signal ticket timestamp level) mail_if_offline peers_and_statuses
             \<lparr>peers_okay = [], peers_failed = [], to_mail = []\<rparr> hub of
        (Ok d, hub') \<Rightarrow>
          (case mail_loop pers ser uuid (BroadcastConnected signal) (to_mail d) (peers_okay d) hub' of
             (Ok okay, hub'') \<Rightarrow> (Ok (okay, peers_failed d), hub'')
           | (Err e, hub'') \<Rightarrow> (Err e, hub'')
           | (Panic, hub'') \<Rightarrow> (Panic, hub''))
      | (Err e, hub') \<Rightarrow> (Err e, hub')
      | (Panic, hub') \<Rightarrow> (Panic, hub'))"

section \<open>Message groups\<close>

text \<open>Failures to notify are logged and otherwise ignored.\<close>

definition notify_all :: "'n hub_packet \<Rightarrow> u64 list \<Rightarrow> ('s, 'n, 'f) hub \<Rightarrow> ('s, 'n, 'f) hub" where
  "notify_all packet peers hub = fold (\<lambda>peer h. snd (send_signal_to_peer_direct peer packet h)) peers hub"

definition create_message_group_and_notify ::
    "i64 \<Rightarrow> ticket \<Rightarrow> u64 \<Rightarrow> u64 list \<Rightarrow> security_level \<Rightarrow> message_group_options \<Rightarrow> ('s, 'n, 'f) hub \<Rightarrow>
     message_group_key option \<times> ('s, 'n, 'f) hub" where
  "create_message_group_and_notify timestamp ticket implicated_cid peers_to_notify level options hub =
     (let r = create_new_message_group implicated_cid peers_to_notify options (hub_groups hub)
      in case fst r of
           None \<Rightarrow> (None, set_groups (snd r) hub)
         | Some key \<Rightarrow>
             (Some key, notify_all (GroupPacket (GbInvitation key) ticket timestamp level) peers_to_notify (set_groups (snd r) hub)))"

definition hub_remove_message_group ::
    "u64 \<Rightarrow> i64 \<Rightarrow> ticket \<Rightarrow> message_group_key \<Rightarrow> security_level \<Rightarrow> ('s, 'n, 'f) hub \<Rightarrow> bool \<times> ('s, 'n, 'f) hub" where
  "hub_remove_message_group cid_host timestamp ticket key level hub =
     (let r = pl_remove_message_group key (hub_groups hub)
      in case fst r of
           None \<Rightarrow> (False, set_groups (snd r) hub)
         | Some g \<Rightarrow>
             (True, notify_all (GroupPacket (GbDisconnected key) ticket timestamp level)
                      (filter (\<lambda>p. p \<noteq> cid_host) (map fst (concurrent_peers g))) (set_groups (snd r) hub)))"

datatype alter_mode = AlterLeave | AlterKick

definition kick_from_message_group ::
    "'s persistence \<Rightarrow> ('n peer_signal \<Rightarrow> (bytes, string) result) \<Rightarrow> (nat \<Rightarrow> string) \<Rightarrow> alter_mode \<Rightarrow> u64 \<Rightarrow> i64 \<Rightarrow> ticket \<Rightarrow>
     message_group_key \<Rightarrow> u64 list \<Rightarrow> security_level \<Rightarrow> ('s, 'n, 'f) hub \<Rightarrow> (bool, network_error) result \<times> ('s, 'n, 'f) hub" where
  "kick_from_message_group pers ser uuid mode implicated_cid timestamp ticket key peers level hub =
     (let r = remove_peers_from_message_group key peers (hub_groups hub);
          hub1 = set_groups (snd r) hub
      in case fst r of
           Err _ \<Rightarrow> (Ok False, hub1)
         | Panic \<Rightarrow> (Panic, hub1)
         | Ok (peers_removed, peers_remaining) \<Rightarrow>
             let to_dc = (if mode = AlterKick then filter (\<lambda>p. p \<noteq> implicated_cid) peers_removed else []);
                 to_left = filter (\<lambda>p. p \<noteq> implicated_cid) peers_remaining
             in case send_group_broadcast_signal_to pers ser uuid timestamp ticket (map (\<lambda>p. (p, True)) to_dc) True
                       (GbDisconnected key) level hub1 of
                  (Err e, hub2) \<Rightarrow> (Err (NetGeneric e), hub2)
                | (Panic, hub2) \<Rightarrow> (Panic, hub2)
                | (Ok _, hub2) \<Rightarrow>
                    (case send_group_broadcast_signal_to pers ser uuid timestamp ticket (map (\<lambda>p. (p, True)) to_left) True
                            (GbMemberStateChanged key (LeftGroup peers_removed)) level hub2 of
                       (Err e, hub3) \<Rightarrow> (Err (NetGeneric e), hub3)
                     | (Panic, hub3) \<Rightarrow> (Panic, hub3)
                     | (Ok _, hub3) \<Rightarrow> (Ok True, hub3)))"

definition broadcast_signal_to_group ::
    "'s persistence \<Rightarrow> ('n peer_signal \<Rightarrow> (bytes, string) result) \<Rightarrow> (nat \<Rightarrow> string) \<Rightarrow> u64 \<Rightarrow> i64 \<Rightarrow> ticket \<Rightarrow>
     message_group_key \<Rightarrow> group_broadcast \<Rightarrow> security_level \<Rightarrow> ('s, 'n, 'f) hub \<Rightarrow> (bool, string) result \<times> ('s, 'n, 'f) hub" where
  "broadcast_signal_to_group pers ser uuid implicated_cid timestamp ticket key signal level hub =
     (case get_peers_in_message_group key (hub_groups hub) of
        None \<Rightarrow> (Ok False, hub)
      | Some peers \<Rightarrow>
          (case send_group_broadcast_signal_to pers ser uuid timestamp ticket
                  (map (\<lambda>p. (p, True)) (filter (\<lambda>p. p \<noteq> implicated_cid) peers)) True signal level hub of
             (Ok (_, failed), hub') \<Rightarrow> (Ok (failed = []), hub')
           | (Err e, hub') \<Rightarrow> (Err e, hub')
           | (Panic, hub') \<Rightarrow> (Panic, hub')))"

section \<open>Requests between clients\<close>

text \<open>
  A request of one client to another: the server remembers it under its sender until the answer comes, \<open>delay_key\<close>
  being the timer it gets, and passes it on, to the mailbox when the target is registered but not connected. The
  posting is made before the packet is sent, and stays when the sending fails.
\<close>

definition track ::
    "nat \<Rightarrow> u64 \<Rightarrow> ticket \<Rightarrow> 'n peer_signal \<Rightarrow> 'f \<Rightarrow> ('s, 'n, 'f) hub \<Rightarrow> ('s, 'n, 'f) hub" where
  "track delay_key cid ticket signal f hub =
     hub\<lparr>hub_layer := insert_tracked_posting delay_key cid ticket signal f (hub_layer hub)\<rparr>"

definition route_signal_primary ::
    "'s persistence \<Rightarrow> ('n peer_signal \<Rightarrow> (bytes, string) result) \<Rightarrow> (nat \<Rightarrow> string) \<Rightarrow> nat \<Rightarrow> u64 \<Rightarrow> u64 \<Rightarrow> ticket \<Rightarrow>
     'n peer_signal \<Rightarrow> 'n hub_packet \<Rightarrow> 'f \<Rightarrow> ('s, 'n, 'f) hub \<Rightarrow> (unit, string) result \<times> ('s, 'n, 'f) hub" where
  "route_signal_primary pers ser uuid delay_key implicated_cid target ticket signal packet f hub =
     (if implicated_cid = target then (Err ''Target CID cannot be equal to the implicated CID'', hub)
      else
        (case map_err into_string (p_registered pers target (hub_store hub)) of
           Err e \<Rightarrow> (Err e, hub)
         | Panic \<Rightarrow> (Panic, hub)
         | Ok False \<Rightarrow> (Err (''CID '' @ decimal (unat target) @ '' is not registered locally''), hub)
         | Ok True \<Rightarrow>
             let hub1 = track delay_key implicated_cid ticket signal f hub
             in case map_of (hub_sessions hub) target of
                  Some sess_ref \<Rightarrow>
                    if \<not> hs_stream sess_ref then (Panic, hub1)
                    else
                      (case borrow_c2s sess_ref of
                         Ok _ \<Rightarrow> stream_send target sess_ref packet hub1
                       | Err e \<Rightarrow> (Err (network_into_string e), hub1)
                       | Panic \<Rightarrow> (Panic, hub1))
                | None \<Rightarrow>
                    let r = try_add_mailbox pers ser (uuid (hub_drawn hub1)) target signal (hub_store hub1)
                    in (map_err network_into_string (fst r), set_store (snd r) (hub1\<lparr>hub_drawn := hub_drawn hub1 + 1\<rparr>))))"

text \<open>
  The answer: the request is looked up under the client it is addressed to and its ticket, and removed; then the
  answer is passed on to that client, which has to be connected. The value is the signal of the request.
\<close>

definition route_signal_response_primary ::
    "u64 \<Rightarrow> u64 \<Rightarrow> ticket \<Rightarrow> 'n hub_packet \<Rightarrow> ('s, 'n, 'f) hub \<Rightarrow> ('n peer_signal, string) result \<times> ('s, 'n, 'f) hub" where
  "route_signal_response_primary implicated_cid target ticket packet hub =
     (case remove_tracked_posting_inner target ticket (hub_layer hub) of
        (Ok None, layer) \<Rightarrow>
          (Err (''Tracked posting '' @ decimal (unat ticket) @ '' for '' @ decimal (unat target) @ '' -> '' @
             decimal (unat implicated_cid) @ '' does not exist''), hub\<lparr>hub_layer := layer\<rparr>)
      | (Ok (Some tracked_posting), layer) \<Rightarrow>
          let hub1 = hub\<lparr>hub_layer := layer\<rparr>
          in (case map_of (hub_sessions hub) target of
                None \<Rightarrow>
                  (Err (''Session for '' @ decimal (unat target) @ '' is not active, and thus no room for consent''), hub1)
              | Some sess_ref \<Rightarrow>
                  if \<not> hs_stream sess_ref then (Panic, hub1)
                  else
                    (case borrow_c2s sess_ref of
                       Ok _ \<Rightarrow>
                         (case stream_send target sess_ref packet hub1 of
                            (Ok _, hub2) \<Rightarrow> (Ok tracked_posting, hub2)
                          | (Err e, hub2) \<Rightarrow> (Err e, hub2)
                          | (Panic, hub2) \<Rightarrow> (Panic, hub2))
                     | Err e \<Rightarrow> (Err (network_into_string e), hub1)
                     | Panic \<Rightarrow> (Panic, hub1)))
      | (Err _, layer) \<Rightarrow> (Panic, hub\<lparr>hub_layer := layer\<rparr>)
      | (Panic, layer) \<Rightarrow> (Panic, hub\<lparr>hub_layer := layer\<rparr>))"

text \<open>
  Ending a virtual connection at the side of the peer. The connection is removed only when a ratchet is at hand.
\<close>

definition disconnect_virtual_conn ::
    "u64 \<Rightarrow> u64 \<Rightarrow> 'n hub_packet \<Rightarrow> ('s, 'n, 'f) hub \<Rightarrow> (unit, string) result \<times> ('s, 'n, 'f) hub" where
  "disconnect_virtual_conn implicated_cid peer packet hub =
     (if implicated_cid = peer then (Err ''Implicated CID cannot equal peer cid'', hub)
      else
        (case map_of (hub_sessions hub) peer of
           None \<Rightarrow> (Ok (), hub)
         | Some sess \<Rightarrow>
             if \<not> hs_stream sess then (Panic, hub)
             else
               (case borrow_c2s sess of
                  Err e \<Rightarrow> (Err (network_into_string e), hub)
                | Panic \<Rightarrow> (Panic, hub)
                | Ok _ \<Rightarrow>
                    if map_of (hs_vconns sess) implicated_cid = None then (Ok (), hub)
                    else
                      let sess' = sess\<lparr>hs_vconns := AList.delete implicated_cid (hs_vconns sess)\<rparr>
                      in stream_send peer sess' packet
                           (hub\<lparr>hub_sessions := AList.update peer sess' (hub_sessions hub)\<rparr>))))"

definition register_session_with_peer_layer ::
    "'s persistence \<Rightarrow> (bytes \<Rightarrow> ('n peer_signal, string) result) \<Rightarrow> u64 \<Rightarrow> ('s, 'n, 'f) hub \<Rightarrow>
     ('n peer_signal list option, network_error) result \<times> ('s, 'n, 'f) hub" where
  "register_session_with_peer_layer pers de implicated_cid hub =
     (let r = register_peer pers de implicated_cid (hub_layer hub) in (fst r, hub\<lparr>hub_layer := snd r\<rparr>))"

section \<open>What a broadcast delivers\<close>

text \<open>
  A client the server can hand a packet to. One that is not reachable need not be offline: its session may still be in
  the map with its stream gone, and the shutdown of that session is then still to come.
\<close>

definition reachable :: "('s, 'n, 'f) hub \<Rightarrow> u64 \<Rightarrow> bool" where
  "reachable hub p =
     (case map_of (hub_sessions hub) p of
        None \<Rightarrow> False
      | Some s \<Rightarrow> hs_stream s \<and> hs_open s \<and> hs_crypto s = CryptoReady)"

text \<open>
  What happens to mailboxes after a broadcast: clients connect, sessions shut down, letters are left. Such an event
  leaves the letters of a broadcast to client \<open>p\<close> alone if it is not \<open>p\<close> that connects or is shut down, and a
  further letter to \<open>p\<close> has an identifier of its own and can be decoded.
\<close>

datatype 'n mail_event = Connects u64 | ShutsDown u64 | Mailed string u64 "'n peer_signal"

fun mail_step ::
    "'s persistence \<Rightarrow> ('n peer_signal \<Rightarrow> (bytes, string) result) \<Rightarrow> (bytes \<Rightarrow> ('n peer_signal, string) result) \<Rightarrow>
     ('s, 'n, 'f) peer_layer \<Rightarrow> 'n mail_event \<Rightarrow> ('s, 'n, 'f) peer_layer" where
  "mail_step pers ser de self (Connects cid) = snd (register_peer pers de cid self)"
| "mail_step pers ser de self (ShutsDown cid) = snd (on_session_shutdown pers cid self)"
| "mail_step pers ser de self (Mailed sk cid signal) =
     self\<lparr>pl_store := snd (try_add_mailbox pers ser sk cid signal (pl_store self))\<rparr>"

fun keeps_letters ::
    "(nat \<Rightarrow> string) \<Rightarrow> ('n peer_signal \<Rightarrow> (bytes, string) result) \<Rightarrow> (bytes \<Rightarrow> ('n peer_signal, string) result) \<Rightarrow>
     u64 \<Rightarrow> 'n mail_event \<Rightarrow> bool" where
  "keeps_letters uuid ser de p (Connects cid) \<longleftrightarrow> cid \<noteq> p"
| "keeps_letters uuid ser de p (ShutsDown cid) \<longleftrightarrow> cid \<noteq> p"
| "keeps_letters uuid ser de p (Mailed sk cid signal) \<longleftrightarrow>
     cid \<noteq> p \<or> sk \<notin> range uuid \<and> (\<forall>b. ser signal = Ok b \<longrightarrow> (\<exists>signal'. de b = Ok signal'))"

definition letter_waits ::
    "(nat \<Rightarrow> string) \<Rightarrow> (bytes \<Rightarrow> ('n peer_signal, string) result) \<Rightarrow> bytes \<Rightarrow> (string \<Rightarrow> bytes option) \<Rightarrow> bool" where
  "letter_waits uuid de b mailbox \<longleftrightarrow>
     (\<exists>i. mailbox (uuid i) = Some b) \<and> (\<forall>k v. mailbox k = Some v \<longrightarrow> (\<exists>signal. de v = Ok signal))"

lemma letter_waits_added:
  assumes "letter_waits uuid de b mailbox" "sk \<notin> range uuid" "de x = Ok signal"
  shows "letter_waits uuid de b (mailbox(sk \<mapsto> x))"
proof -
  obtain i where "mailbox (uuid i) = Some b" using assms(1) by (auto simp: letter_waits_def)
  then have "(mailbox(sk \<mapsto> x)) (uuid i) = Some b" using assms(2) by auto
  then show ?thesis using assms(1,3) unfolding letter_waits_def by (metis fun_upd_apply option.inject)
qed

lemma reachable_sent [simp]: "reachable (hub\<lparr>hub_sent := x\<rparr>) p = reachable hub p"
  by (simp add: reachable_def)

lemma send_direct_reachable:
  "reachable hub p \<Longrightarrow>
   send_signal_to_peer_direct p packet hub = (Ok (), hub\<lparr>hub_sent := hub_sent hub @ [(p, packet)]\<rparr>)"
  by (auto simp: send_signal_to_peer_direct_def reachable_def borrow_c2s_def stream_send_def split: option.splits)

lemma send_direct_unreachable:
  "\<not> reachable hub p \<Longrightarrow> \<exists>e. send_signal_to_peer_direct p packet hub = (Err e, hub)"
  by (auto simp: send_signal_to_peer_direct_def reachable_def borrow_c2s_def stream_send_def
      split: option.splits hub_crypto.split)

lemma broadcast_loop_eq:
  "broadcast_loop packet True xs d hub =
     (Ok (d\<lparr>peers_okay := peers_okay d @ map fst (filter (\<lambda>(p, r). r \<and> reachable hub p) xs),
            peers_failed := peers_failed d @ map fst (filter (\<lambda>(p, r). \<not> r) xs),
            to_mail := to_mail d @ map fst (filter (\<lambda>(p, r). r \<and> \<not> reachable hub p) xs)\<rparr>),
      hub\<lparr>hub_sent := hub_sent hub @ map (\<lambda>(p, r). (p, packet)) (filter (\<lambda>(p, r). r \<and> reachable hub p) xs)\<rparr>)"
proof (induction xs arbitrary: d hub)
  case (Cons x xs)
  obtain p r where x: "x = (p, r)" by fastforce
  show ?case
  proof (cases "r \<and> reachable hub p")
    case True
    then show ?thesis by (simp add: x Cons.IH send_direct_reachable)
  next
    case False
    then show ?thesis using send_direct_unreachable [of hub p packet]
      by (cases r) (auto simp: x Cons.IH)
  qed
qed simp

lemma map_fst_True: "map fst (filter (\<lambda>(p, r). r \<and> P p) (map (\<lambda>p. (p, True)) ps)) = filter P ps"
  by (induction ps) auto

lemma filter_not_True: "filter (\<lambda>(p, r). \<not> r) (map (\<lambda>p. (p, True)) ps) = []"
  by (induction ps) auto

lemma sent_True:
  "map (\<lambda>(p, r). (p, packet)) (filter (\<lambda>(p, r). r \<and> P p) (map (\<lambda>p. (p, True)) ps)) = map (\<lambda>p. (p, packet)) (filter P ps)"
  by (induction ps) auto

lemma hub_store_set [simp]: "hub_store (set_store s hub) = s" "hub_store (hub\<lparr>hub_sent := x\<rparr>) = hub_store hub"
  "hub_store (hub\<lparr>hub_drawn := n\<rparr>) = hub_store hub" "hub_store (set_groups gs hub) = hub_store hub"
  by (simp_all add: hub_store_def set_store_def set_groups_def)

lemma set_store_frame [simp]: "hub_sent (set_store s hub) = hub_sent hub" "hub_drawn (set_store s hub) = hub_drawn hub"
  "hub_sessions (set_store s hub) = hub_sessions hub" "hub_groups (set_store s hub) = hub_groups hub"
  "hub_sent (set_groups gs hub) = hub_sent hub" "hub_sessions (set_groups gs hub) = hub_sessions hub"
  "hub_groups (set_groups gs hub) = gs" "hub_drawn (set_groups gs hub) = hub_drawn hub"
  by (simp_all add: set_store_def hub_groups_def set_groups_def)

lemma mail_loop_frame:
  "hub_sent (snd (mail_loop pers ser uuid signal peers okay hub)) = hub_sent hub \<and>
   hub_sessions (snd (mail_loop pers ser uuid signal peers okay hub)) = hub_sessions hub \<and>
   hub_groups (snd (mail_loop pers ser uuid signal peers okay hub)) = hub_groups hub"
proof (induction peers arbitrary: okay hub)
  case (Cons p peers)
  then show ?case by (simp add: Let_def hub_groups_def set_store_def split: result.split)
qed simp

lemma rmap_total_set:
  "\<forall>x \<in> set xs. \<exists>y. f x = Ok y \<Longrightarrow>
   \<exists>ys. rmap f xs = Ok ys \<and> (\<forall>x \<in> set xs. \<forall>y. f x = Ok y \<longrightarrow> y \<in> set ys)"
  by (induction xs) force+

context byte_store
begin

lemma try_add_mailbox_ok:
  assumes "sound s" "ser signal = Ok b"
  shows "fst (try_add_mailbox pers ser sk p signal s) = Ok ()"
    and "sound (snd (try_add_mailbox pers ser sk p signal s))"
    and "known (snd (try_add_mailbox pers ser sk p signal s)) = known s"
  using assms store_ok [OF assms(1), of p 0 MAILBOX sk b] store_sound store_known
  by (auto simp: try_add_mailbox_def Let_def)

lemma mailbox_added:
  assumes "sound s" "ser signal = Ok b" "known s q"
  shows "contents (snd (try_add_mailbox pers ser sk p signal s)) q 0 MAILBOX =
    (if q = p then (contents s q 0 MAILBOX)(sk \<mapsto> b) else contents s q 0 MAILBOX)"
  using assms store_same [OF assms(1), of p] store_other [OF assms(1), of q 0 MAILBOX p 0 MAILBOX]
  by (auto simp: try_add_mailbox_def Let_def)

text \<open>
  Letters go to every client listed; the mailbox of a known one holds its letter under one of the identifiers drawn,
  and otherwise what it held before.
\<close>

lemma mail_loop_ok:
  assumes "sound (hub_store hub)" "ser signal = Ok b"
  shows "fst (mail_loop pers ser uuid signal peers okay hub) = Ok (okay @ peers)"
    and "sound (hub_store (snd (mail_loop pers ser uuid signal peers okay hub)))"
    and "known (hub_store (snd (mail_loop pers ser uuid signal peers okay hub))) = known (hub_store hub)"
  using assms(1)
  by (induction peers arbitrary: okay hub) (simp_all add: Let_def try_add_mailbox_ok [where b = b] assms(2))

lemma mail_loop_contents:
  assumes "sound (hub_store hub)" "ser signal = Ok b" "known (hub_store hub) q"
  shows "contents (hub_store (snd (mail_loop pers ser uuid signal peers okay hub))) q 0 MAILBOX k =
      (if \<exists>i < length peers. k = uuid (hub_drawn hub + i) \<and> peers ! i = q then Some b
       else contents (hub_store hub) q 0 MAILBOX k)"
    using assms(1,3)
  proof (induction peers arbitrary: okay hub)
    case (Cons p peers)
    have split: "(\<exists>i < length (p # peers). k = uuid (hub_drawn hub + i) \<and> (p # peers) ! i = q) \<longleftrightarrow>
        k = uuid (hub_drawn hub) \<and> p = q \<or>
        (\<exists>i < length peers. k = uuid (Suc (hub_drawn hub) + i) \<and> peers ! i = q)"
      by (auto simp: less_Suc_eq_0_disj)
    let ?r = "try_add_mailbox pers ser (uuid (hub_drawn hub)) p signal (hub_store hub)"
    let ?h = "set_store (snd ?r) (hub\<lparr>hub_drawn := hub_drawn hub + 1\<rparr>)"
    have ok: "fst ?r = Ok ()" "sound (hub_store ?h)" "known (hub_store ?h) q"
      using Cons.prems assms(2) by (simp_all add: try_add_mailbox_ok [where b = b])
    have "contents (hub_store ?h) q 0 MAILBOX k =
        (if k = uuid (hub_drawn hub) \<and> p = q then Some b else contents (hub_store hub) q 0 MAILBOX k)"
      using Cons.prems assms(2) by (auto simp: mailbox_added [where b = b])
    with Cons.IH [OF ok(2,3), of "okay @ [p]"] ok(1) show ?case
      unfolding split by (auto simp: Let_def)
  qed simp

lemma register_peer_mail:
  assumes "sound (pl_store self)" "contents (pl_store self) p 0 MAILBOX k = Some b" "de b = Ok signal"
    and "\<forall>k b. contents (pl_store self) p 0 MAILBOX k = Some b \<longrightarrow> (\<exists>signal. de b = Ok signal)"
  shows "\<exists>signals. fst (register_peer pers de p self) = Ok (Some signals) \<and> signal \<in> set signals"
proof -
  obtain items where items: "fst (p_drain pers p 0 MAILBOX (pl_store self)) = Ok items"
      "map_of items = contents (pl_store self) p 0 MAILBOX" "distinct (map fst items)"
    using drain_ok [OF assms(1)] by blast
  have "\<forall>x \<in> set (map snd items). \<exists>y. de x = Ok y"
    using assms(4) items(2,3) by (metis (no_types, lifting) image_iff list.set_map map_of_is_SomeI prod.collapse)
  then obtain signals where signals: "rmap de (map snd items) = Ok signals"
      "\<forall>x \<in> set (map snd items). \<forall>y. de x = Ok y \<longrightarrow> y \<in> set signals"
    using rmap_total_set by blast
  have "b \<in> set (map snd items)"
    using assms(2) map_of_SomeD [of items k b] by (force simp: items(2))
  with signals assms(3) items(1) show ?thesis
    by (auto simp: register_peer_def Let_def decode_mail_def)
qed

text \<open>A letter under one of the identifiers of a broadcast stays in the mailbox until its owner connects.\<close>

lemma mail_step_keeps_letter:
  assumes "sound (pl_store self)" "known (pl_store self) p"
    and "letter_waits uuid de b (contents (pl_store self) p 0 MAILBOX)" and event: "keeps_letters uuid ser de p e"
  defines "s \<equiv> pl_store (mail_step pers ser de self e)"
  shows "sound s \<and> known s p \<and> letter_waits uuid de b (contents s p 0 MAILBOX)"
proof (cases e)
  case (Mailed sk q signal)
  show ?thesis
  proof (cases "ser signal")
    case (Ok x)
    have "contents s p 0 MAILBOX =
        (if p = q then (contents (pl_store self) p 0 MAILBOX)(sk \<mapsto> x) else contents (pl_store self) p 0 MAILBOX)"
      using mailbox_added [of "pl_store self" ser signal x p sk q] assms(1,2) Ok by (simp add: s_def Mailed)
    then show ?thesis
      using assms(1-3) event Ok try_add_mailbox_ok [OF assms(1), of ser signal x]
      by (auto simp: s_def Mailed letter_waits_added)
  qed (use assms Mailed in \<open>simp_all add: try_add_mailbox_def\<close>)
next
  case (Connects q)
  then show ?thesis
    using assms drain_sound [OF assms(1), of q 0 MAILBOX] drain_known [OF assms(1), of q 0 MAILBOX]
      drain_other [OF assms(1), of p 0 MAILBOX q 0 MAILBOX]
    by (simp add: register_peer_def Let_def)
next
  case (ShutsDown q)
  then show ?thesis
    using assms drain_sound [OF assms(1), of q 0 MAILBOX] drain_known [OF assms(1), of q 0 MAILBOX]
      drain_other [OF assms(1), of p 0 MAILBOX q 0 MAILBOX]
    by (simp add: on_session_shutdown_def Let_def)
qed

lemma mail_run_keeps_letter:
  assumes "list_all (keeps_letters uuid ser de p) events"
    and "sound (pl_store self)" "known (pl_store self) p" "letter_waits uuid de b (contents (pl_store self) p 0 MAILBOX)"
  shows "sound (pl_store (foldl (mail_step pers ser de) self events)) \<and>
    letter_waits uuid de b (contents (pl_store (foldl (mail_step pers ser de) self events)) p 0 MAILBOX)"
  using assms
proof (induction events arbitrary: self)
  case (Cons e events)
  then show ?case using mail_step_keeps_letter [of self p uuid de b ser e] by simp
qed simp

text \<open>The shutdown of a session empties the mailbox of its client unread.\<close>

lemma shutdown_loses_mail:
  assumes "sound (pl_store self)"
  shows "fst (register_peer pers de p (snd (on_session_shutdown pers p self))) = Ok None"
proof -
  let ?s = "snd (p_drain pers p 0 MAILBOX (pl_store self))"
  obtain items where "fst (p_drain pers p 0 MAILBOX ?s) = Ok items" "map_of items = contents ?s p 0 MAILBOX"
    using drain_ok [OF drain_sound [OF assms]] by blast
  then show ?thesis
    using drain_same [OF assms, of p 0 MAILBOX]
    by (simp add: register_peer_def on_session_shutdown_def Let_def decode_mail_def)
qed

lemma broadcast_delivers:
  assumes "sound (hub_store hub)" "ser (BroadcastConnected signal) = Ok b"
    and "get_peers_in_message_group key (hub_groups hub) = Some peers"
    and r: "r = broadcast_signal_to_group pers ser uuid cid timestamp ticket key signal level hub"
  shows "fst r = Ok True"
    and "hub_sent (snd r) = hub_sent hub @
      map (\<lambda>p. (p, GroupPacket signal ticket timestamp level)) (filter (\<lambda>p. p \<noteq> cid \<and> reachable hub p) peers)"
    and "sound (hub_store (snd r))"
    and "known (hub_store hub) q \<Longrightarrow> contents (hub_store (snd r)) q 0 MAILBOX k = Some v \<Longrightarrow>
      contents (hub_store hub) q 0 MAILBOX k = Some v \<or> v = b"
    and "known (hub_store hub) q \<Longrightarrow> q \<in> set peers \<Longrightarrow> q \<noteq> cid \<Longrightarrow> \<not> reachable hub q \<Longrightarrow>
      \<exists>i. contents (hub_store (snd r)) q 0 MAILBOX (uuid i) = Some b"
    and "known (hub_store (snd r)) = known (hub_store hub)"
proof -
  let ?ps = "filter (\<lambda>p. p \<noteq> cid) peers"
  let ?h = "hub\<lparr>hub_sent := hub_sent hub @
      map (\<lambda>p. (p, GroupPacket signal ticket timestamp level)) (filter (reachable hub) ?ps)\<rparr>"
  let ?m = "filter (\<lambda>p. \<not> reachable hub p) ?ps"
  let ?l = "mail_loop pers ser uuid (BroadcastConnected signal) ?m (filter (reachable hub) ?ps) ?h"
  have s: "sound (hub_store ?h)" using assms(1) by simp
  have ok: "fst ?l = Ok (filter (reachable hub) ?ps @ ?m)" "sound (hub_store (snd ?l))"
      "known (hub_store (snd ?l)) = known (hub_store ?h)"
    using mail_loop_ok [OF s, of ser "BroadcastConnected signal"] assms(2) by simp_all
  obtain h' where l: "?l = (Ok (filter (reachable hub) ?ps @ ?m), h')" using ok(1) by (cases ?l) auto
  have r2: "fst r = Ok True" "snd r = snd ?l"
    using assms(3) l
    by (simp_all add: r broadcast_signal_to_group_def send_group_broadcast_signal_to_def broadcast_loop_eq
        map_fst_True filter_not_True sent_True)
  show "fst r = Ok True" "sound (hub_store (snd r))" "known (hub_store (snd r)) = known (hub_store hub)"
    using r2 ok by simp_all
  show "hub_sent (snd r) = hub_sent hub @
      map (\<lambda>p. (p, GroupPacket signal ticket timestamp level)) (filter (\<lambda>p. p \<noteq> cid \<and> reachable hub p) peers)"
    unfolding r2 by (simp add: mail_loop_frame conj_commute)
  assume known: "known (hub_store hub) q"
  then have k: "known (hub_store ?h) q" by simp
  note letters = mail_loop_contents [where ser = ser and signal = "BroadcastConnected signal", OF s assms(2) k,
      of uuid ?m "filter (reachable hub) ?ps"]
  show "contents (hub_store hub) q 0 MAILBOX k = Some v \<or> v = b"
    if "contents (hub_store (snd r)) q 0 MAILBOX k = Some v"
    using that unfolding r2 letters by (simp split: if_splits)
  show "\<exists>i. contents (hub_store (snd r)) q 0 MAILBOX (uuid i) = Some b"
    if "q \<in> set peers" "q \<noteq> cid" "\<not> reachable hub q"
  proof -
    have "q \<in> set ?m" using that by simp
    then obtain i where "i < length ?m" "?m ! i = q" unfolding in_set_conv_nth by blast
    then have "contents (hub_store (snd ?l)) q 0 MAILBOX (uuid (hub_drawn ?h + i)) = Some b"
      unfolding letters by auto
    then show ?thesis unfolding r2 by blast
  qed
qed

end

end
