(* ===== verification/Group_Broadcast.thy ===== *)
theory Group_Broadcast
  imports Session_Hub
begin

text \<open>
  The handler of group packets, \<open>citadel_proto/src/proto/packet_processor/peer/group_broadcast.rs\<close>, at a server, where
  it works on the groups and notifies members, and at a client, where it forwards what it receives to the channel of
  the group or to the kernel. The CID the handler takes for the sender is the one in the packet header; the session
  the packet arrived on is not consulted.
\<close>

section \<open>State and results\<close>

datatype group_payload = GroupMessage bytes u64 | GroupPayloadEvent group_broadcast

datatype kernel_event = KernelGroupEvent u64 ticket group_broadcast | KernelGroupChannelCreated ticket message_group_key u64

text \<open>The session the packet arrived on; a channel that still has a reader keeps what it is sent.\<close>

record group_session =
  gs_is_server :: bool
  gs_implicated_cid :: "u64 option"
  gs_cnac_cid :: "u64 option"
  group_channels :: "(message_group_key \<times> (bool \<times> group_payload list)) list"
  gs_kernel_open :: bool
  gs_kernel :: "kernel_event list"

datatype 'n hub_result = HubVoid | HubReply "'n hub_packet"

fun into_payload :: "group_broadcast \<Rightarrow> group_payload" where
  "into_payload (GbMessage sender key payload) = GroupMessage payload sender"
| "into_payload evt = GroupPayloadEvent evt"

definition gs_send_to_kernel :: "kernel_event \<Rightarrow> group_session \<Rightarrow> (unit, network_error) result \<times> group_session" where
  "gs_send_to_kernel e sess =
     (if gs_kernel_open sess then (Ok (), sess\<lparr>gs_kernel := gs_kernel sess @ [e]\<rparr>)
      else (Err (NetGeneric ''channel closed''), sess))"

text \<open>A signal for a group with a channel goes there, and is lost if nobody reads it.\<close>

definition forward_signal ::
    "ticket \<Rightarrow> message_group_key option \<Rightarrow> group_broadcast \<Rightarrow> group_session \<Rightarrow>
     ('n hub_result, network_error) result \<times> group_session" where
  "forward_signal ticket key broadcast sess =
     (case gs_implicated_cid sess of
        None \<Rightarrow> (Ok HubVoid, sess)
      | Some implicated_cid \<Rightarrow>
          (case Option.bind key (\<lambda>k. map_option (Pair k) (map_of (group_channels sess) k)) of
             Some (k, (True, received)) \<Rightarrow>
               (Ok HubVoid,
                sess\<lparr>group_channels := AList.update k (True, received @ [into_payload broadcast]) (group_channels sess)\<rparr>)
           | Some (k, (False, received)) \<Rightarrow> (Ok HubVoid, sess)
           | None \<Rightarrow>
               apfst (\<lambda>r. rbind (map_err (\<lambda>e. NetGeneric (''Kernel TX is dead: '' @ network_into_string e)) r) (\<lambda>_. Ok HubVoid))
                 (gs_send_to_kernel (KernelGroupEvent implicated_cid ticket broadcast) sess)))"

definition remove_channel :: "message_group_key \<Rightarrow> ('a, 'e) result \<times> group_session \<Rightarrow> ('a, 'e) result \<times> group_session" where
  "remove_channel key r =
     (case fst r of
        Ok _ \<Rightarrow> (fst r, (snd r)\<lparr>group_channels := AList.delete key (group_channels (snd r))\<rparr>)
      | _ \<Rightarrow> r)"

definition setup_group_channel_endpoints ::
    "message_group_key \<Rightarrow> group_session \<Rightarrow> (u64, network_error) result \<times> group_session" where
  "setup_group_channel_endpoints key sess =
     (case gs_cnac_cid sess of
        None \<Rightarrow> (Err (InternalError ''CNAC not loaded''), sess)
      | Some implicated_cid \<Rightarrow>
          if map_of (group_channels sess) key \<noteq> None
          then (Err (InternalError ''Group channel already exists locally''), sess)
          else (Ok implicated_cid, sess\<lparr>group_channels := AList.update key (True, []) (group_channels sess)\<rparr>))"

definition create_group_channel ::
    "ticket \<Rightarrow> message_group_key \<Rightarrow> group_session \<Rightarrow> ('n hub_result, network_error) result \<times> group_session" where
  "create_group_channel ticket key sess =
     (case setup_group_channel_endpoints key sess of
        (Ok implicated_cid, sess') \<Rightarrow>
          apfst (\<lambda>r. rbind r (\<lambda>_. Ok HubVoid)) (gs_send_to_kernel (KernelGroupChannelCreated ticket key implicated_cid) sess')
      | (Err e, sess') \<Rightarrow> (Err e, sess')
      | (Panic, sess') \<Rightarrow> (Panic, sess'))"

definition permission_gate :: "u64 \<Rightarrow> message_group_key \<Rightarrow> bool" where
  "permission_gate implicated_cid key = (implicated_cid = mgk_cid key)"

section \<open>The handler\<close>

text \<open>
  The environment of a call: the backend, the codec of letters, the letter identifiers, and of the packet the ticket,
  the time, the security level and the CID its header carries.
\<close>

record ('s, 'n) group_env =
  ge_pers :: "'s persistence"
  ge_ser :: "'n peer_signal \<Rightarrow> (bytes, string) result"
  ge_uuid :: "nat \<Rightarrow> string"
  ge_timestamp :: i64
  ge_ticket :: ticket
  ge_level :: security_level
  ge_header_cid :: u64

type_synonym ('s, 'n, 'f) group_outcome =
  "('n hub_result, network_error) result \<times> ('s, 'n, 'f) hub \<times> group_session"

definition reply :: "('s, 'n) group_env \<Rightarrow> group_broadcast \<Rightarrow> ('n hub_result, network_error) result" where
  "reply env signal = Ok (HubReply (GroupPacket signal (ge_ticket env) (ge_timestamp env) (ge_level env)))"

definition at_client ::
    "('s, 'n, 'f) hub \<Rightarrow> ('n hub_result, network_error) result \<times> group_session \<Rightarrow> ('s, 'n, 'f) group_outcome" where
  "at_client hub r = (fst r, hub, snd r)"

definition on_request_join ::
    "('s, 'n) group_env \<Rightarrow> message_group_key \<Rightarrow> ('s, 'n, 'f) hub \<Rightarrow> group_session \<Rightarrow> ('s, 'n, 'f) group_outcome" where
  "on_request_join env key hub sess =
     (if gs_is_server sess
      then
        let r = request_join (ge_header_cid env) key (hub_groups hub);
            hub1 = set_groups (snd r) hub
        in (case fst r of
              None \<Rightarrow> (reply env (GbGroupNonExists key), hub1, sess)
            | Some True \<Rightarrow> (reply env (GbAcceptMembershipResponse key True), hub1, sess)
            | Some False \<Rightarrow>
                (case route_packet_to (mgk_cid key)
                        (GroupPacket (GbRequestJoin key) (ge_ticket env) (ge_timestamp env) (ge_level env)) hub1 of
                   (Panic, hub2) \<Rightarrow> (Panic, hub2, sess)
                 | (res, hub2) \<Rightarrow> (reply env (GbSignalResponse res), hub2, sess)))
      else at_client hub (forward_signal (ge_ticket env) (Some key) (GbRequestJoin key) sess))"

text \<open>\<open>unwrap_or(false)\<close> of a broadcast.\<close>

definition or_false :: "(bool, 'e) result \<Rightarrow> bool" where
  "or_false r = (case r of Ok b \<Rightarrow> b | _ \<Rightarrow> False)"

definition on_message ::
    "('s, 'n) group_env \<Rightarrow> u64 \<Rightarrow> message_group_key \<Rightarrow> bytes \<Rightarrow> ('s, 'n, 'f) hub \<Rightarrow> group_session \<Rightarrow>
     ('s, 'n, 'f) group_outcome" where
  "on_message env username key message hub sess =
     (if gs_is_server sess
      then
        (case broadcast_signal_to_group (ge_pers env) (ge_ser env) (ge_uuid env) (ge_header_cid env) (ge_timestamp env)
                (ge_ticket env) key (GbMessage username key message) (ge_level env) hub of
           (Panic, hub') \<Rightarrow> (Panic, hub', sess)
         | (success, hub') \<Rightarrow> (reply env (GbMessageResponse key (or_false success)), hub', sess))
      else at_client hub (forward_signal (ge_ticket env) (Some key) (GbMessage username key message) sess))"

definition on_accept_membership ::
    "('s, 'n) group_env \<Rightarrow> message_group_key \<Rightarrow> ('s, 'n, 'f) hub \<Rightarrow> group_session \<Rightarrow> ('s, 'n, 'f) group_outcome" where
  "on_accept_membership env key hub sess =
     (let r = upgrade_peer_in_group key (ge_header_cid env) (hub_groups hub);
          hub1 = set_groups (snd r) hub
      in if fst r
         then
           (case broadcast_signal_to_group (ge_pers env) (ge_ser env) (ge_uuid env) (ge_header_cid env) (ge_timestamp env)
                   (ge_ticket env) key (GbMemberStateChanged key (EnteredGroup [ge_header_cid env])) (ge_level env) hub1 of
              (Panic, hub2) \<Rightarrow> (Panic, hub2, sess)
            | (_, hub2) \<Rightarrow> (reply env (GbAcceptMembershipResponse key True), hub2, sess))
         else (reply env (GbAcceptMembershipResponse key False), hub1, sess))"
definition on_kick ::
    "('s, 'n) group_env \<Rightarrow> alter_mode \<Rightarrow> message_group_key \<Rightarrow> u64 list \<Rightarrow> (bool \<Rightarrow> group_broadcast) \<Rightarrow>
     ('s, 'n, 'f) hub \<Rightarrow> group_session \<Rightarrow> ('s, 'n, 'f) group_outcome" where
  "on_kick env mode key peers response hub sess =
     (case kick_from_message_group (ge_pers env) (ge_ser env) (ge_uuid env) mode (ge_header_cid env) (ge_timestamp env)
             (ge_ticket env) key peers (ge_level env) hub of
        (Panic, hub') \<Rightarrow> (Panic, hub', sess)
      | (success, hub') \<Rightarrow> (reply env (response (or_false success)), hub', sess))"

definition leave_room_message :: "u64 \<Rightarrow> message_group_key \<Rightarrow> bool \<Rightarrow> string" where
  "leave_room_message cid key success =
     (if success then ''Successfully removed peer '' else ''Unable to remove peer '') @ decimal (unat cid) @
     '' from room '' @ decimal (unat (mgk_cid key)) @ '':'' @ decimal (unat (mgid key))"

definition on_add ::
    "('s, 'n) group_env \<Rightarrow> message_group_key \<Rightarrow> u64 list \<Rightarrow> ('s, 'n, 'f) hub \<Rightarrow> group_session \<Rightarrow> ('s, 'n, 'f) group_outcome" where
  "on_add env key peers hub sess =
     (case p_mutuals (ge_pers env) (ge_header_cid env) peers (hub_store hub) of
        Err e \<Rightarrow> (Err (account_to_network_error e), hub, sess)
      | Panic \<Rightarrow> (Panic, hub, sess)
      | Ok peer_statuses \<Rightarrow>
          if message_group_exists key (hub_groups hub)
          then
            (case send_group_broadcast_signal_to (ge_pers env) (ge_ser env) (ge_uuid env) (ge_timestamp env)
                    (ge_ticket env) (zip peers peer_statuses) True (GbInvitation key) (ge_level env) hub of
               (Err e, hub1) \<Rightarrow> (Err (NetGeneric e), hub1, sess)
             | (Panic, hub1) \<Rightarrow> (Panic, hub1, sess)
             | (Ok (okay, failed), hub1) \<Rightarrow>
                 (reply env (GbAddResponse key (if failed = [] then None else Some failed)),
                  if okay = [] then hub1
                  else set_groups (add_pending_peers_to_group key okay (hub_groups hub1)) hub1, sess))
          else (reply env (GbGroupNonExists key), hub, sess))"

fun on_group_signal ::
    "('s, 'n) group_env \<Rightarrow> group_broadcast \<Rightarrow> ('s, 'n, 'f) hub \<Rightarrow> group_session \<Rightarrow> ('s, 'n, 'f) group_outcome" where
  "on_group_signal env (GbCreate initial_peers options) hub sess =
     (let r = create_message_group_and_notify (ge_timestamp env) (ge_ticket env) (ge_header_cid env) initial_peers
            (ge_level env) options hub
      in (reply env (GbCreateResponse (fst r)), snd r, sess))"
| "on_group_signal env (GbSignalResponse res) hub sess =
     at_client hub (forward_signal (ge_ticket env) None (GbSignalResponse res) sess)"
| "on_group_signal env (GbRequestJoin key) hub sess = on_request_join env key hub sess"
| "on_group_signal env (GbListGroupsFor owner) hub sess =
     (reply env (GbListResponse (case list_message_groups_for owner (hub_groups hub) of None \<Rightarrow> [] | Some ks \<Rightarrow> ks)), hub, sess)"
| "on_group_signal env (GbListResponse keys) hub sess =
     at_client hub (forward_signal (ge_ticket env) None (GbListResponse keys) sess)"
| "on_group_signal env (GbMemberStateChanged key state) hub sess =
     at_client hub (forward_signal (ge_ticket env) (Some key) (GbMemberStateChanged key state) sess)"
| "on_group_signal env (GbEnd key) hub sess =
     (if permission_gate (ge_header_cid env) key
      then
        let r = hub_remove_message_group (ge_header_cid env) (ge_timestamp env) (ge_ticket env) key (ge_level env) hub
        in (reply env (GbEndResponse key (fst r)), snd r, sess)
      else (Ok HubVoid, hub, sess))"
| "on_group_signal env (GbEndResponse key success) hub sess =
     at_client hub (remove_channel key (forward_signal (ge_ticket env) (Some key) (GbEndResponse key success) sess))"
| "on_group_signal env (GbDisconnected key) hub sess =
     at_client hub (remove_channel key (forward_signal (ge_ticket env) (Some key) (GbDisconnected key) sess))"
| "on_group_signal env (GbMessage username key message) hub sess = on_message env username key message hub sess"
| "on_group_signal env (GbMessageResponse key success) hub sess =
     at_client hub (forward_signal (ge_ticket env) (Some key) (GbMessageResponse key success) sess)"
| "on_group_signal env (GbAcceptMembership key) hub sess = on_accept_membership env key hub sess"
| "on_group_signal env (GbAcceptMembershipResponse key success) hub sess =
     at_client hub
       (if success then create_group_channel (ge_ticket env) key sess
        else forward_signal (ge_ticket env) (Some key) (GbAcceptMembershipResponse key success) sess)"
| "on_group_signal env (GbLeaveRoom key) hub sess =
     on_kick env AlterLeave key [ge_header_cid env]
       (\<lambda>success. GbLeaveRoomResponse key success (leave_room_message (ge_header_cid env) key success)) hub sess"
| "on_group_signal env (GbLeaveRoomResponse key success response) hub sess =
     at_client hub
       (remove_channel key (forward_signal (ge_ticket env) (Some key) (GbLeaveRoomResponse key success response) sess))"
| "on_group_signal env (GbAdd key peers) hub sess =
     (if permission_gate (ge_header_cid env) key then on_add env key peers hub sess else (Ok HubVoid, hub, sess))"
| "on_group_signal env (GbAddResponse key failed_peers) hub sess =
     at_client hub (forward_signal (ge_ticket env) (Some key) (GbAddResponse key failed_peers) sess)"
| "on_group_signal env (GbKick key peers) hub sess =
     (if permission_gate (ge_header_cid env) key
      then on_kick env AlterKick key peers (GbKickResponse key) hub sess
      else (Ok HubVoid, hub, sess))"
| "on_group_signal env (GbKickResponse key success) hub sess =
     at_client hub (forward_signal (ge_ticket env) (Some key) (GbKickResponse key success) sess)"
| "on_group_signal env (GbInvitation key) hub sess =
     at_client hub (forward_signal (ge_ticket env) (Some key) (GbInvitation key) sess)"
| "on_group_signal env (GbCreateResponse (Some key)) hub sess =
     at_client hub (create_group_channel (ge_ticket env) key sess)"
| "on_group_signal env (GbCreateResponse None) hub sess =
     at_client hub (forward_signal (ge_ticket env) None (GbCreateResponse None) sess)"
| "on_group_signal env (GbGroupNonExists key) hub sess =
     at_client hub (forward_signal (ge_ticket env) (Some key) (GbGroupNonExists key) sess)"
| "on_group_signal env (GbDeclineMembership key) hub sess =
     at_client hub (forward_signal (ge_ticket env) (Some key) (GbDeclineMembership key) sess)"

definition process_group_broadcast ::
    "(bytes \<Rightarrow> group_broadcast option) \<Rightarrow> ('s, 'n) group_env \<Rightarrow> bytes \<Rightarrow> ('s, 'n, 'f) hub \<Rightarrow> group_session \<Rightarrow>
     ('s, 'n, 'f) group_outcome" where
  "process_group_broadcast de env payload hub sess =
     (case de payload of
        None \<Rightarrow> (Ok HubVoid, hub, sess)
      | Some signal \<Rightarrow> on_group_signal env signal hub sess)"

section \<open>A message reaches the members\<close>

text \<open>
  C5: A message sent to a group through the server reaches the members but its sender, and nobody else. The server
  answers that it was sent, and hands the message to exactly those members it can reach, in the order of the member
  list. For a member with an account that it cannot reach it leaves a letter, whose fate is decided by what happens
  to that member first. Let other clients connect, be shut down and get mail meanwhile, and let this one get further
  letters that can be decoded: if the member connects then, it finds the message among its mail, provided the letters
  that waited before can be decoded; but if a former session of the member is shut down first, which is what
  follows when it was unreachable with its session still listed, the mailbox is emptied unread and the member finds
  nothing. The backend is the in-memory one in a state it can be in; the codec is assumed to encode this message and
  to decode what it encoded, and the identifiers of later letters to differ from those of this broadcast.
\<close>

theorem group_message_reaches_members:
  assumes "gs_is_server sess"
    and "get_peers_in_message_group key (hub_groups hub) = Some peers"
    and "ge_pers env = memory_persistence" "backend_sound (hub_store hub)"
    and "ge_ser env (BroadcastConnected (GbMessage sender key message)) = Ok letter"
    and "de letter = Ok (BroadcastConnected (GbMessage sender key message))"
  shows "\<exists>hub'. on_group_signal env (GbMessage sender key message) hub sess =
        (reply env (GbMessageResponse key True), hub', sess) \<and>
      hub_sent hub' = hub_sent hub @
        map (\<lambda>p. (p, GroupPacket (GbMessage sender key message) (ge_ticket env) (ge_timestamp env) (ge_level env)))
          (filter (\<lambda>p. p \<noteq> ge_header_cid env \<and> reachable hub p) peers) \<and>
      (\<forall>p \<in> set peers. p \<noteq> ge_header_cid env \<longrightarrow> \<not> reachable hub p \<longrightarrow> cid_is_registered p (hub_store hub) \<longrightarrow>
        (\<forall>k v. backend_contents (hub_store hub) p 0 MAILBOX k = Some v \<longrightarrow> (\<exists>signal. de v = Ok signal)) \<longrightarrow>
        (\<forall>events later. list_all (keeps_letters (ge_uuid env) (ge_ser env) de p) events \<longrightarrow>
          hub_layer later = foldl (mail_step memory_persistence (ge_ser env) de) (hub_layer hub') events \<longrightarrow>
          (\<exists>mail. fst (register_session_with_peer_layer memory_persistence de p later) = Ok (Some mail) \<and>
             BroadcastConnected (GbMessage sender key message) \<in> set mail) \<and>
          fst (register_session_with_peer_layer memory_persistence de p
             (later\<lparr>hub_layer := snd (on_session_shutdown memory_persistence p (hub_layer later))\<rparr>)) = Ok None))"
proof -
  define r where "r = broadcast_signal_to_group memory_persistence (ge_ser env) (ge_uuid env) (ge_header_cid env)
    (ge_timestamp env) (ge_ticket env) key (GbMessage sender key message) (ge_level env) hub"
  note sent = memory_store.broadcast_delivers [OF assms(4,5,2) r_def]
  have "on_group_signal env (GbMessage sender key message) hub sess = (reply env (GbMessageResponse key True), snd r, sess)"
    using assms(1,3) sent(1) by (cases r) (simp add: on_message_def r_def [symmetric] or_false_def)
  moreover have "(\<exists>mail. fst (register_session_with_peer_layer memory_persistence de p later) = Ok (Some mail) \<and>
        BroadcastConnected (GbMessage sender key message) \<in> set mail) \<and>
      fst (register_session_with_peer_layer memory_persistence de p
        (later\<lparr>hub_layer := snd (on_session_shutdown memory_persistence p (hub_layer later))\<rparr>)) = Ok None"
    if p: "p \<in> set peers" "p \<noteq> ge_header_cid env" "\<not> reachable hub p" "cid_is_registered p (hub_store hub)"
      and dec: "\<forall>k v. backend_contents (hub_store hub) p 0 MAILBOX k = Some v \<longrightarrow> (\<exists>signal. de v = Ok signal)"
      and events: "list_all (keeps_letters (ge_uuid env) (ge_ser env) de p) events"
      and later: "hub_layer later = foldl (mail_step memory_persistence (ge_ser env) de) (hub_layer (snd r)) events"
    for p events later
  proof -
    have "letter_waits (ge_uuid env) de letter (backend_contents (hub_store (snd r)) p 0 MAILBOX)"
      using sent(4,5) [OF p(4)] p(1-3) dec assms(6) unfolding letter_waits_def by metis
    then have waits: "backend_sound (pl_store (hub_layer later))"
        "letter_waits (ge_uuid env) de letter (backend_contents (pl_store (hub_layer later)) p 0 MAILBOX)"
      using memory_store.mail_run_keeps_letter [OF events, of "hub_layer (snd r)" letter] sent(3,6) p(4)
      unfolding later by (simp_all add: hub_store_def fun_eq_iff)
    then show ?thesis
      using memory_store.register_peer_mail [OF waits(1), of p _ letter de] memory_store.shutdown_loses_mail [OF waits(1)] assms(6)
      by (auto simp: register_session_with_peer_layer_def Let_def letter_waits_def)
  qed
  ultimately show ?thesis using sent(2) by blast
qed

text \<open>A server with three accounts, of which the second is connected, and a group of all three.\<close>

definition demo_group_hub :: "(backend, unit, unit) hub" where
  "demo_group_hub =
     \<lparr>hub_layer = (peer_layer_new demo_store)\<lparr>message_groups :=
        [(1, [(7, \<lparr>concurrent_peers = [(1, \<lparr>mgp_peer_cid = 1\<rparr>), (2, \<lparr>mgp_peer_cid = 2\<rparr>), (3, \<lparr>mgp_peer_cid = 3\<rparr>)],
                   pending_peers = [], mg_options = \<lparr>group_type = Private, mgo_id = 7\<rparr>\<rparr>)])]\<rparr>,
      hub_sessions = [(1, \<lparr>hs_stream = True, hs_open = True, hs_crypto = CryptoReady, hs_vconns = []\<rparr>),
                      (2, \<lparr>hs_stream = True, hs_open = True, hs_crypto = CryptoReady, hs_vconns = []\<rparr>)],
      hub_sent = [], hub_drawn = 0, hub_tasks = []\<rparr>"

definition demo_group_env :: "u64 \<Rightarrow> (backend, unit) group_env" where
  "demo_group_env cid =
     \<lparr>ge_pers = memory_persistence, ge_ser = (\<lambda>_. Ok [1]), ge_uuid = (\<lambda>n. replicate n CHR ''a''), ge_timestamp = 0,
      ge_ticket = 5, ge_level = Standard, ge_header_cid = cid\<rparr>"

definition demo_group_session :: group_session where
  "demo_group_session =
     \<lparr>gs_is_server = True, gs_implicated_cid = Some 1, gs_cnac_cid = Some 1, group_channels = [], gs_kernel_open = True,
      gs_kernel = []\<rparr>"

definition demo_message :: group_broadcast where
  "demo_message = GbMessage 1 \<lparr>mgk_cid = 1, mgid = 7\<rparr> [42]"

lemma demo_contents [simp]: "backend_contents demo_store p c k sk = None"
  by (simp add: backend_contents_def demo_store_simps slot_def or_default_def)

lemma demo_store_sound: "backend_sound demo_store"
  by (simp add: backend_sound_def demo_store_simps slot_def or_default_def)

theorem group_message_reaches_members_witness:
  "\<exists>hub' later. on_group_signal (demo_group_env 1) demo_message demo_group_hub demo_group_session =
     (reply (demo_group_env 1) (GbMessageResponse \<lparr>mgk_cid = 1, mgid = 7\<rparr> True), hub', demo_group_session) \<and>
   hub_sent hub' = [(2, GroupPacket demo_message 5 0 Standard)] \<and>
   hub_layer later = foldl (mail_step memory_persistence (ge_ser (demo_group_env 1)) (\<lambda>_. Ok (BroadcastConnected demo_message)))
     (hub_layer hub') [Connects 2, Mailed ''b'' 3 (SignalReceived 9), ShutsDown 1] \<and>
   (\<exists>mail. fst (register_session_with_peer_layer memory_persistence (\<lambda>_. Ok (BroadcastConnected demo_message)) 3 later) =
      Ok (Some mail) \<and> BroadcastConnected demo_message \<in> set mail) \<and>
   fst (register_session_with_peer_layer memory_persistence (\<lambda>_. Ok (BroadcastConnected demo_message)) 3
     (later\<lparr>hub_layer := snd (on_session_shutdown memory_persistence 3 (hub_layer later))\<rparr>)) = Ok None"
proof -
  let ?key = "\<lparr>mgk_cid = 1, mgid = 7\<rparr>" and ?de = "\<lambda>_. Ok (BroadcastConnected demo_message)"
    and ?events = "[Connects 2, Mailed ''b'' 3 (SignalReceived 9), ShutsDown 1]"
  have store: "hub_store demo_group_hub = demo_store"
    by (simp add: hub_store_def demo_group_hub_def peer_layer_new_def)
  have peers: "get_peers_in_message_group ?key (hub_groups demo_group_hub) = Some [1, 2, 3]"
    by (simp add: get_peers_in_message_group_def hub_groups_def demo_group_hub_def find_group_def)
  have online: "reachable demo_group_hub 1" "reachable demo_group_hub 2" "\<not> reachable demo_group_hub 3"
    by (simp_all add: reachable_def demo_group_hub_def)
  have reg: "cid_is_registered 3 demo_store" by (simp add: cid_is_registered_def demo_store_simps)
  have sent: "hub_sent demo_group_hub = []" by (simp add: demo_group_hub_def)
  have "''b'' \<noteq> replicate n CHR ''a''" for n by (cases n) simp_all
  then have events: "list_all (keeps_letters (ge_uuid (demo_group_env 1)) (ge_ser (demo_group_env 1)) ?de 3) ?events"
    by (auto simp: demo_group_env_def)
  have env: "gs_is_server demo_group_session" "ge_pers (demo_group_env 1) = memory_persistence"
      "ge_header_cid (demo_group_env 1) = 1" "ge_ticket (demo_group_env 1) = 5" "ge_timestamp (demo_group_env 1) = 0"
      "ge_level (demo_group_env 1) = Standard" "ge_ser (demo_group_env 1) (BroadcastConnected (GbMessage 1 ?key [42])) = Ok [1]"
    by (simp_all add: demo_group_session_def demo_group_env_def)
  obtain hub' where hub': "on_group_signal (demo_group_env 1) demo_message demo_group_hub demo_group_session =
      (reply (demo_group_env 1) (GbMessageResponse ?key True), hub', demo_group_session)"
      "hub_sent hub' = [(2, GroupPacket demo_message 5 0 Standard)]"
      "\<forall>events later. list_all (keeps_letters (ge_uuid (demo_group_env 1)) (ge_ser (demo_group_env 1)) ?de 3) events \<longrightarrow>
          hub_layer later = foldl (mail_step memory_persistence (ge_ser (demo_group_env 1)) ?de) (hub_layer hub') events \<longrightarrow>
          (\<exists>mail. fst (register_session_with_peer_layer memory_persistence ?de 3 later) = Ok (Some mail) \<and>
             BroadcastConnected demo_message \<in> set mail) \<and>
          fst (register_session_with_peer_layer memory_persistence ?de 3
             (later\<lparr>hub_layer := snd (on_session_shutdown memory_persistence 3 (hub_layer later))\<rparr>)) = Ok None"
    using group_message_reaches_members [where sess = demo_group_session and env = "demo_group_env 1" and hub = demo_group_hub
      and sender = 1 and message = "[42]" and letter = "[1]" and de = ?de, OF env(1) peers env(2) _ env(7)]
      demo_store_sound reg online sent by (auto simp: store env demo_message_def)
  let ?later = "hub'\<lparr>hub_layer := foldl (mail_step memory_persistence (ge_ser (demo_group_env 1)) ?de) (hub_layer hub') ?events\<rparr>"
  show ?thesis
    using hub'(1,2) hub'(3) [rule_format, OF events, of ?later] by (intro exI [of _ hub'] exI [of _ ?later]) simp
qed

section \<open>What the header decides\<close>

text \<open>
  The owner of a group is recognised by the CID in the packet header, which the sending client fills in: whatever
  session the packet came in on, a header with the CID of the owner ends the group for all its members.
\<close>

lemma forged_header_ends_group:
  assumes "ge_header_cid env = mgk_cid key" "find_group key (hub_groups hub) = Some g"
  shows "\<exists>hub'. on_group_signal env (GbEnd key) hub sess = (reply env (GbEndResponse key True), hub', sess) \<and>
    \<not> message_group_exists key (hub_groups hub')"
proof -
  have frame: "hub_groups (notify_all packet peers h) = hub_groups h" for packet peers and h :: "('a, 'b, 'c) hub"
  proof (induction peers arbitrary: h)
    case (Cons p peers)
    then show ?case
      using send_direct_reachable [of h p packet] send_direct_unreachable [of h p packet]
      by (cases "reachable h p") (auto simp: notify_all_def hub_groups_def)
  qed (simp add: notify_all_def)
  have "fst (pl_remove_message_group key (hub_groups hub)) = Some g"
    using assms(2) by (auto simp: pl_remove_message_group_def find_group_def split: option.splits bind_splits)
  then show ?thesis
    using assms(1) find_group_remove [of key key "hub_groups hub"]
    by (simp add: permission_gate_def hub_remove_message_group_def Let_def message_group_exists_def frame)
qed

text \<open>
  A member that was only invited cannot be kicked: the removal looks at the members alone, and the invitation can
  still be accepted afterwards.
\<close>

lemma kick_keeps_invitation:
  assumes "find_group key gs = Some g" "p \<in> invitees g"
  shows "fst (upgrade_peer_in_group key p (snd (remove_peers_from_message_group key [p] gs)))"
proof -
  obtain m where "map_of (pending_peers g) p = Some m"
    using assms(2) by (auto simp: invitees_def dest: weak_map_of_SomeI)
  then show ?thesis using assms(1)
    by (auto simp: upgrade_peer_in_group_def remove_peers_from_message_group_def Let_def find_group_put)
qed

end
