(* ===== verification/Peer_Signals.thy ===== *)
theory Peer_Signals
  imports Group_Broadcast
begin

text \<open>
  The handler of the signals that clients exchange through a server: \<open>process_signal_command_as_server\<close> of
  \<open>citadel_proto/src/proto/packet_processor/peer/peer_cmd_packet.rs\<close> with the routing functions at the end of that file
  and the response phases of \<open>peer/server/post_register.rs\<close> and \<open>peer/server/post_connect.rs\<close>. A request is routed to its
  target and remembered; the answer consumes it and completes the registration or the connection. Tasks that the
  handler spawns are collected in \<open>hub_tasks\<close> and run by \<open>run_task\<close>, in any order. A call that waits for a lock it holds
  itself never returns, which is the value \<open>None\<close>.

  Shown: the server sets up a registration only for an answer to a request that waits under the ticket of the answer,
  or for two requests that cross, and consumes that request. The lemmas after it show what the handlers do not check.
\<close>

section \<open>The environment of a signal\<close>

datatype timeout_action = SendStale u64 ticket i64 security_level | DoNothing

text \<open>
  The backend, the letter codec and identifiers, the key the timer queue gives next, the hash that turns a user name
  into a CID; of the session the packet came in on its CID, the CID of its ratchet and its address data; of the packet
  the CID in its header, its ticket, its security level, and the time of its processing.
\<close>

record ('s, 'n) signal_env =
  se_pers :: "'s persistence"
  se_ser :: "'n peer_signal \<Rightarrow> (bytes, string) result"
  se_uuid :: "nat \<Rightarrow> string"
  se_delay_key :: nat
  se_username_to_cid :: "string \<Rightarrow> u64"
  se_session_cid :: u64
  se_ratchet_cid :: u64
  se_nat_info :: "'n option"
  se_header_cid :: u64
  se_ticket :: ticket
  se_timestamp :: i64
  se_level :: security_level

record 'n signal_session =
  ss_kernel_open :: bool
  ss_kernel :: "('n peer_signal \<times> ticket) list"
  ss_removed_udp :: "u64 list"

type_synonym ('s, 'n) signal_hub = "('s, 'n, timeout_action) hub"
type_synonym ('s, 'n) signal_outcome = "(('n hub_result, network_error) result \<times> ('s, 'n) signal_hub) option"

definition signal_packet :: "('s, 'n) signal_env \<Rightarrow> ticket \<Rightarrow> 'n peer_signal \<Rightarrow> 'n hub_packet" where
  "signal_packet env ticket signal = SignalPacket signal ticket (se_timestamp env) (se_level env)"

definition reply_to_sender :: "('s, 'n) signal_env \<Rightarrow> ticket \<Rightarrow> 'n peer_signal \<Rightarrow> ('n hub_result, network_error) result" where
  "reply_to_sender env ticket signal = Ok (HubReply (signal_packet env ticket signal))"

definition reply_to_sender_err :: "('s, 'n) signal_env \<Rightarrow> ticket \<Rightarrow> string \<Rightarrow> ('n hub_result, network_error) result" where
  "reply_to_sender_err env ticket err = reply_to_sender env ticket (SignalError ticket err)"

section \<open>Routing\<close>

definition route_signal_and_register_ticket_forwards ::
    "('s, 'n) signal_env \<Rightarrow> 'n peer_signal \<Rightarrow> u64 \<Rightarrow> u64 \<Rightarrow> ('s, 'n) signal_hub \<Rightarrow>
     ('n hub_result, network_error) result \<times> ('s, 'n) signal_hub" where
  "route_signal_and_register_ticket_forwards env signal implicated_cid target hub =
     (case route_signal_primary (se_pers env) (se_ser env) (se_uuid env) (se_delay_key env) implicated_cid target
             (se_ticket env) signal (signal_packet env (se_ticket env) signal)
             (SendStale (se_session_cid env) (se_ticket env) (se_timestamp env) (se_level env)) hub of
        (Ok _, hub') \<Rightarrow> (reply_to_sender env (se_ticket env) (SignalReceived (se_ticket env)), hub')
      | (Err err, hub') \<Rightarrow> (reply_to_sender_err env (se_ticket env) err, hub')
      | (Panic, hub') \<Rightarrow> (Panic, hub'))"

text \<open>\<open>finish\<close> is the closure that runs when the answer has been passed on; \<open>None\<close> when it never returns.\<close>

definition route_signal_response ::
    "('s, 'n) signal_env \<Rightarrow> 'n peer_signal \<Rightarrow> u64 \<Rightarrow> u64 \<Rightarrow> ticket \<Rightarrow>
     (('s, 'n) signal_hub \<Rightarrow> ('s, 'n) signal_hub option) \<Rightarrow> ('s, 'n) signal_hub \<Rightarrow> ('s, 'n) signal_outcome" where
  "route_signal_response env signal implicated_cid target ticket finish hub =
     (case route_signal_response_primary implicated_cid target ticket (signal_packet env ticket signal) hub of
        (Ok _, hub') \<Rightarrow> map_option (\<lambda>h. (reply_to_sender env ticket (SignalReceived ticket), h)) (finish hub')
      | (Err err, hub') \<Rightarrow> Some (reply_to_sender_err env ticket err, hub')
      | (Panic, hub') \<Rightarrow> Some (Panic, hub'))"

definition spawn_task :: "'n hub_task \<Rightarrow> ('s, 'n, 'f) hub \<Rightarrow> ('s, 'n, 'f) hub" where
  "spawn_task t hub = hub\<lparr>hub_tasks := hub_tasks hub @ [t]\<rparr>"

definition handle_response_phase_post_register ::
    "('s, 'n) signal_env \<Rightarrow> peer_connection_type \<Rightarrow> string \<Rightarrow> peer_response \<Rightarrow> ticket \<Rightarrow> u64 \<Rightarrow> u64 \<Rightarrow>
     ('s, 'n) signal_hub \<Rightarrow> ('s, 'n) signal_outcome" where
  "handle_response_phase_post_register env peer_conn_type username peer_response ticket implicated_cid target hub =
     route_signal_response env (PostRegister peer_conn_type username None (Some ticket) (Some peer_response))
       implicated_cid target ticket
       (\<lambda>h. Some (if peer_response = RespDecline then h else spawn_task (TaskRegister implicated_cid target) h)) hub"

definition insert_new_virtual_connection_as_server ::
    "u64 \<Rightarrow> u64 \<Rightarrow> virtual_connection_type \<Rightarrow> ('s, 'n, 'f) hub \<Rightarrow> ('s, 'n, 'f) hub" where
  "insert_new_virtual_connection_as_server own_cid target connection_type hub =
     (case map_of (hub_sessions hub) own_cid of
        None \<Rightarrow> hub
      | Some sess \<Rightarrow>
          hub\<lparr>hub_sessions := AList.update own_cid
            (sess\<lparr>hs_vconns := AList.update target connection_type (hs_vconns sess)\<rparr>) (hub_sessions hub)\<rparr>)"

text \<open>
  The virtual connection is entered into both sessions, with the locks of both state containers held; when the
  answering session is the session of the target itself, the second lock is never granted.
\<close>

definition forge_virtual_connection ::
    "u64 \<Rightarrow> u64 \<Rightarrow> u64 \<Rightarrow> ('s, 'n, 'f) hub \<Rightarrow> ('s, 'n, 'f) hub option" where
  "forge_virtual_connection own_cid implicated_cid target hub =
     (case (map_of (hub_sessions hub) own_cid, map_of (hub_sessions hub) target) of
        (Some this_sess, Some peer_sess) \<Rightarrow>
          if hs_stream this_sess \<and> hs_stream peer_sess
          then
            if own_cid = target then None
            else Some (insert_new_virtual_connection_as_server target implicated_cid (LocalGroupPeer target implicated_cid)
                   (insert_new_virtual_connection_as_server own_cid target (LocalGroupPeer implicated_cid target) hub))
          else Some hub
      | _ \<Rightarrow> Some hub)"

definition handle_response_phase_post_connect ::
    "('s, 'n) signal_env \<Rightarrow> peer_connection_type \<Rightarrow> ticket \<Rightarrow> peer_response \<Rightarrow> session_security_settings \<Rightarrow> udp_mode \<Rightarrow>
     u64 \<Rightarrow> u64 \<Rightarrow> ('s, 'n) signal_hub \<Rightarrow> ('s, 'n) signal_outcome" where
  "handle_response_phase_post_connect env peer_conn_type ticket peer_response settings udp_enabled implicated_cid target hub =
     route_signal_response env (PostConnect peer_conn_type (Some ticket) (Some peer_response) settings udp_enabled)
       implicated_cid target ticket (forge_virtual_connection (se_session_cid env) implicated_cid target) hub"

section \<open>The handler\<close>

fun with_nat_info :: "'n \<Rightarrow> 'n key_exchange_process \<Rightarrow> 'n key_exchange_process" where
  "with_nat_info info (KepStage1 b v) = KepStage1 b (Some info)"
| "with_nat_info info (KepStage2 t v) = KepStage2 t (Some info)"
| "with_nat_info info kep = kep"

definition on_kem ::
    "('s, 'n) signal_env \<Rightarrow> peer_connection_type \<Rightarrow> 'n key_exchange_process \<Rightarrow> ('s, 'n) signal_hub \<Rightarrow> ('s, 'n) signal_outcome" where
  "on_kem env conn kep hub =
     (case se_nat_info env of
        None \<Rightarrow> Some (Ok HubVoid, hub)
      | Some peer_nat_info \<Rightarrow>
          if se_ratchet_cid env = get_original_target_cid conn then Some (Ok HubVoid, hub)
          else
            (case send_signal_to_peer_direct (get_original_target_cid conn)
                    (signal_packet env (se_ticket env) (Kem conn (with_nat_info peer_nat_info kep))) hub of
               (Ok _, hub') \<Rightarrow> Some (Ok HubVoid, hub')
             | (Err err, hub') \<Rightarrow> Some (reply_to_sender_err env (se_ticket env) (network_into_string err), hub')
             | (Panic, hub') \<Rightarrow> Some (Panic, hub')))"

text \<open>A registration request, to a CID or to a user name, and the answer to one.\<close>

definition post_register_request ::
    "('s, 'n) signal_env \<Rightarrow> string \<Rightarrow> u64 \<Rightarrow> ('s, 'n) signal_hub \<Rightarrow> ('s, 'n) signal_outcome" where
  "post_register_request env username target hub =
     (let implicated_cid = se_header_cid env;
          peer_conn_type = HyperLANPeerToHyperLANPeer implicated_cid target
      in case check_simultaneous_register implicated_cid target (hub_layer hub) of
           Some ticket_new \<Rightarrow>
             (case handle_response_phase_post_register env peer_conn_type username (RespAccept (Some username)) ticket_new
                     implicated_cid target hub of
                None \<Rightarrow> None
              | Some (Err e, hub1) \<Rightarrow> Some (Err e, hub1)
              | Some (Panic, hub1) \<Rightarrow> Some (Panic, hub1)
              | Some (Ok _, hub1) \<Rightarrow>
                  (case p_username (se_pers env) target (hub_store hub1) of
                     Err e \<Rightarrow> Some (Err (account_to_network_error e), hub1)
                   | Panic \<Rightarrow> Some (Panic, hub1)
                   | Ok peer_username \<Rightarrow>
                       Some (reply_to_sender env (se_ticket env)
                         (PostRegister (HyperLANPeerToHyperLANPeer target implicated_cid)
                            (case peer_username of None \<Rightarrow> '''' | Some u \<Rightarrow> u) peer_username (Some (se_ticket env))
                            (Some (RespAccept peer_username))), hub1)))
         | None \<Rightarrow>
             if map_option hs_stream (map_of (hub_sessions hub) (se_session_cid env)) \<noteq> Some True then Some (Ok HubVoid, hub)
             else Some (route_signal_and_register_ticket_forwards env
                    (PostRegister peer_conn_type username None (Some (se_ticket env)) None) implicated_cid target hub))"

definition on_post_register ::
    "('s, 'n) signal_env \<Rightarrow> peer_connection_type \<Rightarrow> string \<Rightarrow> string option \<Rightarrow> peer_response option \<Rightarrow>
     ('s, 'n) signal_hub \<Rightarrow> ('s, 'n) signal_outcome" where
  "on_post_register env peer_conn_type username peer_username_opt peer_response hub =
     (case peer_conn_type of
        HyperLANPeerToHyperWANPeer _ _ _ \<Rightarrow> Some (Ok HubVoid, hub)
      | HyperLANPeerToHyperLANPeer _ target \<Rightarrow>
          (case peer_response of
             Some peer_response \<Rightarrow>
               handle_response_phase_post_register env peer_conn_type username peer_response (se_ticket env)
                 (se_header_cid env) target hub
           | None \<Rightarrow>
               post_register_request env username
                 (case peer_username_opt of Some peer_username \<Rightarrow> se_username_to_cid env peer_username | None \<Rightarrow> target) hub))"

definition on_deregister ::
    "('s, 'n) signal_env \<Rightarrow> peer_connection_type \<Rightarrow> ('s, 'n) signal_hub \<Rightarrow> ('s, 'n) signal_outcome" where
  "on_deregister env peer_conn_type hub =
     (case peer_conn_type of
        HyperLANPeerToHyperWANPeer _ _ _ \<Rightarrow> Some (Ok HubVoid, hub)
      | HyperLANPeerToHyperLANPeer implicated_cid target \<Rightarrow>
          let simultaneous = (check_simulataneous_deregister implicated_cid target (hub_layer hub) \<noteq> None);
              r = (if simultaneous then (Ok (), hub_store hub)
                   else p_deregister (se_pers env) implicated_cid target (hub_store hub));
              hub1 = set_store (snd r) hub
          in case fst r of
               Panic \<Rightarrow> Some (Panic, hub1)
             | Err err \<Rightarrow> Some (reply_to_sender_err env (se_ticket env) (into_string err), hub1)
             | Ok _ \<Rightarrow>
                 let hub2 = (if simultaneous then hub1
                             else track (se_delay_key env) implicated_cid (se_ticket env) (DeregistrationSuccess target)
                                    DoNothing hub1);
                     s = send_signal_to_peer target (se_ticket env) (DeregistrationSuccess implicated_cid)
                           (se_timestamp env) (se_level env) hub2
                 in Some (reply_to_sender env (se_ticket env) (DeregistrationSuccess target), snd s))"

definition on_post_connect ::
    "('s, 'n) signal_env \<Rightarrow> peer_connection_type \<Rightarrow> peer_response option \<Rightarrow> session_security_settings \<Rightarrow> udp_mode \<Rightarrow>
     ('s, 'n) signal_hub \<Rightarrow> ('s, 'n) signal_outcome" where
  "on_post_connect env peer_conn_type peer_response settings udp_enabled hub =
     (case peer_conn_type of
        HyperLANPeerToHyperWANPeer _ _ _ \<Rightarrow> Some (Ok HubVoid, hub)
      | HyperLANPeerToHyperLANPeer implicated_cid target \<Rightarrow>
          (case peer_response of
             Some peer_response \<Rightarrow>
               handle_response_phase_post_connect env peer_conn_type (se_ticket env) peer_response settings udp_enabled
                 implicated_cid target hub
           | None \<Rightarrow>
               if map_option hs_stream (map_of (hub_sessions hub) (se_session_cid env)) \<noteq> Some True then Some (Ok HubVoid, hub)
               else
                 (case check_simultaneous_connect implicated_cid target (hub_layer hub) of
                    Some ticket_new \<Rightarrow>
                      map_option (\<lambda>(r, hub'). (rbind r (\<lambda>_. Ok HubVoid), hub'))
                        (handle_response_phase_post_connect env peer_conn_type ticket_new (RespAccept None) settings
                           udp_enabled implicated_cid target hub)
                  | None \<Rightarrow>
                      Some (route_signal_and_register_ticket_forwards env
                        (PostConnect peer_conn_type (Some (se_ticket env)) None settings udp_enabled) implicated_cid target hub))))"

text \<open>The connection is given up by a task that waits until no packet has passed for a while.\<close>

definition on_disconnect ::
    "('s, 'n) signal_env \<Rightarrow> peer_connection_type \<Rightarrow> peer_response option \<Rightarrow> ('s, 'n) signal_hub \<Rightarrow> ('s, 'n) signal_outcome" where
  "on_disconnect env peer_conn_type resp hub =
     (case peer_conn_type of
        HyperLANPeerToHyperWANPeer _ _ _ \<Rightarrow> Some (Ok HubVoid, hub)
      | HyperLANPeerToHyperLANPeer implicated_cid target \<Rightarrow>
          (case Option.bind (map_of (hub_sessions hub) (se_session_cid env)) (\<lambda>s. map_of (hs_vconns s) target) of
             None \<Rightarrow> Some (Ok HubVoid, hub)
           | Some v_conn \<Rightarrow>
               let text = ''Peer '' @ decimal (unat implicated_cid) @ '' closed the virtual connection to '' @ decimal (unat target);
                   signal = PsDisconnect (HyperLANPeerToHyperLANPeer implicated_cid target)
                     (Some (case resp of None \<Rightarrow> RespDisconnected text | Some r \<Rightarrow> r))
               in Some (Ok HubVoid,
                    spawn_task (TaskDisconnect (se_session_cid env) implicated_cid target (signal_packet env (se_ticket env) signal)) hub)))"

text \<open>The tasks: a failed registration is only logged, one that never returns is \<open>None\<close>.\<close>

fun run_task :: "'s persistence \<Rightarrow> 'n hub_task \<Rightarrow> ('s, 'n, 'f) hub \<Rightarrow> ('s, 'n, 'f) hub option" where
  "run_task pers (TaskRegister cid0 cid1) hub =
     map_option (\<lambda>r. set_store (snd r) hub) (p_register pers cid0 cid1 (hub_store hub))"
| "run_task pers (TaskDisconnect own_cid implicated_cid target packet) hub =
     (case map_of (hub_sessions hub) own_cid of
        None \<Rightarrow> Some (snd (disconnect_virtual_conn implicated_cid target packet hub))
      | Some sess \<Rightarrow>
          Some (snd (disconnect_virtual_conn implicated_cid target packet
            (hub\<lparr>hub_sessions := AList.update own_cid (sess\<lparr>hs_vconns := AList.delete target (hs_vconns sess)\<rparr>)
               (hub_sessions hub)\<rparr>))))"

definition ss_send_to_kernel ::
    "'n peer_signal \<Rightarrow> ticket \<Rightarrow> 'n signal_session \<Rightarrow> ('n hub_result, network_error) result \<times> 'n signal_session" where
  "ss_send_to_kernel signal ticket ss =
     (if ss_kernel_open ss then (Ok HubVoid, ss\<lparr>ss_kernel := ss_kernel ss @ [(signal, ticket)]\<rparr>)
      else (Err (NetGeneric ''channel closed''), ss))"

definition keep_session ::
    "'n signal_session \<Rightarrow> ('s, 'n) signal_outcome \<Rightarrow>
     (('n hub_result, network_error) result \<times> ('s, 'n) signal_hub \<times> 'n signal_session) option" where
  "keep_session ss oc = map_option (\<lambda>(r, hub). (r, hub, ss)) oc"

fun list_response ::
    "(peer_response option \<Rightarrow> 'n peer_signal) \<Rightarrow> ('s, 'n) signal_env \<Rightarrow> (u64 list option, account_error) result \<Rightarrow>
     ('s, 'n) signal_hub \<Rightarrow> ('s, 'n) signal_outcome" where
  "list_response f env (Ok (Some cids)) hub =
     Some (reply_to_sender env (se_ticket env) (f (Some (RespRegisteredCids cids (check_online_status cids hub)))), hub)"
| "list_response f env (Ok None) hub = Some (reply_to_sender env (se_ticket env) (f None), hub)"
| "list_response f env (Err e) hub = Some (Err (account_to_network_error e), hub)"
| "list_response f env Panic hub = Some (Panic, hub)"

fun process_signal_command_as_server ::
    "('s, 'n) signal_env \<Rightarrow> 'n peer_signal \<Rightarrow> ('s, 'n) signal_hub \<Rightarrow> 'n signal_session \<Rightarrow>
     (('n hub_result, network_error) result \<times> ('s, 'n) signal_hub \<times> 'n signal_session) option" where
  "process_signal_command_as_server env (Kem conn kep) hub ss = keep_session ss (on_kem env conn kep hub)"
| "process_signal_command_as_server env (PostRegister conn username peer_username ticket_opt response) hub ss =
     keep_session ss (on_post_register env conn username peer_username response hub)"
| "process_signal_command_as_server env (Deregister conn) hub ss = keep_session ss (on_deregister env conn hub)"
| "process_signal_command_as_server env (PostConnect conn ticket_opt response settings udp) hub ss =
     keep_session ss (on_post_connect env conn response settings udp hub)"
| "process_signal_command_as_server env (PsDisconnect conn resp) hub ss = keep_session ss (on_disconnect env conn resp hub)"
| "process_signal_command_as_server env (GetRegisteredPeers conn resp limit) hub ss =
     keep_session ss
       (case conn of
          HyperLANPeerToHyperLANServer _ \<Rightarrow>
            list_response (\<lambda>r. GetRegisteredPeers conn r limit) env (p_impersonal (se_pers env) limit (hub_store hub)) hub
        | HyperLANPeerToHyperWANServer _ _ \<Rightarrow> Some (Ok HubVoid, hub))"
| "process_signal_command_as_server env (GetMutuals conn resp) hub ss =
     keep_session ss
       (case conn of
          HyperLANPeerToHyperLANServer implicated_cid \<Rightarrow>
            list_response (GetMutuals conn) env (p_peer_list (se_pers env) implicated_cid (hub_store hub)) hub
        | HyperLANPeerToHyperWANServer _ _ \<Rightarrow> Some (Ok HubVoid, hub))"
| "process_signal_command_as_server env (BroadcastConnected b) hub ss = Some (Ok HubVoid, hub, ss)"
| "process_signal_command_as_server env (PostFileUploadRequest conn metadata ticket) hub ss = Some (Ok HubVoid, hub, ss)"
| "process_signal_command_as_server env (AcceptFileUploadRequest conn ticket) hub ss = Some (Ok HubVoid, hub, ss)"
| "process_signal_command_as_server env (SignalError ticket err) hub ss =
     (let r = ss_send_to_kernel (SignalError ticket err) ticket ss in Some (fst r, hub, snd r))"
| "process_signal_command_as_server env (SignalReceived ticket) hub ss =
     (let r = ss_send_to_kernel (SignalReceived ticket) ticket ss in Some (fst r, hub, snd r))"
| "process_signal_command_as_server env (DeregistrationSuccess cid) hub ss = Some (Ok HubVoid, hub, ss)"
| "process_signal_command_as_server env (DisconnectUDP v_conn) hub ss =
     Some (Ok HubVoid, hub, ss\<lparr>ss_removed_udp := ss_removed_udp ss @ [get_target_cid v_conn]\<rparr>)"

section \<open>Registrations answer requests\<close>

text \<open>The postings of a client have one entry per ticket.\<close>

definition ticketed :: "('s, 'n, 'f) peer_layer \<Rightarrow> bool" where
  "ticketed self \<longleftrightarrow> (\<forall>cid m. map_of (observed_postings self) cid = Some m \<longrightarrow> distinct (map fst m))"

lemma ticketedD: "ticketed self \<Longrightarrow> map_of (observed_postings self) cid = Some m \<Longrightarrow> distinct (map fst m)"
  by (simp add: ticketed_def)

lemma ticketed_update:
  "ticketed self \<Longrightarrow> distinct (map fst m) \<Longrightarrow>
   ticketed (self'\<lparr>observed_postings := AList.update cid m (observed_postings self)\<rparr>)"
  by (simp add: ticketed_def update_conv')

lemma ticketed_frame [simp]: "ticketed (self\<lparr>delay_queue := q\<rparr>) = ticketed self"
  "ticketed (self\<lparr>pl_store := s\<rparr>) = ticketed self" "ticketed (self\<lparr>message_groups := gs\<rparr>) = ticketed self"
  by (simp_all add: ticketed_def)

lemma ticketed_remove: "ticketed self \<Longrightarrow> ticketed (snd (remove_tracked_posting_inner cid t self))"
  by (auto simp: remove_tracked_posting_inner_def Let_def distinct_delete ticketedD split: option.split intro!: ticketed_update)

lemma ticketed_poll_purge: "ticketed self \<Longrightarrow> ticketed (snd (poll_purge due self))"
proof (induction due arbitrary: self)
  case (Cons k due)
  then show ?case
    by (auto simp: poll_purge_Cons distinct_delete ticketedD split: option.split intro!: Cons.IH ticketed_update
        dest: posting_Some_map)
qed simp

lemma layer_reach_ticketed: "layer_reach pers de self \<Longrightarrow> ticketed self"
proof (induction rule: layer_reach.induct)
  case (start s)
  show ?case by (simp add: ticketed_def peer_layer_new_def)
next
  case (connected self cid r self')
  then show ?case
    by (auto simp: register_peer_def Let_def ticketed_def entry_or_empty_def update_conv' split: if_splits)
next
  case (shutdown self cid u self')
  then show ?case
    by (auto simp: on_session_shutdown_def Let_def ticketed_def delete_conv' restrict_map_def split: if_splits)
next
  case (posted self k cid t signal f)
  then show ?case
    by (auto simp: insert_tracked_posting_def Let_def distinct_update ticketedD split: option.split intro!: ticketed_update)
next
  case (answered self cid t a self')
  then show ?case using ticketed_remove [of self cid t] by simp
next
  case (purged self due fs self')
  then show ?case using ticketed_poll_purge [of self due] by simp
qed simp_all

lemma simultaneous_posting:
  assumes "ticketed self" "check_simultaneous_event cid fx self = Some t"
  shows "\<exists>p. posting cid t self = Some p \<and> fx p"
proof -
  obtain m p where m: "map_of (observed_postings self) cid = Some m" and f: "List.find (\<lambda>e. fx (snd e)) m = Some (t, p)"
    using assms(2) by (auto simp: check_simultaneous_event_def split: bind_splits)
  have "(t, p) \<in> set m" "fx p" using f by (metis (mono_tags, lifting) find_Some_iff nth_mem snd_conv)+
  then show ?thesis using m ticketedD [OF assms(1) m] by (auto simp: posting_def)
qed

lemma simultaneous_register_posting:
  assumes "ticketed self" "check_simultaneous_register a b self = Some t"
  shows "\<exists>p c u pu to. posting b t self = Some p \<and> tp_signal p = PostRegister (HyperLANPeerToHyperLANPeer c a) u pu to None"
proof -
  from simultaneous_posting [OF assms(1) assms(2) [unfolded check_simultaneous_register_def]]
  obtain p where p: "posting b t self = Some p"
      "case tp_signal p of PostRegister (HyperLANPeerToHyperLANPeer _ x) _ _ _ None \<Rightarrow> x = a | _ \<Rightarrow> False"
    by blast
  then have "\<exists>c u pu to. tp_signal p = PostRegister (HyperLANPeerToHyperLANPeer c a) u pu to None"
    by (auto split: peer_signal.splits peer_connection_type.splits option.splits)
  with p(1) show ?thesis by blast
qed

text \<open>The routing functions spawn nothing.\<close>

lemma tasks_frame [simp]:
  "hub_tasks (set_store s hub) = hub_tasks hub" "hub_tasks (track k c t sg f hub) = hub_tasks hub"
  "hub_tasks (snd (stream_send c se pk hub)) = hub_tasks hub"
  by (simp_all add: set_store_def track_def stream_send_def)

lemma tasks_send_direct [simp]: "hub_tasks (snd (send_signal_to_peer_direct c pk hub)) = hub_tasks hub"
  by (auto simp: send_signal_to_peer_direct_def split: option.split result.split)

lemma tasks_send_signal [simp]: "hub_tasks (snd (send_signal_to_peer c t sg ts l hub)) = hub_tasks hub"
  by (auto simp: send_signal_to_peer_def split: option.split result.split)

lemma tasks_route_primary [simp]: "hub_tasks (snd (route_signal_primary pers ser uuid k a b t sg pk f hub)) = hub_tasks hub"
  by (auto simp: route_signal_primary_def Let_def split: option.split result.split bool.split)

lemma tasks_route_response [simp]: "hub_tasks (snd (route_signal_response_primary a b t pk hub)) = hub_tasks hub"
  by (auto simp: route_signal_response_primary_def Let_def stream_send_def split: option.split result.split prod.split)

lemma tasks_eqs:
  "send_signal_to_peer_direct c pk hub = (x, h) \<Longrightarrow> hub_tasks h = hub_tasks hub"
  "route_signal_primary pers ser uuid k a b t sg pk f hub = (y, h) \<Longrightarrow> hub_tasks h = hub_tasks hub"
  "route_signal_response_primary a b t pk hub = (z, h) \<Longrightarrow> hub_tasks h = hub_tasks hub"
  by (metis tasks_send_direct snd_conv, metis tasks_route_primary snd_conv, metis tasks_route_response snd_conv)

lemma tasks_forwards [simp]: "hub_tasks (snd (route_signal_and_register_ticket_forwards env sg a b hub)) = hub_tasks hub"
  by (auto simp: route_signal_and_register_ticket_forwards_def tasks_eqs split: prod.split result.split)

lemma route_response_Ok:
  assumes "timed (hub_layer hub)" "route_signal_response_primary a b t pk hub = (Ok sg, hub')"
  shows "session_active b hub \<and> (\<exists>p. posting b t (hub_layer hub) = Some p) \<and>
    posting c u (hub_layer hub') = (if c = b \<and> u = t then None else posting c u (hub_layer hub))"
  using assms(2) posting_removed [OF assms(1), of c u b t]
  by (auto simp: route_signal_response_primary_def remove_tracked_posting_cases [OF assms(1)] Let_def session_active_def
      stream_send_def split: option.splits result.splits prod.splits if_splits)

definition consumed :: "u64 \<Rightarrow> ticket \<Rightarrow> ('s, 'n, 'f) hub \<Rightarrow> ('s, 'n, 'f) hub \<Rightarrow> ('n, 'f) tracked_posting \<Rightarrow> bool" where
  "consumed b t hub hub' p \<longleftrightarrow> posting b t (hub_layer hub) = Some p \<and> posting b t (hub_layer hub') = None \<and>
     (\<forall>c u. (c, u) \<noteq> (b, t) \<longrightarrow> posting c u (hub_layer hub') = posting c u (hub_layer hub))"

lemma response_register_tasks:
  assumes "timed (hub_layer hub)"
    and "handle_response_phase_post_register env conn username resp t a b hub = Some (r, hub')"
  shows "hub_tasks hub' = hub_tasks hub \<or>
    hub_tasks hub' = hub_tasks hub @ [TaskRegister a b] \<and> resp \<noteq> RespDecline \<and> session_active b hub \<and>
    (\<exists>p. consumed b t hub hub' p)"
proof -
  let ?pk = "signal_packet env t (PostRegister conn username None (Some t) (Some resp))"
  obtain x h where x: "route_signal_response_primary a b t ?pk hub = (x, h)" by fastforce
  show ?thesis
  proof (cases x)
    case (Ok sg)
    from route_response_Ok [OF assms(1) x [unfolded Ok]] obtain p where "consumed b t hub h p" "session_active b hub"
      unfolding consumed_def by fastforce
    then show ?thesis
      using assms(2) x Ok tasks_eqs(3) [OF x]
      by (auto simp: handle_response_phase_post_register_def route_signal_response_def spawn_task_def consumed_def split: if_splits)
  qed (use assms(2) x tasks_eqs(3) [OF x] in
        \<open>auto simp: handle_response_phase_post_register_def route_signal_response_def\<close>)
qed

lemma forge_tasks: "forge_virtual_connection s a b hub = Some hub' \<Longrightarrow> hub_tasks hub' = hub_tasks hub"
  by (auto simp: forge_virtual_connection_def insert_new_virtual_connection_as_server_def split: option.splits if_splits)

lemma response_connect_tasks:
  "handle_response_phase_post_connect env conn t resp settings udp a b hub = Some (r, hub') \<Longrightarrow> hub_tasks hub' = hub_tasks hub"
  by (auto simp: handle_response_phase_post_connect_def route_signal_response_def tasks_eqs
      split: prod.splits result.splits dest!: forge_tasks tasks_eqs(3))

lemma post_register_tasks:
  assumes "timed (hub_layer hub)" "ticketed (hub_layer hub)"
    and "on_post_register env conn username peer_username response hub = Some (r, hub')"
  shows "hub_tasks hub' = hub_tasks hub \<or>
    (\<exists>b t p. hub_tasks hub' = hub_tasks hub @ [TaskRegister (se_header_cid env) b] \<and> session_active b hub \<and> consumed b t hub hub' p \<and>
      ((\<exists>resp c. response = Some resp \<and> resp \<noteq> RespDecline \<and> conn = HyperLANPeerToHyperLANPeer c b \<and> t = se_ticket env) \<or>
       response = None \<and>
       (\<exists>c u pu to. tp_signal p = PostRegister (HyperLANPeerToHyperLANPeer c (se_header_cid env)) u pu to None)))"
proof (cases conn)
  case (HyperLANPeerToHyperLANPeer c target)
  show ?thesis
  proof (cases response)
    case (Some resp)
    then show ?thesis using assms(3) HyperLANPeerToHyperLANPeer
      by (auto simp: on_post_register_def dest!: response_register_tasks [OF assms(1)])
  next
    case None
    define b where "b = (case peer_username of Some n \<Rightarrow> se_username_to_cid env n | None \<Rightarrow> target)"
    have run: "post_register_request env username b hub = Some (r, hub')"
      using assms(3) HyperLANPeerToHyperLANPeer None by (simp add: on_post_register_def b_def)
    show ?thesis
    proof (cases "check_simultaneous_register (se_header_cid env) b (hub_layer hub)")
      case None
      then show ?thesis using run
        by (auto simp: post_register_request_def Let_def split: if_splits dest!: arg_cong [where f = "\<lambda>x. hub_tasks (snd x)"])
    next
      case (Some t)
      from simultaneous_register_posting [OF assms(2) Some] obtain p c' u pu to
        where p: "posting b t (hub_layer hub) = Some p"
          "tp_signal p = PostRegister (HyperLANPeerToHyperLANPeer c' (se_header_cid env)) u pu to None" by blast
      obtain r' where "handle_response_phase_post_register env (HyperLANPeerToHyperLANPeer (se_header_cid env) b) username
          (RespAccept (Some username)) t (se_header_cid env) b hub = Some (r', hub')"
        using run Some by (auto simp: post_register_request_def Let_def split: option.splits prod.splits result.splits)
      from response_register_tasks [OF assms(1) this] show ?thesis
      proof
        assume "hub_tasks hub' = hub_tasks hub @ [TaskRegister (se_header_cid env) b] \<and>
          RespAccept (Some username) \<noteq> RespDecline \<and> session_active b hub \<and> (\<exists>p. consumed b t hub hub' p)"
        then show ?thesis using p \<open>response = None\<close>
          by (intro disjI2 exI [of _ b] exI [of _ t] exI [of _ p]) (auto simp: consumed_def)
      qed simp
    qed
  qed
qed (use assms(3) in \<open>simp add: on_post_register_def\<close>)

lemma other_tasks:
  "on_kem env conn kep hub = Some (r, hub') \<Longrightarrow> hub_tasks hub' = hub_tasks hub"
  "on_deregister env conn hub = Some (r, hub') \<Longrightarrow> hub_tasks hub' = hub_tasks hub"
  "on_post_connect env conn resp settings udp hub = Some (r, hub') \<Longrightarrow> hub_tasks hub' = hub_tasks hub"
  "on_disconnect env conn resp hub = Some (r, hub') \<Longrightarrow>
    hub_tasks hub' = hub_tasks hub \<or> (\<exists>s a b pk. hub_tasks hub' = hub_tasks hub @ [TaskDisconnect s a b pk])"
  "list_response f env cids hub = Some (r, hub') \<Longrightarrow> hub_tasks hub' = hub_tasks hub"
proof -
  show "on_kem env conn kep hub = Some (r, hub') \<Longrightarrow> hub_tasks hub' = hub_tasks hub"
    by (auto simp: on_kem_def split: option.splits prod.splits result.splits if_splits dest: tasks_eqs)
  show "on_deregister env conn hub = Some (r, hub') \<Longrightarrow> hub_tasks hub' = hub_tasks hub"
    by (auto simp: on_deregister_def Let_def split: peer_connection_type.splits result.splits if_splits)
  show "on_post_connect env conn resp settings udp hub = Some (r, hub') \<Longrightarrow> hub_tasks hub' = hub_tasks hub"
    by (auto simp: on_post_connect_def split: peer_connection_type.splits option.splits if_splits
        dest: response_connect_tasks dest!: arg_cong [where f = "\<lambda>x. hub_tasks (snd x)"])
  show "on_disconnect env conn resp hub = Some (r, hub') \<Longrightarrow>
    hub_tasks hub' = hub_tasks hub \<or> (\<exists>s a b pk. hub_tasks hub' = hub_tasks hub @ [TaskDisconnect s a b pk])"
    by (auto simp: on_disconnect_def Let_def spawn_task_def split: peer_connection_type.splits option.splits)
  show "list_response f env cids hub = Some (r, hub') \<Longrightarrow> hub_tasks hub' = hub_tasks hub"
    by (cases "(f, env, cids, hub)" rule: list_response.cases) auto
qed

text \<open>
  C7: The server registers two clients with each other only by using up a posting. If handling a signal spawns a
  registration, then it is for the client in the header of the packet and a connected client, and it takes exactly
  one tracked posting of that client away, so that no second signal can spend it again; all other postings stay.
  Either the signal asks for a registration, and then the posting is a request of the other client to register with
  the very client that asks now; or the signal is a response other than a refusal, and then the posting is the one
  under the ticket of the packet. In the second case nothing is said about what the posting was for, since the
  handler does not look: \<open>any_posting_registers\<close> below shows that every kind will do.
\<close>

theorem registration_consumes_posting:
  assumes "layer_reach pers de (hub_layer hub)"
    and "process_signal_command_as_server env signal hub ss = Some (r, hub', ss')"
    and "hub_tasks hub' = hub_tasks hub @ [TaskRegister a b]"
  shows "a = se_header_cid env \<and> session_active b hub \<and>
    (\<exists>t p. posting b t (hub_layer hub) = Some p \<and> posting b t (hub_layer hub') = None \<and>
      (\<forall>c u. (c, u) \<noteq> (b, t) \<longrightarrow> posting c u (hub_layer hub') = posting c u (hub_layer hub)) \<and>
      ((\<exists>c username peer_username to resp. t = se_ticket env \<and> resp \<noteq> RespDecline \<and>
          signal = PostRegister (HyperLANPeerToHyperLANPeer c b) username peer_username to (Some resp)) \<or>
       (\<exists>conn username peer_username to c u pu to'.
          signal = PostRegister conn username peer_username to None \<and>
          tp_signal p = PostRegister (HyperLANPeerToHyperLANPeer c a) u pu to' None)))"
proof -
  have ok: "timed (hub_layer hub)" "ticketed (hub_layer hub)"
    using layer_reach_timed [OF assms(1)] layer_reach_ticketed [OF assms(1)] .
  show ?thesis
  proof (cases "\<exists>conn username peer_username to response. signal = PostRegister conn username peer_username to response")
    case True
    then obtain conn username peer_username to response
      where s: "signal = PostRegister conn username peer_username to response" by blast
    have "on_post_register env conn username peer_username response hub = Some (r, hub')"
      using assms(2) by (auto simp: s keep_session_def)
    from post_register_tasks [OF ok this] assms(3) obtain t p
      where "a = se_header_cid env" "session_active b hub" "consumed b t hub hub' p"
        and kinds: "(\<exists>resp c. response = Some resp \<and> resp \<noteq> RespDecline \<and> conn = HyperLANPeerToHyperLANPeer c b \<and> t = se_ticket env) \<or>
          response = None \<and> (\<exists>c u pu to. tp_signal p = PostRegister (HyperLANPeerToHyperLANPeer c a) u pu to None)"
      by auto
    then show ?thesis
      by (intro conjI exI [of _ t] exI [of _ p]) (auto simp: s consumed_def)
  next
    case False
    then have "hub_tasks hub' = hub_tasks hub \<or> (\<exists>s a b pk. hub_tasks hub' = hub_tasks hub @ [TaskDisconnect s a b pk])"
      using assms(2)
      by (cases signal)
         (auto simp: keep_session_def Let_def dest: other_tasks split: hypernode_connection_type.splits)
    with assms(3) show ?thesis by auto
  qed
qed

text \<open>Client 1 has asked client 2 for a registration under ticket 5; both are connected. Client 2 accepts.\<close>

definition demo_signal_layer :: "(backend, unit, timeout_action) peer_layer" where
  "demo_signal_layer =
     insert_tracked_posting 0 1 5 (PostRegister (HyperLANPeerToHyperLANPeer 1 2) ''alice'' None (Some 5) None) DoNothing
       (snd (register_peer memory_persistence (\<lambda>_. Err ''no mail'') 1 (peer_layer_new demo_store)))"

definition demo_signal_hub :: "(backend, unit) signal_hub" where
  "demo_signal_hub =
     \<lparr>hub_layer = demo_signal_layer,
      hub_sessions = [(1, \<lparr>hs_stream = True, hs_open = True, hs_crypto = CryptoReady, hs_vconns = []\<rparr>),
                      (2, \<lparr>hs_stream = True, hs_open = True, hs_crypto = CryptoReady, hs_vconns = []\<rparr>)],
      hub_sent = [], hub_drawn = 0, hub_tasks = []\<rparr>"

definition demo_signal_env :: "u64 \<Rightarrow> (backend, unit) signal_env" where
  "demo_signal_env cid =
     \<lparr>se_pers = memory_persistence, se_ser = (\<lambda>_. Ok [1]), se_uuid = (\<lambda>n. replicate n CHR ''a''), se_delay_key = 1,
      se_username_to_cid = (\<lambda>_. 0), se_session_cid = cid, se_ratchet_cid = cid, se_nat_info = None, se_header_cid = cid,
      se_ticket = 5, se_timestamp = 0, se_level = Standard\<rparr>"

definition demo_signal_session :: "unit signal_session" where
  "demo_signal_session = \<lparr>ss_kernel_open = True, ss_kernel = [], ss_removed_udp = []\<rparr>"

definition demo_accept :: "unit peer_signal" where
  "demo_accept = PostRegister (HyperLANPeerToHyperLANPeer 2 1) ''bob'' None (Some 5) (Some (RespAccept (Some ''bob'')))"

lemma demo_signal_reach: "layer_reach memory_persistence (\<lambda>_. Err ''no mail'') demo_signal_layer"
proof -
  have "layer_reach memory_persistence (\<lambda>_. Err ''no mail'')
      (snd (register_peer memory_persistence (\<lambda>_. Err ''no mail'') 1 (peer_layer_new demo_store)) ::
        (backend, unit, timeout_action) peer_layer)"
    by (rule layer_reach.connected [OF layer_reach.start]) (rule surjective_pairing)
  then show ?thesis
    unfolding demo_signal_layer_def by (intro layer_reach.posted) (simp_all add: demo_layer_simps)
qed

lemma demo_accept_spawns:
  "\<exists>r hub' ss'. process_signal_command_as_server (demo_signal_env 2) demo_accept demo_signal_hub demo_signal_session = Some (r, hub', ss') \<and>
     hub_tasks hub' = hub_tasks demo_signal_hub @ [TaskRegister 2 1]"
  by (simp add: demo_accept_def keep_session_def on_post_register_def handle_response_phase_post_register_def
      route_signal_response_def route_signal_response_primary_def remove_tracked_posting_inner_def demo_signal_hub_def
      demo_signal_layer_def demo_signal_env_def demo_layer_simps borrow_c2s_def stream_send_def spawn_task_def)

theorem registration_consumes_posting_witness:
  "\<exists>hub'. (\<exists>r ss'. process_signal_command_as_server (demo_signal_env 2) demo_accept demo_signal_hub demo_signal_session =
       Some (r, hub', ss')) \<and>
     hub_tasks hub' = [TaskRegister 2 1] \<and> session_active 1 demo_signal_hub \<and>
     posting 1 5 (hub_layer demo_signal_hub) \<noteq> None \<and> posting 1 5 (hub_layer hub') = None"
proof -
  obtain r hub' ss' where run: "process_signal_command_as_server (demo_signal_env 2) demo_accept demo_signal_hub demo_signal_session =
       Some (r, hub', ss')" "hub_tasks hub' = hub_tasks demo_signal_hub @ [TaskRegister 2 1]"
    using demo_accept_spawns by blast
  have reach: "layer_reach memory_persistence (\<lambda>_. Err ''no mail'') (hub_layer demo_signal_hub)"
    using demo_signal_reach by (simp add: demo_signal_hub_def)
  have "hub_tasks demo_signal_hub = []" by (simp add: demo_signal_hub_def)
  with registration_consumes_posting [OF reach run] run show ?thesis
    by (auto simp: demo_accept_def demo_signal_env_def)
qed

section \<open>What the handlers do not check\<close>

text \<open>
  A deregistration is carried out for the two clients the signal names: neither the session it came in on nor the
  header of the packet has any influence, so every connected client can separate any two others.
\<close>

lemma deregister_ignores_sender:
  "process_signal_command_as_server (env\<lparr>se_header_cid := x, se_session_cid := y, se_ratchet_cid := z\<rparr>) (Deregister conn) hub ss =
   process_signal_command_as_server env (Deregister conn) hub ss"
proof (cases env)
  case env: fields
  have "on_deregister (env\<lparr>se_header_cid := x, se_session_cid := y, se_ratchet_cid := z\<rparr>) conn hub = on_deregister env conn hub"
    unfolding on_deregister_def reply_to_sender_err_def reply_to_sender_def signal_packet_def env
      signal_env.update_convs signal_env.select_convs by (rule refl)
  then show ?thesis by simp
qed

text \<open>
  A response is matched with a posting by its ticket alone. Whatever the posting was for, the marker of a
  deregistration or a request for a connection included, a response that accepts a registration registers the two.
\<close>

lemma any_posting_registers:
  assumes "timed (hub_layer hub)" "posting b (se_ticket env) (hub_layer hub) = Some p" "reachable hub b"
  shows "\<exists>r hub'. process_signal_command_as_server env
      (PostRegister (HyperLANPeerToHyperLANPeer c b) username peer_username to (Some (RespAccept name))) hub ss =
      Some (r, hub', ss) \<and> hub_tasks hub' = hub_tasks hub @ [TaskRegister (se_header_cid env) b]"
proof -
  obtain s where s: "map_of (hub_sessions hub) b = Some s" "hs_stream s" "hs_open s" "hs_crypto s = CryptoReady"
    using assms(3) by (auto simp: reachable_def split: option.splits)
  show ?thesis
    using assms(2) s
    by (simp add: keep_session_def on_post_register_def handle_response_phase_post_register_def route_signal_response_def
        route_signal_response_primary_def remove_tracked_posting_cases [OF assms(1)] Let_def borrow_c2s_def stream_send_def
        spawn_task_def)
qed

text \<open>
  A client with a request of its own under way can answer it itself. For a connection the handler then waits for a
  lock it already holds, together with the lock of the whole peer layer; for a registration the task it spawns does
  the same inside the account store.
\<close>

lemma self_response_never_returns:
  assumes "timed (hub_layer hub)" "posting c (se_ticket env) (hub_layer hub) = Some p"
    and "reachable hub c" "se_session_cid env = c"
  shows "process_signal_command_as_server env (PostConnect (HyperLANPeerToHyperLANPeer x c) to (Some resp) settings udp) hub ss = None"
proof -
  obtain s where s: "map_of (hub_sessions hub) c = Some s" "hs_stream s" "hs_open s" "hs_crypto s = CryptoReady"
    using assms(3) by (auto simp: reachable_def split: option.splits)
  show ?thesis
    using assms(2,4) s
    by (simp add: keep_session_def on_post_connect_def handle_response_phase_post_connect_def route_signal_response_def
        route_signal_response_primary_def remove_tracked_posting_cases [OF assms(1)] Let_def borrow_c2s_def stream_send_def
        forge_virtual_connection_def)
qed

lemma self_registration_never_returns:
  assumes "cid_is_registered c (hub_store hub)"
  shows "run_task memory_persistence (TaskRegister c c) hub = None"
  using assms by (auto simp: memory_persistence_def register_p2p_as_server_def cid_is_registered_def)

end
