(* ===== verification/Packet_Dispatch.thy ===== *)
theory Packet_Dispatch
  imports Session_Node
begin

text \<open>
  What happens to a packet before its handler, \<open>process_raw_packet\<close> and \<open>check_proxy\<close> of
  \<open>citadel_proto/src/proto/packet_processor/raw_primary_packet.rs\<close>: a packet for another node is passed on without
  being opened, the others are given to the handler of their command. Also the handlers of keep-alive and disconnect
  packets, \<open>keep_alive_packet.rs\<close> and \<open>disconnect_packet.rs\<close>. Times are nanoseconds since some start.

  Shown: a packet for another client leaves the server as it came, to that client only, and is never handled on the
  way; at an endpoint the same check panics, before any authentication.
\<close>

section \<open>Passing on\<close>

datatype receive_port_type = OrderedReliable | UnorderedUnreliable

text \<open>
  A virtual connection as the check uses it: the time of the last packet passed on, and the senders of the datagram
  and of the stream connection of the other session, if any. A sender is whether its receiver still listens.
\<close>

record proxy_conn =
  last_delivered_message_timestamp :: "nat option"
  pv_sender :: "(bool option \<times> bool) option"

record proxy_node =
  px_vconns :: "(u64 \<times> proxy_conn) list"
  last_valid_event :: nat
  px_sent :: "(u64 \<times> receive_port_type \<times> bytes) list"

definition GROUP_EXPIRE_TIME_NS :: nat where "GROUP_EXPIRE_TIME_NS = 60000000000"

definition meta_expired :: "nat \<Rightarrow> proxy_node \<Rightarrow> bool" where
  "meta_expired now node \<longleftrightarrow> GROUP_EXPIRE_TIME_NS < now - last_valid_event node"

definition on_event_confirmation :: "nat \<Rightarrow> proxy_node \<Rightarrow> proxy_node" where
  "on_event_confirmation now node = node\<lparr>last_valid_event := now\<rparr>"

text \<open>The unwrapping of the sender, and the send, whose failure is logged.\<close>

definition pass_on :: "u64 \<Rightarrow> receive_port_type \<Rightarrow> bytes \<Rightarrow> proxy_conn \<Rightarrow> proxy_node \<Rightarrow> (unit, unit) result \<times> proxy_node" where
  "pass_on target recv_port_type packet conn node =
     (case pv_sender conn of
        None \<Rightarrow> (Panic, node)
      | Some (udp_sender, stream_open) \<Rightarrow>
          let listening = (case recv_port_type of OrderedReliable \<Rightarrow> stream_open | UnorderedUnreliable \<Rightarrow> udp_sender = Some True)
          in (Ok (), if listening then node\<lparr>px_sent := px_sent node @ [(target, recv_port_type, packet)]\<rparr> else node))"

text \<open>
  The result is none when the packet is finished, otherwise what becomes of \<open>endpoint_cid_info\<close>, which is none before.
\<close>

definition check_proxy ::
    "nat \<Rightarrow> u64 option \<Rightarrow> u64 \<Rightarrow> u64 \<Rightarrow> receive_port_type \<Rightarrow> bytes \<Rightarrow> proxy_node \<Rightarrow>
     ((u64 \<times> u64) option option, unit) result \<times> proxy_node" where
  "check_proxy now this_implicated_cid header_session_cid target recv_port_type packet node =
     (if target = 0 then (Ok (Some None), node)
      else case this_implicated_cid of
        None \<Rightarrow> (Ok (Some None), node)
      | Some this_cid \<Rightarrow>
          if this_cid \<noteq> target
          then
            let node = on_event_confirmation now node in
            case map_of (px_vconns node) target of
              None \<Rightarrow> (Ok None, node)
            | Some conn \<Rightarrow>
                let conn = conn\<lparr>last_delivered_message_timestamp := Some now\<rparr>;
                    (res, node) = pass_on target recv_port_type packet conn
                      (node\<lparr>px_vconns := AList.update target conn (px_vconns node)\<rparr>)
                in (rbind res (\<lambda>_. Ok None), node)
          else (Ok (Some (Some (header_session_cid, target))), node))"

section \<open>Dispatch\<close>

datatype packet_handler =
    ProcessRegister | ProcessConnect | ProcessKeepAlive | ProcessPrimaryPacket | ProcessDisconnect | ProcessRekey
  | ProcessDeregister | ProcessPreconnect | ProcessPeerCmd | ProcessFilePacket | ProcessHolePunch

definition handler_of :: "u8 \<Rightarrow> packet_handler option" where
  "handler_of cmd =
     map_of [(DO_REGISTER, ProcessRegister), (DO_CONNECT, ProcessConnect), (KEEP_ALIVE, ProcessKeepAlive),
       (GROUP_PACKET, ProcessPrimaryPacket), (DO_DISCONNECT, ProcessDisconnect), (DO_DRILL_UPDATE, ProcessRekey),
       (DO_DEREGISTER, ProcessDeregister), (DO_PRE_CONNECT, ProcessPreconnect), (PEER_CMD, ProcessPeerCmd),
       (FILE_CMD, ProcessFilePacket), (HOLE_PUNCH_CMD, ProcessHolePunch)] cmd"

text \<open>
  The handler that gets the packet, with the CIDs of the endpoints and the version of the header; none ends processing.
  The log line in front of the parser is left out: where trace logging is switched on, it unwraps the parsed packet and
  panics on one that is too short.
\<close>

definition process_raw_packet ::
    "nat \<Rightarrow> u64 option \<Rightarrow> bytes \<Rightarrow> proxy_node \<Rightarrow>
     ((packet_handler \<times> u32 \<times> (u64 \<times> u64) option) option, unit) result \<times> proxy_node" where
  "process_raw_packet now this_implicated_cid packet node =
     (case packet_parse packet of
        None \<Rightarrow> (Ok None, node)
      | Some (header, _) \<Rightarrow>
          let (res, node) = check_proxy now this_implicated_cid (session_cid header) (target_cid header) OrderedReliable
                packet node
          in (rbind res (\<lambda>r. Ok
                (case r of
                   None \<Rightarrow> None
                 | Some endpoint_cid_info \<Rightarrow>
                     map_option (\<lambda>h. (h, drill_version header, endpoint_cid_info)) (handler_of (cmd_primary header)))), node))"

section \<open>Keep-alive and disconnect\<close>

text \<open>Numbers wrap around at 64 bits; comparisons are signed.\<close>

record network_stats =
  last_keep_alive :: "i64 option"
  ping_ns :: "i64 option"
  jitter_ns :: "i64 option"
  rtt_ns :: "i64 option"

definition KEEP_ALIVE_INTERVAL_MS :: u64 where "KEEP_ALIVE_INTERVAL_MS = 900000"

definition on_keep_alive_received :: "bool \<Rightarrow> i64 \<Rightarrow> i64 \<Rightarrow> i64 \<Rightarrow> network_stats \<Rightarrow> bool \<times> network_stats" where
  "on_keep_alive_received expired keep_alive_timeout_ns inbound_packet_timestamp_ns current_timestamp_ns stats =
     (if keep_alive_timeout_ns = 0 then (True, stats)
      else
        let ping = current_timestamp_ns - inbound_packet_timestamp_ns;
            (current_timestamp_ns, ping) = (if ping <s 0 then (current_timestamp_ns - ping, - ping) else (current_timestamp_ns, ping));
            jitter = ping - (case ping_ns stats of Some p \<Rightarrow> p | None \<Rightarrow> 0);
            stats' = stats\<lparr>jitter_ns := Some jitter, ping_ns := Some ping\<rparr>
        in case last_keep_alive stats of
             Some last_ka \<Rightarrow>
               if keep_alive_timeout_ns <s ping then (\<not> expired, stats'\<lparr>last_keep_alive := None\<rparr>)
               else (True, stats'\<lparr>last_keep_alive := Some current_timestamp_ns,
                       rtt_ns := Some (current_timestamp_ns - last_ka - 2 * KEEP_ALIVE_INTERVAL_MS * 1000000)\<rparr>)
           | None \<Rightarrow> (True, stats'\<lparr>last_keep_alive := Some current_timestamp_ns\<rparr>))"

text \<open>
  The disconnect handler on a packet: the reply goes out on the session's own stream, and the confirmation ends the
  session with the ticket it carries, which the second component is.
\<close>

definition process_disconnect_cmd ::
    "hdp_header \<Rightarrow> stacked_ratchet \<Rightarrow> session_node \<Rightarrow> (processor_result, network_error) result \<times> ticket option \<times> session_node" where
  "process_disconnect_cmd header hr node =
     (if cmd_aux header = DISCONNECT_STAGE0 then
        if to_primary_stream node
        then (Ok (EndSession ''Successfully disconnected''), None, emit (OutDisconnect True hr (context_info header)) node)
        else (Ok Void, None, node)
      else if cmd_aux header = DISCONNECT_FINAL then
        (Ok (EndSession ''Successfully disconnected''), Some (context_info header), node\<lparr>sn_connected := False\<rparr>)
      else (Ok Void, None, node))"

definition process_disconnect ::
    "bytes \<Rightarrow> u32 \<Rightarrow> session_node \<Rightarrow> (processor_result, network_error) result \<times> ticket option \<times> session_node" where
  "process_disconnect packet header_drill_vers node =
     (if \<not> sn_connected node then (Ok Void, None, node)
      else case get_proper_hyper_ratchet header_drill_vers node None of
        None \<Rightarrow> (Ok Void, None, node)
      | Some hr \<Rightarrow>
          (case packet_decompose packet of
             Ok (header_bytes, payload) \<Rightarrow>
               let (res, hr) = validate_custom hr header_bytes payload;
                   node = store_proper_hyper_ratchet header_drill_vers None hr node
               in (case res of
                     Ok (header, _) \<Rightarrow> process_disconnect_cmd header hr node
                   | Err e \<Rightarrow> (Ok Void, None, node)
                   | Panic \<Rightarrow> (Panic, None, node))
           | _ \<Rightarrow> (Panic, None, node)))"

definition initiate_disconnect :: "ticket \<Rightarrow> session_node \<Rightarrow> (bool, network_error) result \<times> session_node" where
  "initiate_disconnect ticket node =
     (case sn_c2s node of
        None \<Rightarrow> (Err (InternalError ''C2S container does not exist''), node)
      | Some c \<Rightarrow>
          (case pc_get_hyper_ratchet (c2s_crypto c) None of
             None \<Rightarrow> (Err (InternalError ''Ratchet does not exist''), node)
           | Some hr \<Rightarrow>
               if sn_settings node = None \<or> \<not> to_primary_stream node then (Panic, node)
               else (Ok True, emit (OutDisconnect False hr ticket) node)))"

section \<open>Relayed packets\<close>

text \<open>A server relays what arrives on the session of one client.\<close>

definition relay_step ::
    "nat \<Rightarrow> u64 \<Rightarrow> proxy_node \<Rightarrow> bytes \<Rightarrow>
     ((packet_handler \<times> u32 \<times> (u64 \<times> u64) option) option, unit) result \<times> proxy_node" where
  "relay_step now own_cid node packet = process_raw_packet now (Some own_cid) packet node"

definition relays_to :: "u64 \<Rightarrow> proxy_node \<Rightarrow> bool" where
  "relays_to target node \<longleftrightarrow> (\<exists>conn udp. map_of (px_vconns node) target = Some conn \<and> pv_sender conn = Some (udp, True))"

lemma relay_step_forwards:
  assumes "packet_parse packet = Some (header, payload)" "target_cid header = target" "target \<noteq> 0" "target \<noteq> own_cid"
    and "relays_to target node"
  shows "\<exists>node'. relay_step now own_cid node packet = (Ok None, node') \<and> relays_to target node' \<and>
    px_sent node' = px_sent node @ [(target, OrderedReliable, packet)]"
  using assms
  by (auto simp: relay_step_def process_raw_packet_def check_proxy_def on_event_confirmation_def pass_on_def Let_def
      relays_to_def update_conv')

lemma relay_run_forwards:
  assumes "\<And>p. p \<in> set ps \<Longrightarrow> \<exists>header payload. packet_parse p = Some (header, payload) \<and> target_cid header = target"
    and "target \<noteq> 0" "target \<noteq> own_cid" "relays_to target node"
  shows "fst (run (relay_step now own_cid) node ps) = map (\<lambda>_. Ok None) ps \<and>
    px_sent (snd (run (relay_step now own_cid) node ps)) = px_sent node @ map (\<lambda>p. (target, OrderedReliable, p)) ps"
  using assms(1,4)
proof (induction ps arbitrary: node)
  case (Cons p ps)
  from Cons.prems(1) [of p] obtain header payload
    where "packet_parse p = Some (header, payload)" "target_cid header = target" by auto
  from relay_step_forwards [OF this assms(2,3) Cons.prems(2), of now] obtain node' where
    step: "relay_step now own_cid node p = (Ok None, node')" "relays_to target node'"
      "px_sent node' = px_sent node @ [(target, OrderedReliable, p)]" by blast
  with Cons.IH [OF _ step(2)] Cons.prems(1) show ?case
    by (simp add: run_Cons_fst run_Cons_snd del: run.simps(2))
qed simp

lemma crafted_parse:
  assumes "crafted_run a b cs packets order" "j < length cs" "cs ! j = (rs, level, header, body)"
  shows "\<exists>payload. packet_parse (packets ! j) = Some (header, payload)"
proof -
  have h: "take HDP_HEADER_BYTE_LEN (packets ! j) = inscribe_into header []"
    using crafted_head [OF assms(1,2)] by (simp add: assms(3))
  then have "length (take HDP_HEADER_BYTE_LEN (packets ! j)) = HDP_HEADER_BYTE_LEN" by simp
  then have "HDP_HEADER_BYTE_LEN \<le> length (packets ! j)" by simp
  then show ?thesis by (simp add: packet_parse_def h inscribe_into_as_bytes header_of_as_bytes)
qed

text \<open>
  C32: A server is an opaque relay between two clients. Suppose one client crafts packets for another with the ratchet
  they share, and they reach a server that has a live virtual connection to the other client, in any order and number.
  Then the server gives none of them to a handler of
  its own and passes exactly these bytes on in the order of their arrival; at the other client each of them goes to
  the handler of its command with the ratchet of the sending client, and the first arrival of each packet opens to
  the header and payload it was crafted from.
\<close>

theorem relayed_packets_read_back:
  assumes "crafted_run a b cs packets order" and "length order < 2 ^ 64" and "k < length order"
    and "\<forall>(rs, level, header, body) \<in> set cs. session_cid header = alice \<and> target_cid header = bob"
    and "bob \<noteq> 0" "bob \<noteq> alice" "relays_to bob server" "px_sent server = []"
    and "run (relay_step now alice) server (map (\<lambda>j. packets ! j) order) = (outs, server')"
    and "received = map (\<lambda>(_, _, p). p) (px_sent server')" "cs ! (order ! k) = (rs, level, header, body)"
  shows "outs = replicate (length order) (Ok None) \<and> list_all (\<lambda>(t, port, _). t = bob \<and> port = OrderedReliable) (px_sent server') \<and>
    process_raw_packet now' (Some bob) (received ! k) node =
      (Ok (map_option (\<lambda>h. (h, drill_version header, Some (alice, bob))) (handler_of (cmd_primary header))), node) \<and>
    (order ! k \<notin> set (take k order) \<longrightarrow> fst (run receive_step b received) ! k = Ok (header, body))"
proof -
  have idx: "j < length cs" if "j \<in> set order" for j using assms(1) that by (simp add: crafted_run_def)
  have parse: "\<exists>h payload. packet_parse p = Some (h, payload) \<and> target_cid h = bob"
    if "p \<in> set (map (\<lambda>j. packets ! j) order)" for p
  proof -
    from that obtain j where j: "j \<in> set order" "p = packets ! j" by auto
    obtain rs level h body where c: "cs ! j = (rs, level, h, body)" by (cases "cs ! j")
    with crafted_parse [OF assms(1) idx [OF j(1)]] assms(4) idx [OF j(1)] show ?thesis
      by (force simp: j(2) in_set_conv_nth)
  qed
  note relay = relay_run_forwards [of "map (\<lambda>j. packets ! j) order" bob alice server now, OF parse assms(5-7)]
  have sent: "outs = map (\<lambda>_. Ok None) order"
      "px_sent server' = map (\<lambda>p. (bob, OrderedReliable, p)) (map (\<lambda>j. packets ! j) order)"
    using relay assms(8,9) by (simp_all add: comp_def)
  then have rec: "received = map (\<lambda>j. packets ! j) order" by (simp add: assms(10) comp_def)
  have ok: "order ! k < length cs" using idx assms(3) by simp
  then have "(rs, level, header, body) \<in> set cs" using assms(11) by (metis nth_mem)
  then have cids: "session_cid header = alice" "target_cid header = bob" using assms(4) by auto
  obtain payload where "packet_parse (packets ! (order ! k)) = Some (header, payload)"
    using crafted_parse [OF assms(1) ok assms(11)] by blast
  then have "process_raw_packet now' (Some bob) (received ! k) node =
      (Ok (map_option (\<lambda>h. (h, drill_version header, Some (alice, bob))) (handler_of (cmd_primary header))), node)"
    using assms(3,5) cids by (simp add: process_raw_packet_def check_proxy_def rec)
  then show ?thesis
    using sent crafted_read_back [OF assms(1-3)] assms(11) by (simp add: rec list_all_iff map_replicate_const)
qed

text \<open>The client 7 sends a message to the client 9, and its packet reaches the server twice.\<close>

definition demo_relay_header :: hdp_header where
  "demo_relay_header = (demo_header GROUP_PACKET 0)\<lparr>target_cid := 9\<rparr>"

definition demo_relay_requests :: "craft_request list" where
  "demo_relay_requests = [(\<lambda>_ _. 0, Standard, demo_relay_header, [5])]"

definition demo_relay_packets :: "bytes list" where
  "demo_relay_packets = [inscribe_into demo_relay_header [] @ [5] @ u64_to_be 0 @ replicate 16 0]"

definition demo_relay :: proxy_node where
  "demo_relay =
     \<lparr>px_vconns = [(9, \<lparr>last_delivered_message_timestamp = None, pv_sender = Some (None, True)\<rparr>)], last_valid_event = 0,
      px_sent = []\<rparr>"

lemma demo_relay_run:
  "crafted_run (demo_stack Alice) (demo_stack Bob) demo_relay_requests demo_relay_packets [0, 0]"
proof -
  have ara: "(demo_node n)\<lparr>pq_ara := ara_default\<rparr> = demo_node n" for n by (simp add: demo_node_def)
  have "fst (run stacked_protect (demo_stack Alice) (map craft_msg demo_relay_requests)) = map Ok demo_relay_packets"
    by (simp add: demo_relay_requests_def demo_relay_packets_def protect_message_packet_def verify_level_def demo_stack_def
        numeral_2_eq_2 demo_protect demo_protect [where a = ara_default, unfolded ara])
      (simp add: ara_default_def)
  moreover have "list_all2 layer_opens (sr_message (demo_stack Alice)) (sr_message (demo_stack Bob))"
    "\<forall>k \<in> set (sr_message (demo_stack Alice)) \<union> set (sr_message (demo_stack Bob)). layer_ara k = ara_default"
    using demo_stacked_run_ok by (simp_all add: stacked_run_def)
  moreover have "\<forall>p \<in> set demo_relay_packets. length p < 2 ^ 64"
    by (simp add: demo_relay_packets_def be64.length_enc HDP_HEADER_BYTE_LEN_def)
  ultimately show ?thesis
    by (simp add: crafted_run_def craft_run_protect) (simp add: demo_relay_requests_def demo_relay_header_def demo_header_def)
qed

theorem relayed_packets_read_back_witness:
  "\<exists>outs server'. run (relay_step 1 7) demo_relay (map (\<lambda>j. demo_relay_packets ! j) [0, 0]) = (outs, server') \<and>
     outs = [Ok None, Ok None] \<and>
     fst (run receive_step (demo_stack Bob) (map (\<lambda>(_, _, p). p) (px_sent server'))) ! 0 = Ok (demo_relay_header, [5])"
proof -
  obtain outs server' where r: "run (relay_step 1 7) demo_relay (map (\<lambda>j. demo_relay_packets ! j) [0, 0]) = (outs, server')"
    by (cases "run (relay_step 1 7) demo_relay (map (\<lambda>j. demo_relay_packets ! j) [0, 0])")
  have "\<forall>(rs, level, header, body) \<in> set demo_relay_requests. session_cid header = 7 \<and> target_cid header = 9"
    "relays_to 9 demo_relay" "px_sent demo_relay = []"
    by (simp_all add: demo_relay_requests_def demo_relay_header_def demo_header_def demo_relay_def relays_to_def)
  from relayed_packets_read_back [OF demo_relay_run _ _ this(1) _ _ this(2,3) r refl, of 0 "\<lambda>_ _. 0" Standard demo_relay_header "[5]"]
  have "outs = [Ok None, Ok None]"
    "fst (run receive_step (demo_stack Bob) (map (\<lambda>(_, _, p). p) (px_sent server'))) ! 0 = Ok (demo_relay_header, [5])"
    by (simp_all add: demo_relay_requests_def)
  with r show ?thesis by blast
qed

text \<open>
  At an endpoint a virtual connection has no senders, so the same check panics: a packet of a directly connected peer
  that names any peer of the endpoint as its target ends the task that reads the stream. No key is needed for it.
\<close>

lemma endpoint_panics_on_foreign_target:
  assumes "packet_parse packet = Some (header, payload)" "target_cid header \<noteq> 0" "target_cid header \<noteq> own_cid"
    and "map_of (px_vconns node) (target_cid header) = Some conn" "pv_sender conn = None"
  shows "fst (process_raw_packet now (Some own_cid) packet node) = Panic"
  using assms by (simp add: process_raw_packet_def check_proxy_def on_event_confirmation_def pass_on_def Let_def)

end
