(* ===== verification/Nat_Traversal.thy ===== *)
theory Nat_Traversal
  imports Entropy_Bank
begin

text \<open>
  What a node knows about the address translator it is behind, \<open>citadel_wire/src/nat_identification.rs\<close>, and which
  addresses it tries to reach a peer behind another one, \<open>citadel_wire/src/udp_traversal/hole_punch_config.rs\<close>. The
  translator is classified by the external addresses that three STUN servers report; the sending of the probes, the
  sockets and the list of the node's own addresses are arguments. The features for tests on one host are off.

  Shown: the average step of the ports is what exact arithmetic gives, although it is computed in single precision;
  the plan fails only in the listed cases; and when a translator hands out ports in equal steps, the peer is told so
  and tries the next six of them, unless the port numbers end first.
\<close>

section \<open>Addresses\<close>

type_synonym i32 = "32 word"

datatype ip_addr = V4 u8 u8 u8 u8 | V6 "128 word"

text \<open>Flow information and scope of a version 6 address are zero in every address the code builds.\<close>

record socket_addr =
  sa_ip :: ip_addr
  sa_port :: u16

definition socket_addr_new :: "ip_addr \<Rightarrow> u16 \<Rightarrow> socket_addr" where
  "socket_addr_new ip port = \<lparr>sa_ip = ip, sa_port = port\<rparr>"

record ip_address_info =
  internal_ipv4 :: ip_addr
  external_ipv4 :: ip_addr
  external_ipv6 :: "ip_addr option"

fun is_ipv6 :: "ip_addr \<Rightarrow> bool" where
  "is_ipv6 (V6 _) = True"
| "is_ipv6 (V4 _ _ _ _) = False"

fun octets :: "ip_addr \<Rightarrow> u8 list option" where
  "octets (V4 a b c d) = Some [a, b, c, d]"
| "octets (V6 _) = None"

datatype nat_type =
    EIM socket_addr "ip_address_info option" bool
  | PortPreserved ip_addr "ip_address_info option" bool
  | EDM socket_addr "ip_address_info option" i32 bool
  | EDMRandomIp "ip_addr list" "ip_address_info option" bool
  | EDMRandomIPPortPreserved "ip_addr list" "ip_address_info option" bool
  | EDMRandomPort socket_addr "ip_address_info option" "u16 list" bool
  | NatUnknown

datatype traversal_type = Linear | Delta i32 | TURN

section \<open>The average step\<close>

text \<open>
  Division of two integers in single precision, both exactly representable, the divisor positive, and conversion of the
  quotient to an integer: the quotient is scaled to more than 24 bits, rounded to 24 significant bits and cut off.
\<close>

definition f32_div_as_usize :: "nat \<Rightarrow> nat \<Rightarrow> nat" where
  "f32_div_as_usize a b =
     (let k = 24 + bit_length b;
          s = bit_length (a * 2 ^ k div b) - 24
      in round_div (a * 2 ^ k) (b * 2 ^ s) * 2 ^ s div 2 ^ k)"

text \<open>
  One value or none: the sum is zero and the divisor zero or minus one, the quotient not a number or minus zero, and
  both become zero. Subtraction of a value from the next in the sorted list does not wrap.
\<close>

definition average_delta :: "nat list \<Rightarrow> nat" where
  "average_delta vals =
     (let vals = sort vals; sum_diff = sum_list (map (\<lambda>(a, b). b - a) (zip vals (tl vals))) in
      if length vals \<le> 1 then 0
      else f32_div_as_usize (round_bits 24 sum_diff) (round_bits 24 (round_bits 24 (length vals) - 1)))"

section \<open>Reaching a node\<close>

definition MAX_PORT_DELTA_FOR_PREDICTION :: nat where "MAX_PORT_DELTA_FOR_PREDICTION = 30"

definition MAX_LAST_OCTET_DELTA_FOR_PREDICTION :: nat where "MAX_LAST_OCTET_DELTA_FOR_PREDICTION = 2"

fun get_average_delta_for_rand_port :: "nat_type \<Rightarrow> u16 option" where
  "get_average_delta_for_rand_port (EDMRandomPort _ _ ports _) = Some (word_of_nat (average_delta (map unat ports)))"
| "get_average_delta_for_rand_port _ = None"

definition all_equal :: "'a list \<Rightarrow> bool" where
  "all_equal xs = (\<forall>x \<in> set xs. x = hd xs)"

definition random_ip_traversal :: "ip_addr list \<Rightarrow> traversal_type" where
  "random_ip_traversal addrs =
     (case those (map octets addrs) of
        None \<Rightarrow> Linear
      | Some os \<Rightarrow>
          let delta = average_delta (map (\<lambda>r. unat (r ! 3)) os) in
          if delta < MAX_LAST_OCTET_DELTA_FOR_PREDICTION \<and> all_equal (map (take 3) os) then Delta (word_of_nat delta)
          else TURN)"

fun traversal_type_required :: "nat_type \<Rightarrow> (traversal_type, unit) result" where
  "traversal_type_required (EIM _ _ _) = Ok Linear"
| "traversal_type_required (PortPreserved _ _ _) = Ok Linear"
| "traversal_type_required (EDM _ _ n _) = Ok (Delta n)"
| "traversal_type_required (EDMRandomPort addr info ports v6) =
     (case get_average_delta_for_rand_port (EDMRandomPort addr info ports v6) of
        None \<Rightarrow> Panic
      | Some average \<Rightarrow>
          Ok (if average > word_of_nat MAX_PORT_DELTA_FOR_PREDICTION then TURN else Delta (ucast average)))"
| "traversal_type_required (EDMRandomIPPortPreserved addrs _ _) = Ok (random_ip_traversal addrs)"
| "traversal_type_required (EDMRandomIp _ _ _) = Ok TURN"
| "traversal_type_required NatUnknown = Ok TURN"

definition traversal_type_required_with :: "nat_type \<Rightarrow> nat_type \<Rightarrow> (traversal_type \<times> traversal_type, unit) result" where
  "traversal_type_required_with self other =
     rbind (traversal_type_required self) (\<lambda>this. rbind (traversal_type_required other) (\<lambda>other. Ok (this, other)))"

definition stun_compatible :: "nat_type \<Rightarrow> nat_type \<Rightarrow> (bool, unit) result" where
  "stun_compatible self other_nat =
     rbind (traversal_type_required_with self other_nat) (\<lambda>(this, other). Ok (this \<noteq> TURN \<or> other \<noteq> TURN))"

fun ip_addr_info :: "nat_type \<Rightarrow> ip_address_info option" where
  "ip_addr_info (EIM _ ip _) = ip"
| "ip_addr_info (EDM _ ip _ _) = ip"
| "ip_addr_info (PortPreserved _ ip _) = ip"
| "ip_addr_info (EDMRandomIp _ ip _) = ip"
| "ip_addr_info (EDMRandomIPPortPreserved _ ip _) = ip"
| "ip_addr_info (EDMRandomPort _ ip _ _) = ip"
| "ip_addr_info NatUnknown = None"

fun is_ipv6_compatible :: "nat_type \<Rightarrow> bool" where
  "is_ipv6_compatible (EIM _ _ v6) = v6"
| "is_ipv6_compatible (PortPreserved _ _ v6) = v6"
| "is_ipv6_compatible (EDM _ _ _ v6) = v6"
| "is_ipv6_compatible (EDMRandomIp _ _ v6) = v6"
| "is_ipv6_compatible (EDMRandomIPPortPreserved _ _ v6) = v6"
| "is_ipv6_compatible (EDMRandomPort _ _ _ v6) = v6"
| "is_ipv6_compatible NatUnknown = False"

fun store_ip_info :: "ip_address_info \<Rightarrow> nat_type \<Rightarrow> nat_type" where
  "store_ip_info info (EIM a _ v6) = EIM a (Some info) v6"
| "store_ip_info info (PortPreserved a _ v6) = PortPreserved a (Some info) v6"
| "store_ip_info info (EDM a _ d v6) = EDM a (Some info) d v6"
| "store_ip_info info (EDMRandomIp a _ v6) = EDMRandomIp a (Some info) v6"
| "store_ip_info info (EDMRandomIPPortPreserved a _ v6) = EDMRandomIPPortPreserved a (Some info) v6"
| "store_ip_info info (EDMRandomPort a _ ps v6) = EDMRandomPort a (Some info) ps v6"
| "store_ip_info info NatUnknown = NatUnknown"

section \<open>Classification\<close>

text \<open>
  A probe gives the external and the internal address. When the external addresses differ only in the last octet, the
  code averages three copies of the first one's; the comparison is kept as it is written.
\<close>

type_synonym probe = "socket_addr \<times> socket_addr"

definition changing_ip :: "bool \<Rightarrow> bool \<Rightarrow> ip_addr list \<Rightarrow> (nat_type, string) result" where
  "changing_ip port_preserved is_ipv6_allowed ips =
     (case those (map octets ips) of
        Some [o0, o1, o2] \<Rightarrow>
          if take 3 o0 = take 3 o1 \<and> take 3 o1 = take 3 o2 \<and> port_preserved \<and>
             average_delta [unat (o0 ! 3), unat (o0 ! 3), unat (o0 ! 3)] < MAX_LAST_OCTET_DELTA_FOR_PREDICTION
          then Ok (EDMRandomIPPortPreserved ips None is_ipv6_allowed)
          else Ok (EDMRandomIp ips None is_ipv6_allowed)
      | _ \<Rightarrow> Panic)"

definition stepping_ports :: "bool \<Rightarrow> ip_addr \<Rightarrow> u16 list \<Rightarrow> nat_type" where
  "stepping_ports is_ipv6_allowed ip ports =
     (let deltas = sort ports;
          delta0 = \<bar>int (unat (deltas ! 0)) - int (unat (deltas ! 1))\<bar>;
          delta1 = \<bar>int (unat (deltas ! 1)) - int (unat (deltas ! 2))\<bar>;
          highest_last_addr = socket_addr_new ip (deltas ! 2)
      in if delta0 = delta1 then EDM highest_last_addr None (word_of_int delta0) is_ipv6_allowed
         else EDMRandomPort highest_last_addr None ports is_ipv6_allowed)"

fun classify :: "bool \<Rightarrow> probe option \<Rightarrow> probe option \<Rightarrow> probe option \<Rightarrow> (nat_type, string) result" where
  "classify is_ipv6_allowed (Some (addr_ext, addr_int)) (Some (addr2_ext, addr2_int)) (Some (addr3_ext, addr3_int)) =
     (let port_preserved = (sa_port addr_ext = sa_port addr_int \<and> sa_port addr2_ext = sa_port addr2_int \<and>
            sa_port addr3_ext = sa_port addr3_int);
          ips = [sa_ip addr_ext, sa_ip addr2_ext, sa_ip addr3_ext]
      in if addr_ext = addr_int \<and> addr2_ext = addr2_int \<and> addr3_ext = addr3_int
         then Ok (EIM addr_ext None is_ipv6_allowed)
         else case List.find (\<lambda>r. is_ipv6 (sa_ip r)) [addr_ext, addr2_ext, addr3_ext] of
           Some v6_addr \<Rightarrow> Ok (EIM v6_addr None is_ipv6_allowed)
         | None \<Rightarrow>
             if sa_ip addr_ext \<noteq> sa_ip addr2_ext \<or> sa_ip addr2_ext \<noteq> sa_ip addr3_ext
             then changing_ip port_preserved is_ipv6_allowed ips
             else if port_preserved then Ok (PortPreserved (sa_ip addr_ext) None is_ipv6_allowed)
             else Ok (stepping_ports is_ipv6_allowed (sa_ip addr_ext) [sa_port addr_ext, sa_port addr2_ext, sa_port addr3_ext]))"
| "classify is_ipv6_allowed _ _ _ = Err ''Unable to get both STUN addrs''"

text \<open>The results in the order in which the probes ended; they are taken from the back.\<close>

definition pop_result :: "string \<Rightarrow> (probe option, string) result list \<Rightarrow> (probe option \<times> (probe option, string) result list, string) result" where
  "pop_result err results =
     (if results = [] then Err err else rbind (last results) (\<lambda>r. Ok (r, butlast results)))"

definition get_nat_type ::
    "bool \<Rightarrow> (ip_address_info, string) result \<Rightarrow> (probe option, string) result list \<Rightarrow> (nat_type, string) result" where
  "get_nat_type is_ipv6_allowed ip_info results =
     rbind (pop_result ''First result not present'' results) (\<lambda>(first_natted_addr, results).
     rbind (pop_result ''Second result not present'' results) (\<lambda>(second_natted_addr, results).
     rbind (pop_result ''Third result not present'' results) (\<lambda>(third_natted_addr, results).
     rbind (classify is_ipv6_allowed first_natted_addr second_natted_addr third_natted_addr) (\<lambda>nat_type.
     rbind ip_info (\<lambda>info. Ok (store_ip_info info nat_type))))))"

section \<open>The plan\<close>

record addr_band =
  necessary_ip :: ip_addr
  anticipated_ports :: "u16 list"

record 's hole_punch_config =
  bands :: "addr_band list"
  locally_bound_sockets :: "'s list option"

definition SPREAD :: u16 where "SPREAD = 6"

definition check_delta :: "u16 \<Rightarrow> u16" where
  "check_delta delta = min delta 30"

text \<open>A half-open range of words; empty when its end is not above its start.\<close>

definition port_range :: "u16 \<Rightarrow> u16 \<Rightarrow> u16 list" where
  "port_range beginning_port ending_port = map word_of_nat [unat beginning_port..<unat ending_port]"

definition load_alternate_bands ::
    "addr_band list \<Rightarrow> ip_address_info option \<Rightarrow> ip_addr \<Rightarrow> u16 \<Rightarrow> addr_band list" where
  "load_alternate_bands bs other_addrs last_external_addr peer_declared_internal_port =
     (case other_addrs of
        None \<Rightarrow> bs
      | Some other \<Rightarrow>
          let band = (\<lambda>ip. \<lparr>necessary_ip = ip, anticipated_ports = [peer_declared_internal_port]\<rparr>) in
          bs @
          (if internal_ipv4 other \<noteq> last_external_addr then [band (internal_ipv4 other)] else []) @
          (if external_ipv4 other \<noteq> last_external_addr then [band (external_ipv4 other)] else []) @
          (case external_ipv6 other of
             None \<Rightarrow> []
           | Some external_v6 \<Rightarrow> if external_v6 \<noteq> last_external_addr then [band external_v6] else []))"

definition generate_predict_ports_config ::
    "u16 \<Rightarrow> socket_addr \<Rightarrow> addr_band list \<Rightarrow> ip_address_info option \<Rightarrow> u16 \<Rightarrow> addr_band list" where
  "generate_predict_ports_config delta last_external_addr bs other_addrs peer_declared_internal_port =
     (let delta = check_delta delta;
          ports_to_target_count = max (SPREAD * delta) 1;
          beginning_port = sa_port last_external_addr + 1;
          ending_port = beginning_port + ports_to_target_count;
          ports = port_range beginning_port ending_port
      in load_alternate_bands bs other_addrs (sa_ip last_external_addr) peer_declared_internal_port @
         [\<lparr>necessary_ip = sa_ip last_external_addr, anticipated_ports = ports\<rparr>])"

definition generate_local_sockets :: "('s \<Rightarrow> (socket_addr, string) result) \<Rightarrow> 's \<Rightarrow> ('s list, string) result" where
  "generate_local_sockets local_addr first_local_socket = rbind (local_addr first_local_socket) (\<lambda>_. Ok [first_local_socket])"

text \<open>The addresses of a peer whose address ends in one of the next four octets, which wrap around.\<close>

fun next_octets :: "nat \<Rightarrow> u8 \<Rightarrow> u8 list" where
  "next_octets 0 d = []"
| "next_octets (Suc n) d = (d + 1) # next_octets n (d + 1)"

definition random_ip_bands :: "ip_addr list \<Rightarrow> ip_address_info option \<Rightarrow> u16 \<Rightarrow> (addr_band list, string) result" where
  "random_ip_bands addrs other_addrs port =
     (case addrs of
        [] \<Rightarrow> Panic
      | V4 a b c d # _ \<Rightarrow>
          Ok (load_alternate_bands [] other_addrs (V4 a b c d) port @
              map (\<lambda>e. \<lparr>necessary_ip = V4 a b c e, anticipated_ports = [port]\<rparr>) (next_octets 4 d))
      | V6 _ # _ \<Rightarrow> Err ''Should not be an ipv6 addr in this block ...'')"

definition with_local_sockets ::
    "('s \<Rightarrow> (socket_addr, string) result) \<Rightarrow> 's \<Rightarrow> addr_band list \<Rightarrow> ('s hole_punch_config, string) result" where
  "with_local_sockets local_addr sock bs =
     rbind (generate_local_sockets local_addr sock) (\<lambda>socks. Ok \<lparr>bands = bs, locally_bound_sockets = Some socks\<rparr>)"

fun plan_for ::
    "('s \<Rightarrow> (socket_addr, string) result) \<Rightarrow> nat_type \<Rightarrow> 's \<Rightarrow> u16 \<Rightarrow> ('s hole_punch_config, string) result" where
  "plan_for local_addr (EIM direct_addr other_addrs _) sock port =
     with_local_sockets local_addr sock
       (load_alternate_bands [] other_addrs (sa_ip direct_addr) port @
        [\<lparr>necessary_ip = sa_ip direct_addr, anticipated_ports = [port]\<rparr>])"
| "plan_for local_addr (PortPreserved direct_addr other_addrs _) sock port =
     with_local_sockets local_addr sock
       (load_alternate_bands [] other_addrs direct_addr port @ [\<lparr>necessary_ip = direct_addr, anticipated_ports = [port]\<rparr>])"
| "plan_for local_addr (EDM last_external_addr other_addrs delta _) sock port =
     with_local_sockets local_addr sock
       (generate_predict_ports_config (ucast delta) last_external_addr [] other_addrs port)"
| "plan_for local_addr (EDMRandomPort last_external_addr other_addrs ports v6) sock port =
     (case get_average_delta_for_rand_port (EDMRandomPort last_external_addr other_addrs ports v6) of
        None \<Rightarrow> Err ''Expected acceptable average delta''
      | Some delta \<Rightarrow>
          with_local_sockets local_addr sock (generate_predict_ports_config delta last_external_addr [] other_addrs port))"
| "plan_for local_addr (EDMRandomIp _ _ _) sock port = Ok \<lparr>bands = [], locally_bound_sockets = Some [sock]\<rparr>"
| "plan_for local_addr (EDMRandomIPPortPreserved addrs other_addrs _) sock port =
     rbind (random_ip_bands addrs other_addrs port) (\<lambda>bs. Ok \<lparr>bands = bs, locally_bound_sockets = Some [sock]\<rparr>)"
| "plan_for local_addr NatUnknown sock port =
     Err ''This function should not be called since one or more of the peers cannot be reached via STUN-like traversal''"

definition hole_punch_config_new ::
    "('s \<Rightarrow> (socket_addr, string) result) \<Rightarrow> nat_type \<Rightarrow> nat_type \<Rightarrow> 's \<Rightarrow> u16 \<Rightarrow> ('s hole_punch_config, string) result" where
  "hole_punch_config_new local_addr local_nat_info peer_nat_info first_local_socket peer_declared_internal_port =
     (case stun_compatible local_nat_info peer_nat_info of
        Ok True \<Rightarrow> plan_for local_addr peer_nat_info first_local_socket peer_declared_internal_port
      | Ok False \<Rightarrow> Err ''This cannot be called if STUN is not compatible''
      | _ \<Rightarrow> Panic)"

text \<open>A band gives its ports from the back; the plan gives its bands one after the other.\<close>

definition band_addrs :: "addr_band \<Rightarrow> socket_addr list" where
  "band_addrs band = map (socket_addr_new (necessary_ip band)) (rev (anticipated_ports band))"

definition config_into_iter :: "'s hole_punch_config \<Rightarrow> socket_addr list" where
  "config_into_iter self = concat (map band_addrs (bands self))"

text \<open>Both ends must have version 6 and an external address of it for the socket to be one of version 6.\<close>

definition has_external_ipv6 :: "nat_type \<Rightarrow> bool" where
  "has_external_ipv6 nat_info = (case ip_addr_info nat_info of None \<Rightarrow> False | Some info \<Rightarrow> external_ipv6 info \<noteq> None)"

definition get_optimal_bind_socket :: "(string \<Rightarrow> ('s, string) result) \<Rightarrow> nat_type \<Rightarrow> nat_type \<Rightarrow> ('s, string) result" where
  "get_optimal_bind_socket get_udp_socket local_nat_info peer_nat_info =
     (if is_ipv6_compatible local_nat_info \<and> has_external_ipv6 local_nat_info \<and> has_external_ipv6 peer_nat_info \<and>
         is_ipv6_compatible peer_nat_info
      then get_udp_socket ''[::]:0'' else get_udp_socket ''0.0.0.0:0'')"

section \<open>The average step is exact\<close>

lemma bit_length_0 [simp]: "bit_length 0 = 0"
  by (subst bit_length.simps) simp

lemma bit_length_bounds: "n < 2 ^ bit_length n \<and> (0 < n \<longrightarrow> 2 ^ (bit_length n - 1) \<le> n)"
proof (induction n rule: bit_length.induct)
  case (1 n)
  show ?case
  proof (cases "n = 0")
    case False
    let ?m = "n div 2"
    have IH: "?m < 2 ^ bit_length ?m" "0 < ?m \<longrightarrow> 2 ^ (bit_length ?m - 1) \<le> ?m" using "1.IH" False by simp_all
    have bl: "bit_length n = Suc (bit_length ?m)" using False by (subst bit_length.simps) simp
    have "n < 2 * 2 ^ bit_length ?m" using IH(1) by simp
    moreover have "2 ^ bit_length ?m \<le> n"
    proof (cases "?m = 0")
      case True
      then show ?thesis using False by simp
    next
      case m: False
      then have "bit_length ?m = Suc (bit_length ?m - 1)" using IH(1) by (cases "bit_length ?m") simp_all
      then have "(2::nat) ^ bit_length ?m = 2 * 2 ^ (bit_length ?m - 1)" by (metis power_Suc)
      then show ?thesis using IH(2) m by simp
    qed
    ultimately show ?thesis by (simp add: bl)
  qed simp
qed

lemma round_bits_small: "n < 2 ^ k \<Longrightarrow> round_bits k n = n"
proof -
  assume n: "n < 2 ^ k"
  have "bit_length n \<le> k"
  proof (rule ccontr)
    assume "\<not> bit_length n \<le> k"
    then have "(2::nat) ^ k \<le> 2 ^ (bit_length n - 1)" by (intro power_increasing) auto
    moreover have "0 < n" using \<open>\<not> bit_length n \<le> k\<close> by (cases "n = 0") simp_all
    ultimately show False using n bit_length_bounds [of n] by (meson leD le_trans)
  qed
  then show ?thesis by (simp add: round_bits_def round_div_def Let_def)
qed

text \<open>Rounding to the nearest multiple keeps the order with multiples, and reaches one only from half a step away.\<close>

lemma round_div_ge: "0 < b \<Longrightarrow> j * b \<le> a \<Longrightarrow> j \<le> round_div a b"
  by (auto simp: round_div_def Let_def less_eq_div_iff_mult_less_eq intro: le_SucI)

lemma round_div_reaches:
  assumes "0 < b" "a < j * b" "j \<le> round_div a b"
  shows "2 * (j * b - a) \<le> b"
proof -
  have "a div b < j" using assms(1,2) by (simp add: div_less_iff_less_mult)
  with assms(3) have j: "j = a div b + 1" and up: "\<not> 2 * (a mod b) < b" by (auto simp: round_div_def Let_def split: if_splits)
  have "j * b + a mod b = b + a" unfolding j by (simp add: algebra_simps)
  then have "j * b - a = b - a mod b" using mod_less_divisor [OF assms(1), of a] by linarith
  then show ?thesis using up assms(1) mod_less_divisor [of b a] by simp
qed

lemma f32_div_exact:
  assumes "a < 2 ^ 24" "0 < b"
  shows "f32_div_as_usize a b = a div b"
proof (cases "a = 0")
  case True
  then show ?thesis by (simp add: f32_div_as_usize_def round_div_def Let_def)
next
  case a: False
  define k where "k = 24 + bit_length b"
  define q where "q = a * 2 ^ k div b"
  define s where "s = bit_length q - 24"
  have "b < 2 ^ bit_length b" using bit_length_bounds by blast
  then have "2 ^ 24 * b \<le> 2 ^ k" by (simp add: k_def power_add)
  also have "\<dots> \<le> a * 2 ^ k" using a by simp
  finally have q: "2 ^ 24 \<le> q" using assms(2) by (simp add: q_def less_eq_div_iff_mult_less_eq)
  have bq: "q < 2 ^ bit_length q" "2 ^ (bit_length q - 1) \<le> q" using bit_length_bounds [of q] q by auto
  have "24 < bit_length q"
  proof (rule ccontr)
    assume "\<not> 24 < bit_length q"
    then have "(2::nat) ^ bit_length q \<le> 2 ^ 24" by (intro power_increasing) auto
    then show False using bq(1) q by simp
  qed
  then have len: "bit_length q - 1 = s + 23" by (simp add: s_def)
  have half: "2 ^ (s + 23) * b \<le> a * 2 ^ k"
    using bq(2) [unfolded len] assms(2) by (simp add: q_def less_eq_div_iff_mult_less_eq)
  have "s \<le> k"
  proof (rule ccontr)
    assume "\<not> s \<le> k"
    then have "(2::nat) ^ (Suc k + 23) \<le> 2 ^ (s + 23)" by (intro power_increasing) auto
    also have "\<dots> \<le> 2 ^ (s + 23) * b" using assms(2) by simp
    also have "\<dots> \<le> a * 2 ^ k" by (rule half)
    also have "\<dots> < 2 ^ 24 * 2 ^ k" using assms(1) by simp
    finally show False by (simp add: power_add)
  qed
  then have split: "(2::nat) ^ k = 2 ^ (k - s) * 2 ^ s" by (simp flip: power_add)
  have pos: "0 < b * 2 ^ s" using assms(2) by simp
  define m where "m = round_div (a * 2 ^ k) (b * 2 ^ s)"
  have lower: "(a div b) * 2 ^ (k - s) \<le> m"
    unfolding m_def
  proof (rule round_div_ge [OF pos])
    have "(a div b) * 2 ^ (k - s) * (b * 2 ^ s) = (a div b * b) * 2 ^ k" by (simp add: split)
    also have "\<dots> \<le> a * 2 ^ k" by simp
    finally show "(a div b) * 2 ^ (k - s) * (b * 2 ^ s) \<le> a * 2 ^ k" .
  qed
  have upper: "m < Suc (a div b) * 2 ^ (k - s)"
  proof (rule ccontr)
    let ?j = "Suc (a div b) * 2 ^ (k - s)"
    assume "\<not> m < ?j"
    have j: "?j * (b * 2 ^ s) = (Suc (a div b) * b) * 2 ^ k" by (simp add: split algebra_simps)
    have gap: "a + 1 \<le> Suc (a div b) * b" using dividend_less_times_div [of b a] assms(2) by (simp add: algebra_simps)
    have "a * 2 ^ k < ?j * (b * 2 ^ s)" unfolding j using gap by simp
    from round_div_reaches [OF pos this] \<open>\<not> m < ?j\<close>
    have "2 * ((Suc (a div b) * b) * 2 ^ k - a * 2 ^ k) \<le> b * 2 ^ s" unfolding j m_def by simp
    moreover have "(a + 1) * 2 ^ k \<le> (Suc (a div b) * b) * 2 ^ k" using gap by (rule mult_right_mono) simp
    ultimately have "2 * 2 ^ k \<le> b * 2 ^ s" by (simp add: algebra_simps)
    then have "2 * 2 ^ k * 2 ^ 23 \<le> 2 ^ (s + 23) * b" by (simp add: power_add)
    also have "\<dots> \<le> a * 2 ^ k" by (rule half)
    also have "\<dots> < 2 ^ 24 * 2 ^ k" using assms(1) by simp
    finally show False by simp
  qed
  have "m * 2 ^ s div 2 ^ k = m div 2 ^ (k - s)" unfolding split by simp
  also have "\<dots> = a div b" using lower upper by (intro div_nat_eqI) (simp_all add: algebra_simps)
  finally show ?thesis by (simp add: f32_div_as_usize_def Let_def k_def [symmetric] q_def [symmetric] s_def [symmetric] m_def)
qed

lemma sum_steps:
  assumes "sorted xs" "xs \<noteq> []"
  shows "sum_list (map (\<lambda>(a, b). b - a) (zip xs (tl xs))) = last xs - hd xs \<and> hd xs \<le> last (xs :: nat list)"
  using assms
proof (induction xs rule: induct_list012)
  case (3 x y zs)
  then show ?case by auto
qed auto

lemma average_delta_exact:
  assumes "2 \<le> length vals" "length vals < 2 ^ 24" "\<And>v. v \<in> set vals \<Longrightarrow> v < 2 ^ 24"
  shows "average_delta vals = (Max (set vals) - Min (set vals)) div (length vals - 1)"
proof -
  have ne: "sort vals \<noteq> []" "vals \<noteq> []" using assms(1) by (cases vals; simp)+
  have sorted: "sorted (sort vals)" by simp
  have mx: "last (sort vals) = Max (set vals)"
  proof (rule Max_eqI [symmetric])
    show "last (sort vals) \<in> set vals" using last_in_set [OF ne(1)] by simp
    show "v \<le> last (sort vals)" if "v \<in> set vals" for v
    proof -
      have "sort vals = butlast (sort vals) @ [last (sort vals)]" using ne(1) by simp
      then have "sorted (butlast (sort vals) @ [last (sort vals)])" using sorted by simp
      moreover have "v \<in> set (butlast (sort vals) @ [last (sort vals)])" using that ne(1) by (metis append_butlast_last_id set_sort)
      ultimately show ?thesis by (auto simp: sorted_append)
    qed
  qed simp
  have mn: "hd (sort vals) = Min (set vals)"
  proof (rule Min_eqI [symmetric])
    show "hd (sort vals) \<in> set vals" using hd_in_set [OF ne(1)] by simp
    show "hd (sort vals) \<le> v" if "v \<in> set vals" for v
    proof -
      have "sorted (hd (sort vals) # tl (sort vals))" using sorted ne(1) by simp
      moreover have "v \<in> set (hd (sort vals) # tl (sort vals))" using that ne(1) by (metis list.collapse set_sort)
      ultimately show ?thesis by auto
    qed
  qed simp
  have "Max (set vals) < 2 ^ 24" using assms(3) Max_in [of "set vals"] ne(2) by simp
  moreover have "sum_list (map (\<lambda>(a, b). b - a) (zip (sort vals) (tl (sort vals)))) = Max (set vals) - Min (set vals)"
    using sum_steps [OF sorted ne(1)] by (simp add: mx mn)
  moreover have "round_bits 24 (round_bits 24 (length vals) - 1) = length vals - 1"
    using assms(2) by (simp add: round_bits_small)
  ultimately show ?thesis
    using assms(1) by (simp add: average_delta_def Let_def round_bits_small f32_div_exact)
qed

section \<open>Plans and predictions\<close>

lemma traversal_total: "\<exists>t. traversal_type_required n = Ok t"
  by (cases n) simp_all

lemma stun_compatible_comm: "stun_compatible a b = stun_compatible b a"
  using traversal_total [of a] traversal_total [of b] by (auto simp: stun_compatible_def traversal_type_required_with_def)

text \<open>
  A plan for a compatible peer fails in these cases only: the peer's translator is unknown, its list of addresses is
  empty or starts with one of version 6, or the socket has no local address.
\<close>

lemma plan_for_Ok:
  assumes "peer \<noteq> NatUnknown" "local_addr sock = Ok addr"
    and "\<And>addrs info v6. peer = EDMRandomIPPortPreserved addrs info v6 \<Longrightarrow> addrs \<noteq> [] \<and> \<not> is_ipv6 (hd addrs)"
  shows "\<exists>cfg. plan_for local_addr peer sock port = Ok cfg \<and> locally_bound_sockets cfg = Some [sock]"
proof (cases peer)
  case (EDMRandomIPPortPreserved addrs info v6)
  then obtain a b c d rest where "addrs = V4 a b c d # rest"
    using assms(3) by (metis is_ipv6.elims(3) list.collapse)
  then show ?thesis by (simp add: EDMRandomIPPortPreserved random_ip_bands_def)
qed (use assms(1,2) in \<open>simp_all add: with_local_sockets_def generate_local_sockets_def\<close>)

text \<open>
  A peer whose translator could not be classified is called compatible when the own one is predictable, but there is
  no plan for it.
\<close>

lemma unknown_peer_compatible_without_plan:
  assumes "traversal_type_required local_nat = Ok t" "t \<noteq> TURN"
  shows "stun_compatible local_nat NatUnknown = Ok True \<and>
    (\<exists>err. hole_punch_config_new local_addr local_nat NatUnknown sock port = Err err)"
  using assms by (simp add: hole_punch_config_new_def stun_compatible_def traversal_type_required_with_def)

lemma port_range_mem: "x \<in> set (port_range a b) \<longleftrightarrow> a \<le> x \<and> x < b"
proof
  assume "a \<le> x \<and> x < b"
  then have "unat x \<in> {unat a..<unat b}" by (simp add: word_le_nat_alt word_less_nat_alt)
  then have "word_of_nat (unat x) \<in> set (port_range a b)" unfolding port_range_def set_map set_upt by (rule imageI)
  then show "x \<in> set (port_range a b)" by simp
next
  assume "x \<in> set (port_range a b)"
  then obtain n where n: "x = word_of_nat n" "unat a \<le> n" "n < unat b" by (auto simp: port_range_def)
  moreover have "unat b < 2 ^ 16" using unsigned_less [of b] by simp
  ultimately show "a \<le> x \<and> x < b" by (simp add: word_le_nat_alt word_less_nat_alt unat_of_nat)
qed

lemma unat_u16_add: "unat (a :: u16) + unat b < 2 ^ 16 \<Longrightarrow> unat (a + b) = unat a + unat b"
  by (simp add: unat_word_ariths)

lemma unat_u16_mult: "unat (a :: u16) * unat b < 2 ^ 16 \<Longrightarrow> unat (a * b) = unat a * unat b"
  by (simp add: unat_word_ariths)

lemma predicted_count:
  assumes "0 < d" "d \<le> (30 :: u16)"
  shows "max (SPREAD * check_delta d) 1 = 6 * d" "unat (6 * d) = 6 * unat d"
proof -
  have d: "0 < unat d" "unat d \<le> 30" using assms by (simp_all add: word_less_nat_alt word_le_nat_alt)
  show u: "unat (6 * d) = 6 * unat d" using d by (subst unat_u16_mult) simp_all
  have "check_delta d = d" using assms(2) by (simp add: check_delta_def)
  then show "max (SPREAD * check_delta d) 1 = 6 * d"
    using d(1) by (simp add: SPREAD_def max_def word_le_nat_alt u)
qed

text \<open>
  The predicted ports start after the last one. When they would pass the end of the port numbers, there are none at
  all, instead of those up to the end.
\<close>

lemma prediction_lost_at_wrap:
  assumes "0 < d" "d \<le> 30" "unat (sa_port addr) < 65535" "65535 \<le> unat (sa_port addr) + 6 * unat d"
  shows "last (generate_predict_ports_config d addr bs other port) = \<lparr>necessary_ip = sa_ip addr, anticipated_ports = []\<rparr>"
proof -
  have b: "unat (sa_port addr + 1) = unat (sa_port addr) + 1" using assms(3) by (subst unat_u16_add) simp_all
  have "unat d \<le> 30" using assms(2) by (simp add: word_le_nat_alt)
  then have "unat (sa_port addr + 1 + 6 * d) = unat (sa_port addr) + 1 + 6 * unat d - 65536"
    using assms(3,4) b predicted_count(2) [OF assms(1,2)] unat_word_ariths(1) [of "sa_port addr + 1" "6 * d"]
    by (simp add: mod_if)
  then have "unat (sa_port addr + 1 + 6 * d) \<le> unat (sa_port addr + 1)"
    using b \<open>unat d \<le> 30\<close> by simp
  then show ?thesis
    by (simp add: generate_predict_ports_config_def Let_def predicted_count [OF assms(1,2)] port_range_def)
qed

lemma predicted_ports:
  assumes "0 < d" "d \<le> 30" "unat (sa_port addr) + 6 * unat d + 1 < 2 ^ 16"
    and "sa_port addr < x" "unat x \<le> unat (sa_port addr) + 6 * unat d"
  shows "socket_addr_new (sa_ip addr) x \<in> set (concat (map band_addrs (generate_predict_ports_config d addr bs other port)))"
proof -
  have b: "unat (sa_port addr + 1) = unat (sa_port addr) + 1" using assms(3) by (subst unat_u16_add) simp_all
  have e: "unat (sa_port addr + 1 + 6 * d) = unat (sa_port addr) + 1 + 6 * unat d"
    using assms(3) b predicted_count(2) [OF assms(1,2)] by (subst unat_u16_add) simp_all
  have "x \<in> set (port_range (sa_port addr + 1) (sa_port addr + 1 + 6 * d))"
    using assms(4,5) b e by (simp add: port_range_mem word_less_nat_alt word_le_nat_alt)
  then show ?thesis
    by (simp add: generate_predict_ports_config_def Let_def predicted_count [OF assms(1,2)] band_addrs_def)
qed

lemma stepping_ports_EDM:
  assumes "mset ports = {#p, p + d, p + 2 * d#}" "unat p + 2 * unat d < 2 ^ 16"
  shows "stepping_ports v6 ip ports = EDM (socket_addr_new ip (p + 2 * d)) None (ucast d) v6"
proof -
  have d2: "unat (2 * d) = 2 * unat d" using assms(2) by (subst unat_u16_mult) simp_all
  have u: "unat (p + d) = unat p + unat d" "unat (p + 2 * d) = unat p + 2 * unat d"
    using assms(2) d2 by (simp_all add: unat_u16_add)
  have "sort ports = [p, p + d, p + 2 * d]"
    using assms(1) u by (intro properties_for_sort) (simp_all add: word_le_nat_alt)
  moreover have "uint (p + d) = uint p + uint d" "uint (p + 2 * d) = uint p + 2 * uint d"
    using u by (simp_all only: uint_nat of_nat_add of_nat_mult of_nat_numeral)
  moreover have "word_of_int (uint d) = (ucast d :: i32)" by (rule ucast_eq [symmetric])
  ultimately show ?thesis by (simp add: stepping_ports_def Let_def)
qed

text \<open>
  C33: Equal steps are predicted. Suppose the translator of a peer showed three servers one address of version 4 and
  three ports in steps of \<open>d\<close>, in whatever order the answers came, and the ports are not simply preserved. Then the peer
  is classified as predictable with that step, and every node plans for it, whatever its own translator; the plan
  contains the next six external ports of the peer, provided the step is at most 30 and the port numbers do not end
  before.
\<close>

theorem predicted_ports_targeted:
  assumes "mset [sa_port e1, sa_port e2, sa_port e3] = {#p, p + d, p + 2 * d#}"
    and "0 < d" "d \<le> 30" "unat p + 8 * unat d + 1 < 2 ^ 16"
    and "sa_ip e1 = ip" "sa_ip e2 = ip" "sa_ip e3 = ip" "\<not> is_ipv6 ip"
    and "\<not> (sa_port e1 = sa_port i1 \<and> sa_port e2 = sa_port i2 \<and> sa_port e3 = sa_port i3)"
    and "local_addr sock = Ok bound"
  shows "\<exists>peer_nat cfg. get_nat_type v6 (Ok info) [Ok (Some (e3, i3)), Ok (Some (e2, i2)), Ok (Some (e1, i1))] = Ok peer_nat \<and>
    traversal_type_required peer_nat = Ok (Delta (ucast d)) \<and>
    hole_punch_config_new local_addr local_nat peer_nat sock port = Ok cfg \<and>
    (\<forall>k \<in> {1..6}. socket_addr_new ip (p + 2 * d + word_of_nat k * d) \<in> set (config_into_iter cfg))"
proof -
  let ?addr = "socket_addr_new ip (p + 2 * d)"
  let ?nat = "EDM ?addr (Some info) (ucast d) v6"
  let ?bands = "generate_predict_ports_config d ?addr [] (Some info) port"
  have "get_nat_type v6 (Ok info) [Ok (Some (e3, i3)), Ok (Some (e2, i2)), Ok (Some (e1, i1))] = Ok ?nat"
    using assms(1,4-9) stepping_ports_EDM [of "[sa_port e1, sa_port e2, sa_port e3]" p d v6 ip]
    by (auto simp: get_nat_type_def pop_result_def Let_def)
  moreover have "ucast (ucast d :: i32) = d" by (simp add: ucast_up_ucast_id is_up)
  moreover obtain t where "traversal_type_required local_nat = Ok t" using traversal_total by blast
  ultimately have "get_nat_type v6 (Ok info) [Ok (Some (e3, i3)), Ok (Some (e2, i2)), Ok (Some (e1, i1))] = Ok ?nat"
      "hole_punch_config_new local_addr local_nat ?nat sock port = Ok \<lparr>bands = ?bands, locally_bound_sockets = Some [sock]\<rparr>"
    using assms(10)
    by (simp_all add: hole_punch_config_new_def stun_compatible_def traversal_type_required_with_def with_local_sockets_def
        generate_local_sockets_def)
  moreover have "socket_addr_new ip (p + 2 * d + word_of_nat k * d) \<in> set (concat (map band_addrs ?bands))"
    if k: "k \<in> {1..6}" for k
  proof -
    have d: "0 < unat d" using assms(2) by (simp add: word_less_nat_alt)
    have kd: "k * unat d \<le> 6 * unat d" using k by simp
    have uk: "unat (word_of_nat k :: u16) = k" using k by (simp add: unat_of_nat)
    have "k * unat d < 2 ^ 16" using kd assms(4) by linarith
    then have "unat (word_of_nat k * d) = k * unat d" using uk by (subst unat_u16_mult) simp_all
    moreover have "unat (2 * d) = 2 * unat d" using assms(4) by (subst unat_u16_mult) simp_all
    ultimately have "unat (p + 2 * d) = unat p + 2 * unat d"
        "unat (p + 2 * d + word_of_nat k * d) = unat p + 2 * unat d + k * unat d"
      using le_less_trans [OF add_left_mono [OF kd]] assms(4) by (simp_all add: unat_u16_add)
    then show ?thesis
      using predicted_ports [of d ?addr "p + 2 * d + word_of_nat k * d" "[]" "Some info" port] assms(2-4) kd k d
      by (simp add: socket_addr_new_def word_less_nat_alt)
  qed
  ultimately show ?thesis by (intro exI [of _ ?nat]) (simp add: config_into_iter_def)
qed

definition demo_addr :: "u16 \<Rightarrow> socket_addr" where
  "demo_addr port = socket_addr_new (V4 123 100 200 100) port"

theorem predicted_ports_targeted_witness:
  "\<exists>peer_nat cfg. get_nat_type False (Ok \<lparr>internal_ipv4 = V4 10 0 0 2, external_ipv4 = V4 123 100 200 100, external_ipv6 = None\<rparr>)
       [Ok (Some (demo_addr 5010, demo_addr 40)), Ok (Some (demo_addr 5000, demo_addr 41)),
        Ok (Some (demo_addr 5005, demo_addr 42))] = Ok peer_nat \<and>
     hole_punch_config_new (\<lambda>_. Ok (demo_addr 7)) NatUnknown peer_nat () 9000 = Ok cfg \<and>
     demo_addr 5015 \<in> set (config_into_iter cfg) \<and> demo_addr 5040 \<in> set (config_into_iter cfg)"
proof -
  let ?info = "\<lparr>internal_ipv4 = V4 10 0 0 2, external_ipv4 = V4 123 100 200 100, external_ipv6 = None\<rparr>"
  from predicted_ports_targeted [of "demo_addr 5005" "demo_addr 5000" "demo_addr 5010" 5000 5 "V4 123 100 200 100"
      "demo_addr 42" "demo_addr 41" "demo_addr 40" "\<lambda>_. Ok (demo_addr 7)" "()" "demo_addr 7" False ?info NatUnknown 9000]
  obtain peer_nat cfg where
    "get_nat_type False (Ok ?info) [Ok (Some (demo_addr 5010, demo_addr 40)), Ok (Some (demo_addr 5000, demo_addr 41)),
        Ok (Some (demo_addr 5005, demo_addr 42))] = Ok peer_nat"
    "hole_punch_config_new (\<lambda>_. Ok (demo_addr 7)) NatUnknown peer_nat () 9000 = Ok cfg"
    "\<forall>k \<in> {1..6}. socket_addr_new (V4 123 100 200 100) (5000 + 2 * 5 + word_of_nat k * 5) \<in> set (config_into_iter cfg)"
    by (simp add: demo_addr_def socket_addr_new_def) blast
  moreover from this(3) [rule_format, of 1] this(3) [rule_format, of 6]
  have "demo_addr 5015 \<in> set (config_into_iter cfg)" "demo_addr 5040 \<in> set (config_into_iter cfg)"
    by (simp_all add: demo_addr_def)
  ultimately show ?thesis by blast
qed

end
