(* ===== verification/Spec2Isabelle.thy ===== *)
theory Spec2Isabelle
  imports Group_Transfer Rekey_Hazards Peer_Signals Packet_Dispatch Nat_Traversal
begin

text \<open>
  Verification of the Citadel Protocol, a post-quantum messaging protocol in Rust. The model covers its cryptographic
  core (the crates \<open>citadel_pqcrypto\<close> and \<open>citadel_crypt\<close>), the packets and the key updates of \<open>citadel_proto\<close>, and what
  a server does for its clients: accounts, groups, mailboxes, relayed packets and requests from one client to another,
  and how two clients find each other behind address translators. All paths below are under \<open>src/\<close>.

  \<^bold>\<open>How the program works.\<close> Two ends agree on keys with a key encapsulation and signatures; the result is a
  post-quantum container per layer, and the layers make up a ratchet. A ratchet seals packets: every layer writes a
  packet number, encrypts in place and authenticates the header, and the receiving layer checks the number against
  its history of replays. Large data travel as groups of scrambled packets in waves. A session keeps the ratchets of
  the recent versions in a toolset; a key update, driven by four packets, adds the next version at both ends and
  truncates the oldest. Clients talk to each other through a server. It keeps their accounts and mutual lists in a
  backend, the message groups, mailboxes and waiting requests in its peer layer, and the sessions in its session
  manager; the handlers of peer packets work on all three.

  \<^bold>\<open>Conventions.\<close> A Rust \<open>Result\<close> is the type \<open>result\<close> of \<open>Prelude\<close>, whose third constructor \<open>Panic\<close> stands for a
  panic: failed \<open>unwrap\<close>, index out of range, slice beyond the end. Integers have their width; arithmetic wraps around,
  as in a release build, where the code does not check it. A call that never returns, because it takes a lock it
  already holds, is \<open>None\<close> of an option around the outcome. A mutable receiver \<open>&mut self\<close> is an argument and a part
  of the result. A \<open>HashMap\<close> is an association list with one entry per key. What locks protect is one step. Random
  bytes, shuffles, clock readings and identifiers drawn at random are arguments, and so is code of other packages:
  ciphers, KEM, signatures and hashes are the record \<open>crypto_lib\<close> (theory \<open>Aead\<close>), codecs are functions \<open>ser\<close> and \<open>de\<close>, the
  ratchet traits are a record \<open>ratchet_trait\<close>, the backend of a server is a record \<open>persistence\<close>. What a proof needs
  of them is a named predicate in its hypotheses, for instance that a cipher opens what it sealed.

  \<^bold>\<open>Theories and sources.\<close>

  \<^item> \<open>Prelude\<close>: results, words, big-endian codecs (locale \<open>be_codec\<close>), runs of a step function with a ghost history
    (\<open>run_ghost\<close>), functional refinement and simulation (\<open>refinement\<close>, \<open>simulation\<close>), lemmas on lists and maps.

  \<^item> \<open>Algorithms\<close> (\<open>citadel_pqcrypto/src/lib.rs\<close>, \<open>constructor_opts.rs\<close>, \<open>ez_error.rs\<close>): the algorithms and their wire byte. A
    byte decodes to parameters exactly when it is their encoding and they are valid.

  \<^item> \<open>Scram_Crypt\<close> (\<open>wire.rs\<close>), \<open>Aead\<close> (\<open>encryption.rs\<close>, \<open>bytes_in_place.rs\<close>), \<open>PQ_Container\<close> (\<open>lib.rs\<close>, \<open>wire.rs\<close>,
    \<open>export.rs\<close>): the block permutation, the cipher modules, the container with its exchange, protection of packets and
    serialization. Round trips of each; \<open>Secure_Channel\<close> shows that both ends derive the same keys, that packets are
    delivered exactly once within the replay window, and what clones keep and lose.

  \<^item> \<open>Anti_Replay\<close> (\<open>replay_attack_container.rs\<close>): the history of packet numbers. It refines the ideal filter while at most
    \<open>HISTORY_LEN\<close> numbers arrived; beyond that the exact limits of its protection are shown.

  \<^item> \<open>Entropy_Bank\<close> (\<open>entropy_bank.rs\<close>, \<open>misc.rs\<close>), \<open>Packet_Vector\<close> (\<open>packet_vector.rs\<close>), \<open>Sec_Packet\<close>
    (\<open>secure_buffer/partitioned_sec_buffer.rs\<close>, \<open>sec_packet.rs\<close>): nonces, packet coordinates and buffers. The division by
    \<open>f64\<close> \<open>PI\<close> in the nonce is written out in exact arithmetic with rounding to 53 bits.

  \<^item> \<open>Scrambler\<close>, \<open>Group_Receiver\<close> (\<open>scramble/crypt_splitter.rs\<close>) with \<open>Group_Reassembly\<close>, \<open>Group_Invariant\<close> and
    \<open>Group_Transfer\<close>: a group that is sent is reassembled from its packets in any order and with any duplicates, unless
    the plaintext fills its waves exactly, where the receiver panics.

  \<^item> \<open>Thin_Ratchet\<close> (\<open>fcm/fcm_ratchet.rs\<close>), \<open>Stacked_Ratchet\<close> (\<open>stacked_ratchet.rs\<close>), \<open>Ratchet_Handshake\<close>,
    \<open>Stacked_Channel\<close>: the layered ratchet; the ends of an exchange (locale \<open>ratchet_exchange\<close>) agree, and packets under any
    mix of security levels are delivered exactly once.

  \<^item> \<open>Toolset\<close> (\<open>toolset.rs\<close>), \<open>Session_Crypto\<close> (\<open>endpoint_crypto_container.rs\<close>, \<open>sync_toggle.rs\<close>): the window of versions and
    the container with its update lock. The look-up by index is a search by version.

  \<^item> \<open>Hdp_Packet\<close>, \<open>Packet_Crafter\<close>, \<open>Packet_Exchange\<close>, \<open>Group_Transmitter\<close> (\<open>citadel_proto/src/proto/packet.rs\<close>,
    \<open>packet_crafter.rs\<close>, \<open>validation.rs\<close>): headers, every crafter, the validators. What is crafted is read back.

  \<^item> \<open>Ordered_Channel\<close> (\<open>proto/misc/ordered_channel.rs\<close>): messages are delivered in order, and the scan for waiting
    messages ends at the first gap.

  \<^item> \<open>Session_Node\<close>, \<open>Rekey\<close>, \<open>Rekey_Hazards\<close> (\<open>proto/state_container.rs\<close>, \<open>packet_processor/rekey_packet.rs\<close>,
    \<open>primary_group_packet.rs\<close>): messages and key updates of a session. An update that runs alone leaves both ends in step;
    crossing updates and a poll of an empty queue are shown to break a session.

  \<^item> \<open>Memory_Backend\<close> (\<open>citadel_user/src/backend/memory.rs\<close>, \<open>client_account.rs\<close>, \<open>misc.rs\<close>): accounts, mutual lists and byte
    maps; the lists stay symmetric. The locale \<open>byte_store\<close> states what the mailboxes need of a backend.

  \<^item> \<open>Peer_Layer\<close> (\<open>proto/peer/peer_layer.rs\<close>, \<open>message_group.rs\<close>): groups, mailboxes and waiting requests with their
    timers. Members of a group consented; a request ends once.

  \<^item> \<open>Session_Hub\<close> (\<open>proto/session_manager.rs\<close>): the sessions of a server and the ways to reach a client.
    \<open>Group_Broadcast\<close> (\<open>packet_processor/peer/group_broadcast.rs\<close>): the handler of group packets; a message reaches every
    member, by its session or by its mailbox. \<open>Peer_Signals\<close> (\<open>packet_processor/peer/peer_cmd_packet.rs\<close>, \<open>server/\<close>): the
    handler of signals on a server; a registration of two clients consumes a request of one of them.

  \<^item> \<open>Packet_Dispatch\<close> (\<open>packet_processor/raw_primary_packet.rs\<close>, \<open>keep_alive_packet.rs\<close>, \<open>disconnect_packet.rs\<close>): what happens
    to a packet before its handler. A server relays the packets of one client to another unopened and unchanged, and
    they open at the other end; at an endpoint the same check can be made to panic.

  \<^item> \<open>Nat_Traversal\<close> (\<open>citadel_wire/src/nat_identification.rs\<close>, \<open>udp_traversal/hole_punch_config.rs\<close>): the classification of
    address translators and the addresses tried for a peer. Equal steps of the ports are recognised, and the next six
    ports are tried; the average in single precision is exact.

  \<^bold>\<open>Bounds.\<close> No definition uses fuel. Loops are structural recursions or have a termination proof: the scan of the
  ordered channel by the number of waiting messages, the reading of a group by its packets. Lists stay below the
  size of the machine's address space where a length becomes a word; such bounds are hypotheses of the theorems. The
  background loops of the program (the executor of timers, the waiting before a virtual connection is dropped) are
  one turn or one task that runs at any later time.

  \<^bold>\<open>Not modelled.\<close> The packets that set a connection or an account up (\<open>preconnect\<close>, \<open>connect\<close>, \<open>register\<close>,
  \<open>deregister\<close>), the client half of the signal handler and the small handlers of file, datagram and hole-punch packets
  drive the account manager, sockets, QUIC hand-over and file systems; the exchange of keys they carry is modelled on
  its own. The tasks of \<open>session.rs\<close>, \<open>node.rs\<close> and the kernel are asynchronous loops over sockets
  and channels. Password hashing (\<open>argon\<close>), the SQL, Redis and file backends, the external services, the rest
  of \<open>citadel_wire\<close> (sockets, UPnP, TLS, the punching itself), \<open>netbeam\<close> (synchronisation over a stream), \<open>citadel_sdk\<close> and the
  runtime crates wrap other packages or devices. Locking and zeroing of memory, logging and statistics have no effect
  on the values modelled.
\<close>

end
